theory Spec2Isabelle
  imports Main "HOL-Library.Sublist" "HOL-Library.AList"
begin

section \<open>Python values used by \<^verbatim>\<open>get_data.py\<close>\<close>

text \<open>
  The script is a single Python module. Strings are lists of characters (code points below
  256), Python's unbounded integers are \<^typ>\<open>int\<close>, a raised exception is the left injection
  of a sum type, and a \<^verbatim>\<open>dict\<close> is an association list with distinct keys in insertion
  order.
\<close>

datatype error = AttributeError | ValueError | IndexError | KeyError | TransportError | OSError

subsection \<open>String methods\<close>

text \<open>\<^verbatim>\<open>sub in s\<close>: \<open>sub\<close> occurs in \<open>s\<close> as a contiguous block.\<close>

fun py_in :: "string \<Rightarrow> string \<Rightarrow> bool" where
  "py_in sub [] = (sub = [])"
| "py_in sub (c # cs) = (prefix sub (c # cs) \<or> py_in sub cs)"

text \<open>
  \<^verbatim>\<open>s.split(sep)\<close> with a non-empty separator and no limit: the occurrences of \<open>sep\<close> are
  found from left to right without overlap, and the pieces between them are returned (at least
  one piece). Every call in the module passes a non-empty literal.
\<close>

fun py_split :: "string \<Rightarrow> string \<Rightarrow> string list" where
  "py_split sep [] = [[]]"
| "py_split sep (c # cs) =
     (if sep \<noteq> [] \<and> prefix sep (c # cs)
      then [] # py_split sep (drop (length sep) (c # cs))
      else (case py_split sep cs of
              [] \<Rightarrow> [[c]]
            | p # ps \<Rightarrow> (c # p) # ps))"

text \<open>\<^verbatim>\<open>xs[i]\<close> for \<open>i \<ge> 0\<close> and \<^verbatim>\<open>xs[-1]\<close>; both raise \<^verbatim>\<open>IndexError\<close> out of range.\<close>

definition py_index :: "'a list \<Rightarrow> nat \<Rightarrow> error + 'a" where
  "py_index xs i = (if i < length xs then Inr (xs ! i) else Inl IndexError)"

definition py_last :: "'a list \<Rightarrow> error + 'a" where
  "py_last xs = (if xs = [] then Inl IndexError else Inr (last xs))"

text \<open>\<^verbatim>\<open>s.replace(" ", "_")\<close>: both arguments are single characters.\<close>

definition replace_space :: "string \<Rightarrow> string" where
  "replace_space s = map (\<lambda>c. if c = CHR '' '' then CHR ''_'' else c) s"

text \<open>
  \<^verbatim>\<open>str.isspace\<close> on one character, for the code points below 256: tab to carriage return,
  the four separators \<open>0x1c\<close> to \<open>0x1f\<close>, space, \<open>0x85\<close> and \<open>0xa0\<close>.
\<close>

definition is_space :: "char \<Rightarrow> bool" where
  "is_space c = (let n = (of_char c :: nat) in
     (9 \<le> n \<and> n \<le> 13) \<or> (28 \<le> n \<and> n \<le> 32) \<or> n = 133 \<or> n = 160)"

definition py_strip :: "string \<Rightarrow> string" where
  "py_strip s = rev (dropWhile is_space (rev (dropWhile is_space s)))"

text \<open>\<^verbatim>\<open>sep.join(xs)\<close>.\<close>

fun py_join :: "string \<Rightarrow> string list \<Rightarrow> string" where
  "py_join sep [] = []"
| "py_join sep [x] = x"
| "py_join sep (x # y # ys) = x @ sep @ py_join sep (y # ys)"

section \<open>Image helpers\<close>

text \<open>
  \<^verbatim>\<open>normalize_item_image_url(src)\<close>, lines 27 to 36. The two indexings \<^verbatim>\<open>parts[1]\<close> and
  \<^verbatim>\<open>src.split("?")[1]\<close> are kept as Python indexings that may raise.
\<close>

definition normalize_item_image_url :: "string \<Rightarrow> error + string" where
  "normalize_item_image_url src =
     (if \<not> py_in ''/thumb/'' src then Inr src
      else
        let parts = py_split ''/thumb/'' src in
        case py_index parts 1 of
          Inl e \<Rightarrow> Inl e
        | Inr rest \<Rightarrow>
            (case py_index (py_split ''/'' rest) 0 of
               Inl e \<Rightarrow> Inl e
             | Inr filename \<Rightarrow>
                 (if py_in ''?'' src
                  then (case py_index (py_split ''?'' src) 1 of
                          Inl e \<Rightarrow> Inl e
                        | Inr q \<Rightarrow> Inr (''/images/'' @ filename @ ''?'' @ q))
                  else Inr (''/images/'' @ filename @ ''''))))"


section \<open>Parsed pages\<close>

text \<open>
  \<^verbatim>\<open>etree.HTML(html)\<close> gives the root element of a parsed page. A node is an element (tag,
  attributes, child nodes), a text node or a comment. lxml's \<^verbatim>\<open>el.text\<close> is the text in
  front of the first child element, and \<^verbatim>\<open>None\<close> when the element does not start with text.
\<close>

datatype node = Element string "(string \<times> string) list" "node list" | Text string | Comment string

fun tag :: "node \<Rightarrow> string option" where
  "tag (Element t a cs) = Some t"
| "tag (Text s) = None"
| "tag (Comment s) = None"

fun children :: "node \<Rightarrow> node list" where
  "children (Element t a cs) = cs"
| "children (Text s) = []"
| "children (Comment s) = []"

text \<open>\<^verbatim>\<open>el.get(key)\<close>, and the value of \<^verbatim>\<open>@key\<close> in a path.\<close>

fun get_attr :: "node \<Rightarrow> string \<Rightarrow> string option" where
  "get_attr (Element t a cs) k = map_of a k"
| "get_attr (Text s) k = None"
| "get_attr (Comment s) k = None"

fun is_text :: "node \<Rightarrow> bool" where
  "is_text (Text s) = True"
| "is_text (Element t a cs) = False"
| "is_text (Comment s) = False"

fun text_of :: "node \<Rightarrow> string" where
  "text_of (Text s) = s"
| "text_of (Element t a cs) = []"
| "text_of (Comment s) = []"

text \<open>\<^verbatim>\<open>el.text\<close>: the run of text nodes at the start of the children, joined.\<close>

definition el_text :: "node \<Rightarrow> string option" where
  "el_text n = (case takeWhile is_text (children n) of
                  [] \<Rightarrow> None
                | t # ts \<Rightarrow> Some (concat (map text_of (t # ts))))"

text \<open>The proper descendants of a node, in document order.\<close>

fun descendants :: "node \<Rightarrow> node list" where
  "descendants (Element t a cs) = concat (map (\<lambda>c. c # descendants c) cs)"
| "descendants (Text s) = []"
| "descendants (Comment s) = []"

subsection \<open>The path expressions of the module\<close>

text \<open>\<^verbatim>\<open>name\<close> as a node test, \<^verbatim>\<open>@class="v"\<close> and \<^verbatim>\<open>contains(@class, "v")\<close> as predicates.\<close>

definition is_tag :: "string \<Rightarrow> node \<Rightarrow> bool" where
  "is_tag t n = (tag n = Some t)"

definition class_is :: "string \<Rightarrow> node \<Rightarrow> bool" where
  "class_is v n = (get_attr n ''class'' = Some v)"

definition class_contains :: "string \<Rightarrow> node \<Rightarrow> bool" where
  "class_contains v n =
     py_in v (case get_attr n ''class'' of None \<Rightarrow> [] | Some c \<Rightarrow> c)"

text \<open>
  \<^verbatim>\<open>//A[p]//B[q]\<close> from the root: the nodes satisfying \<open>tgt\<close> that lie properly below a node
  satisfying \<open>anc\<close>, each once, in document order. The flag records that such an ancestor
  has been passed.
\<close>

fun select_inside :: "(node \<Rightarrow> bool) \<Rightarrow> (node \<Rightarrow> bool) \<Rightarrow> bool \<Rightarrow> node \<Rightarrow> node list" where
  "select_inside anc tgt inside (Element t a cs) =
     (if inside \<and> tgt (Element t a cs) then [Element t a cs] else []) @
     concat (map (select_inside anc tgt (inside \<or> anc (Element t a cs))) cs)"
| "select_inside anc tgt inside (Text s) = []"
| "select_inside anc tgt inside (Comment s) = []"

text \<open>\<^verbatim>\<open>.../img/@src\<close>: the \<^verbatim>\<open>src\<close> values of the selected images that have one.\<close>

definition src_values :: "node list \<Rightarrow> string list" where
  "src_values imgs = List.map_filter (\<lambda>n. get_attr n ''src'') imgs"

text \<open>\<^verbatim>\<open>extract_main_image(tree)\<close>, lines 39 to 42.\<close>

definition extract_main_image :: "node \<Rightarrow> string option" where
  "extract_main_image tree =
     (let img = src_values (select_inside
                  (\<lambda>n. is_tag ''figure'' n \<and> class_contains ''pi-image'' n)
                  (is_tag ''img'') False tree)
      in case img of [] \<Rightarrow> None | i # _ \<Rightarrow> Some i)"

text \<open>\<^verbatim>\<open>extract_item_images(tree)\<close>, lines 45 and 46.\<close>

definition extract_item_images :: "node \<Rightarrow> string list" where
  "extract_item_images tree =
     src_values (select_inside
       (\<lambda>n. is_tag ''div'' n \<and> class_is ''item-tooltip'' n)
       (is_tag ''img'') False tree)"

section \<open>General information\<close>

text \<open>A result of \<^verbatim>\<open>get_general_info\<close>: a dict from label to value.\<close>

type_synonym general_info = "(string \<times> string) list"

text \<open>\<^verbatim>\<open>h2[text()="General Information"]\<close>: an \<^verbatim>\<open>h2\<close> child with such a text node.\<close>

definition has_general_heading :: "node \<Rightarrow> bool" where
  "has_general_heading n =
     (\<exists>h \<in> set (children n). is_tag ''h2'' h \<and>
        (\<exists>t \<in> set (children h). is_text t \<and> text_of t = ''General Information''))"

definition data_items :: "node \<Rightarrow> node list" where
  "data_items tree =
     select_inside (\<lambda>n. is_tag ''section'' n \<and> has_general_heading n)
       (\<lambda>n. is_tag ''div'' n \<and> class_contains ''pi-data'' n) False tree"

definition label_el :: "node \<Rightarrow> node list" where
  "label_el item =
     filter (\<lambda>n. is_tag ''h3'' n \<and> class_contains ''pi-data-label'' n) (children item)"

definition value_elements :: "node \<Rightarrow> node list" where
  "value_elements item =
     filter (\<lambda>n. is_tag ''div'' n \<and> class_contains ''pi-data-value'' n) (children item)"

text \<open>\<^verbatim>\<open>el.xpath(".//text()")\<close>: the text nodes below the element, in document order.\<close>

definition text_nodes :: "node \<Rightarrow> string list" where
  "text_nodes n = map text_of (filter is_text (descendants n))"

text \<open>Line 59. \<^verbatim>\<open>label_el[0].text.strip()\<close> raises when \<^verbatim>\<open>.text\<close> is \<^verbatim>\<open>None\<close>.\<close>

definition row_label :: "node \<Rightarrow> error + string option" where
  "row_label item =
     (case label_el item of
        [] \<Rightarrow> Inr None
      | l # _ \<Rightarrow> (case el_text l of
                   None \<Rightarrow> Inl AttributeError
                 | Some t \<Rightarrow> Inr (Some (py_strip t))))"

text \<open>Lines 60 to 64.\<close>

definition row_value :: "node \<Rightarrow> string option" where
  "row_value item =
     (case value_elements item of
        [] \<Rightarrow> None
      | v # _ \<Rightarrow> Some (py_strip (py_join '' '' (text_nodes v))))"

text \<open>Python truth of an optional string: neither \<^verbatim>\<open>None\<close> nor empty.\<close>

fun truthy :: "string option \<Rightarrow> bool" where
  "truthy None = False"
| "truthy (Some s) = (s \<noteq> [])"

text \<open>Lines 65 and 66 on one row.\<close>

fun store_row :: "string option \<Rightarrow> string option \<Rightarrow> general_info \<Rightarrow> general_info" where
  "store_row (Some l) (Some v) info =
     (if l \<noteq> [] \<and> v \<noteq> [] then AList.update l v info else info)"
| "store_row None v info = info"
| "store_row (Some l) None info = info"

text \<open>The loop of lines 57 to 66, and \<^verbatim>\<open>get_general_info(tree)\<close>.\<close>

fun general_info_loop :: "general_info \<Rightarrow> node list \<Rightarrow> error + general_info" where
  "general_info_loop info [] = Inr info"
| "general_info_loop info (item # rest) =
     (case row_label item of
        Inl e \<Rightarrow> Inl e
      | Inr label \<Rightarrow> general_info_loop (store_row label (row_value item) info) rest)"

definition get_general_info :: "node \<Rightarrow> error + general_info" where
  "get_general_info tree = general_info_loop [] (data_items tree)"


section \<open>Recipe table\<close>

text \<open>
  \<^verbatim>\<open>int(s)\<close> on a string, base ten: surrounding white space is dropped, one sign is allowed,
  then digits, with single underscores allowed between two digits. CPython (3.11 and later, at
  its default setting) also refuses more than 4300 digits. Every failure is a
  \<^verbatim>\<open>ValueError\<close>.
\<close>

definition is_digit :: "char \<Rightarrow> bool" where
  "is_digit c = (let n = (of_char c :: nat) in 48 \<le> n \<and> n \<le> 57)"

definition digit_val :: "char \<Rightarrow> nat" where
  "digit_val c = of_char c - 48"

fun after_digit :: "nat \<Rightarrow> string \<Rightarrow> nat option" where
  "after_digit acc [] = Some acc"
| "after_digit acc (c # cs) =
     (if is_digit c then after_digit (10 * acc + digit_val c) cs
      else if c = CHR ''_'' then
        (case cs of
           [] \<Rightarrow> None
         | d # ds \<Rightarrow> if is_digit d then after_digit (10 * acc + digit_val d) ds else None)
      else None)"

definition unsigned_value :: "string \<Rightarrow> nat option" where
  "unsigned_value s =
     (case s of
        [] \<Rightarrow> None
      | c # cs \<Rightarrow> if is_digit c then after_digit (digit_val c) cs else None)"

definition py_int :: "string \<Rightarrow> error + int" where
  "py_int s =
     (let t = py_strip s;
          neg = (t \<noteq> [] \<and> hd t = CHR ''-'');
          body = (if t \<noteq> [] \<and> (hd t = CHR ''-'' \<or> hd t = CHR ''+'') then tl t else t)
      in if 4300 < length (filter is_digit body) then Inl ValueError
         else (case unsigned_value body of
                 None \<Rightarrow> Inl ValueError
               | Some n \<Rightarrow> Inr (if neg then - int n else int n)))"

text \<open>
  The dicts built by \<^verbatim>\<open>get_recipes\<close>. \<^verbatim>\<open>name_el.get("data-name")\<close> is \<^verbatim>\<open>None\<close> when the
  attribute is absent, so a name is optional.
\<close>

record material =
  mat_name :: "string option"
  mat_quantity :: int

record parsed_recipe =
  pr_inputs :: "material list"
  pr_outputs :: "material list"
  pr_time :: string

text \<open>
  \<^verbatim>\<open>(//table[@class="mrfz-wtable"])[1]/tbody/tr[position() > 1]\<close>: in the first such table of
  the page, the rows of each \<^verbatim>\<open>tbody\<close> child but its first.
\<close>

definition recipe_rows :: "node \<Rightarrow> node list" where
  "recipe_rows tree =
     (case filter (\<lambda>n. is_tag ''table'' n \<and> class_is ''mrfz-wtable'' n) (tree # descendants tree) of
        [] \<Rightarrow> []
      | t # _ \<Rightarrow>
          concat (map (\<lambda>tb. drop 1 (filter (is_tag ''tr'') (children tb)))
                      (filter (is_tag ''tbody'') (children t))))"

text \<open>\<^verbatim>\<open>./td[k]\<close>: the \<open>k\<close>-th \<^verbatim>\<open>td\<close> child, as a list of at most one node.\<close>

definition td :: "nat \<Rightarrow> node \<Rightarrow> node list" where
  "td k row = take 1 (drop (k - 1) (filter (is_tag ''td'') (children row)))"

text \<open>\<^verbatim>\<open>./td[k]//div[@class='c']\<close>.\<close>

definition td_divs :: "nat \<Rightarrow> string \<Rightarrow> node \<Rightarrow> node list" where
  "td_divs k c row =
     concat (map (\<lambda>cell. filter (\<lambda>n. is_tag ''div'' n \<and> class_is c n) (descendants cell))
                 (td k row))"

definition input_name_elements :: "node \<Rightarrow> node list" where
  "input_name_elements row = td_divs 1 ''item-tooltip'' row"

definition input_count_elements :: "node \<Rightarrow> node list" where
  "input_count_elements row = td_divs 1 ''item-count'' row"

definition output_name_elements :: "node \<Rightarrow> node list" where
  "output_name_elements row = td_divs 2 ''item-tooltip'' row"

definition output_count_elements :: "node \<Rightarrow> node list" where
  "output_count_elements row = td_divs 2 ''item-count'' row"

text \<open>\<^verbatim>\<open>el.text.strip()\<close>: raises when \<^verbatim>\<open>el.text\<close> is \<^verbatim>\<open>None\<close>.\<close>

definition text_strip :: "node \<Rightarrow> error + string" where
  "text_strip el = (case el_text el of None \<Rightarrow> Inl AttributeError | Some t \<Rightarrow> Inr (py_strip t))"

text \<open>\<^verbatim>\<open>int(count_el.text.strip())\<close>.\<close>

definition count_of :: "node \<Rightarrow> error + int" where
  "count_of count_el = (case text_strip count_el of Inl e \<Rightarrow> Inl e | Inr t \<Rightarrow> py_int t)"

text \<open>The loop of lines 108 to 114 over the zipped elements.\<close>

fun input_materials :: "(node \<times> node) list \<Rightarrow> error + material list" where
  "input_materials [] = Inr []"
| "input_materials ((name_el, count_el) # rest) =
     (case count_of count_el of
        Inl e \<Rightarrow> Inl e
      | Inr q \<Rightarrow>
          (case input_materials rest of
             Inl e \<Rightarrow> Inl e
           | Inr ms \<Rightarrow> Inr (\<lparr>mat_name = get_attr name_el ''data-name'', mat_quantity = q\<rparr> # ms)))"

text \<open>
  The body of the loop of lines 102 to 136 on one row: \<open>Inr None\<close> is \<^verbatim>\<open>continue\<close>,
  \<open>Inr (Some r)\<close> appends \<open>r\<close>.
\<close>

definition parse_row :: "node \<Rightarrow> error + parsed_recipe option" where
  "parse_row row =
     (if input_name_elements row = [] then Inr None
      else
        case input_materials (zip (input_name_elements row) (input_count_elements row)) of
          Inl e \<Rightarrow> Inl e
        | Inr ins \<Rightarrow>
            (case output_name_elements row of
               [] \<Rightarrow> Inr None
             | out_el # _ \<Rightarrow>
                 (case py_index (output_count_elements row) 0 of
                    Inl e \<Rightarrow> Inl e
                  | Inr out_count \<Rightarrow>
                      (case count_of out_count of
                         Inl e \<Rightarrow> Inl e
                       | Inr q \<Rightarrow>
                           (case td 3 row of
                              [] \<Rightarrow> Inr None
                            | time_el # _ \<Rightarrow>
                                (case text_strip time_el of
                                   Inl e \<Rightarrow> Inl e
                                 | Inr t \<Rightarrow>
                                     Inr (Some \<lparr>pr_inputs = ins,
                                       pr_outputs = [\<lparr>mat_name = get_attr out_el ''data-name'',
                                                      mat_quantity = q\<rparr>],
                                       pr_time = t\<rparr>)))))))"

fun recipes_loop :: "node list \<Rightarrow> error + parsed_recipe list" where
  "recipes_loop [] = Inr []"
| "recipes_loop (row # rows) =
     (case parse_row row of
        Inl e \<Rightarrow> Inl e
      | Inr r \<Rightarrow>
          (case recipes_loop rows of
             Inl e \<Rightarrow> Inl e
           | Inr rs \<Rightarrow> Inr ((case r of None \<Rightarrow> [] | Some x \<Rightarrow> [x]) @ rs)))"

definition get_recipes :: "node \<Rightarrow> error + parsed_recipe list" where
  "get_recipes tree = recipes_loop (recipe_rows tree)"


section \<open>Aggregation\<close>

subsection \<open>Library functions and the wiki\<close>

text \<open>
  \<^verbatim>\<open>urllib.parse.unquote\<close>, \<^verbatim>\<open>urllib.parse.urljoin\<close> (which raises on a malformed
  reference), \<^verbatim>\<open>Path(s)\<close> and \<^verbatim>\<open>Path(s).stem\<close> belong to the standard library; the module
  only calls them, so they are parameters here.
\<close>

record library =
  unquote :: "string \<Rightarrow> string"
  urljoin :: "string \<Rightarrow> string \<Rightarrow> error + string"
  Path :: "string \<Rightarrow> string"
  Path_stem :: "string \<Rightarrow> string"

definition BASE_URL :: string where
  "BASE_URL = ''https://endfield.wiki.gg''"

subsection \<open>Records of the three maps\<close>

record item =
  item_id :: string
  item_name_en :: string
  item_image :: "string option"
  item_tier :: "string option"

text \<open>\<^verbatim>\<open>general_info.get("Power", 0)\<close> is a scraped string or the integer default.\<close>

datatype power = PowerText string | PowerInt int

record facility =
  fac_id :: string
  fac_name :: string
  fac_tier :: "string option"
  powerConsumption :: power
  supportedRecipes :: "string list"
  fac_image :: "string option"

record amount_entry =
  itemId :: string
  amount :: int

record recipe =
  recipe_id :: string
  facilityId :: string
  inputs :: "amount_entry list"
  outputs :: "amount_entry list"
  craftingTime :: string

text \<open>The four accumulators of \<^verbatim>\<open>run\<close>, lines 187 to 190.\<close>

record agg =
  items :: "(string \<times> item) list"
  facilities :: "(string \<times> facility) list"
  recipes :: "(string \<times> recipe) list"
  img_jobs :: "(string \<times> string) list"

definition empty_agg :: agg where
  "empty_agg = \<lparr>items = [], facilities = [], recipes = [], img_jobs = []\<rparr>"

text \<open>What \<^verbatim>\<open>get_facility_and_recipes\<close> returns for one facility.\<close>

record facility_page =
  page_tree :: node
  facility_img_src :: "string option"
  item_img_srcs :: "string list"
  page_info :: general_info
  facility_recipes :: "parsed_recipe list"

subsection \<open>Items referenced by recipes, lines 222 to 244\<close>

text \<open>\<^verbatim>\<open>d.setdefault(k, v)\<close>: a new key goes to the end, an existing entry is kept.\<close>

definition setdefault :: "'k \<Rightarrow> 'v \<Rightarrow> ('k \<times> 'v) list \<Rightarrow> ('k \<times> 'v) list" where
  "setdefault k v d = (case map_of d k of None \<Rightarrow> d @ [(k, v)] | Some _ \<Rightarrow> d)"

definition new_item :: "string \<Rightarrow> item" where
  "new_item nm = \<lparr>item_id = replace_space nm, item_name_en = nm,
                   item_image = None, item_tier = None\<rparr>"

text \<open>
  One inner loop over \<^verbatim>\<open>r["inputs"]\<close> or \<^verbatim>\<open>r["outputs"]\<close>. \<^verbatim>\<open>inp["name"].replace\<close> raises
  when the name is \<^verbatim>\<open>None\<close>.
\<close>

fun add_materials :: "material list \<Rightarrow> (string \<times> item) list \<Rightarrow> error + (string \<times> item) list" where
  "add_materials [] its = Inr its"
| "add_materials (m # ms) its =
     (case mat_name m of
        None \<Rightarrow> Inl AttributeError
      | Some nm \<Rightarrow> add_materials ms (setdefault (replace_space nm) (new_item nm) its))"

fun add_recipe_items :: "parsed_recipe list \<Rightarrow> (string \<times> item) list \<Rightarrow> error + (string \<times> item) list" where
  "add_recipe_items [] its = Inr its"
| "add_recipe_items (r # rs) its =
     (case add_materials (pr_inputs r) its of
        Inl e \<Rightarrow> Inl e
      | Inr its1 \<Rightarrow>
          (case add_materials (pr_outputs r) its1 of
             Inl e \<Rightarrow> Inl e
           | Inr its2 \<Rightarrow> add_recipe_items rs its2))"

subsection \<open>Recipe identifiers and records, lines 246 to 267\<close>

text \<open>\<^verbatim>\<open>str(n)\<close> for a count: decimal digits, no sign, no leading zero.\<close>

definition digit_char :: "nat \<Rightarrow> char" where
  "digit_char d = ''0123456789'' ! d"

fun str_nat :: "nat \<Rightarrow> string" where
  "str_nat n = (if n < 10 then [digit_char n] else str_nat (n div 10) @ [digit_char (n mod 10)])"

declare str_nat.simps [simp del]

text \<open>The list comprehensions of lines 257 to 264.\<close>

fun amount_entries :: "material list \<Rightarrow> error + amount_entry list" where
  "amount_entries [] = Inr []"
| "amount_entries (m # ms) =
     (case mat_name m of
        None \<Rightarrow> Inl AttributeError
      | Some nm \<Rightarrow>
          (case amount_entries ms of
             Inl e \<Rightarrow> Inl e
           | Inr es \<Rightarrow> Inr (\<lparr>itemId = replace_space nm, amount = mat_quantity m\<rparr> # es)))"

text \<open>\<^verbatim>\<open>r["outputs"][0]["name"].replace(" ", "_")\<close>.\<close>

definition first_out_id :: "parsed_recipe \<Rightarrow> error + string" where
  "first_out_id r =
     (case py_index (pr_outputs r) 0 of
        Inl e \<Rightarrow> Inl e
      | Inr m \<Rightarrow> (case mat_name m of None \<Rightarrow> Inl AttributeError | Some nm \<Rightarrow> Inr (replace_space nm)))"

definition make_recipe_id :: "string \<Rightarrow> string \<Rightarrow> nat \<Rightarrow> string" where
  "make_recipe_id fid out seq = fid @ ''__'' @ out @ ''__'' @ str_nat seq"

text \<open>\<^verbatim>\<open>recipe_count.get(first_out_id, 0) + 1\<close>.\<close>

definition next_seq :: "(string \<times> nat) list \<Rightarrow> string \<Rightarrow> nat" where
  "next_seq recipe_count out = (case map_of recipe_count out of None \<Rightarrow> 0 | Some c \<Rightarrow> c) + 1"

text \<open>\<^verbatim>\<open>facilities[facility_id]["supportedRecipes"].append(recipe_id)\<close>.\<close>

definition append_supported :: "string \<Rightarrow> string \<Rightarrow> (string \<times> facility) list \<Rightarrow> error + (string \<times> facility) list" where
  "append_supported fid rid fs =
     (case map_of fs fid of
        None \<Rightarrow> Inl KeyError
      | Some f \<Rightarrow> Inr (AList.update fid (f\<lparr>supportedRecipes := supportedRecipes f @ [rid]\<rparr>) fs))"

text \<open>The loop of lines 248 to 267; \<open>recipe_count\<close> starts empty for each facility.\<close>

fun recipe_loop :: "string \<Rightarrow> parsed_recipe list \<Rightarrow> (string \<times> nat) list \<Rightarrow> agg \<Rightarrow> error + agg" where
  "recipe_loop fid [] recipe_count st = Inr st"
| "recipe_loop fid (r # rs) recipe_count st =
     (case first_out_id r of
        Inl e \<Rightarrow> Inl e
      | Inr out \<Rightarrow>
          let seq = next_seq recipe_count out;
              rid = make_recipe_id fid out seq
          in (case amount_entries (pr_inputs r) of
                Inl e \<Rightarrow> Inl e
              | Inr ins \<Rightarrow>
                  (case amount_entries (pr_outputs r) of
                     Inl e \<Rightarrow> Inl e
                   | Inr outs \<Rightarrow>
                       (case append_supported fid rid (facilities st) of
                          Inl e \<Rightarrow> Inl e
                        | Inr fs \<Rightarrow>
                            recipe_loop fid rs (AList.update out seq recipe_count)
                              (st\<lparr>recipes := AList.update rid
                                     \<lparr>recipe_id = rid, facilityId = fid, inputs = ins,
                                      outputs = outs, craftingTime = pr_time r\<rparr> (recipes st),
                                   facilities := fs\<rparr>)))))"

subsection \<open>Recipe thumbnails, lines 270 to 279\<close>

text \<open>\<^verbatim>\<open>s.split("/")[-1].split("?")[0]\<close>.\<close>

definition basename_no_query :: "string \<Rightarrow> error + string" where
  "basename_no_query s =
     (case py_last (py_split ''/'' s) of
        Inl e \<Rightarrow> Inl e
      | Inr b \<Rightarrow> py_index (py_split ''?'' b) 0)"

text \<open>\<^verbatim>\<open>items[item_id]["image"] = v\<close> under the guard \<^verbatim>\<open>item_id in items\<close>.\<close>

definition set_image_if_present :: "string \<Rightarrow> string \<Rightarrow> (string \<times> item) list \<Rightarrow> (string \<times> item) list" where
  "set_image_if_present k v its =
     (case map_of its k of
        None \<Rightarrow> its
      | Some it \<Rightarrow> AList.update k (it\<lparr>item_image := Some v\<rparr>) its)"

text \<open>The body of the loop for one \<^verbatim>\<open>src\<close>.\<close>

definition thumb_step :: "library \<Rightarrow> string \<Rightarrow> agg \<Rightarrow> error + agg" where
  "thumb_step lib src st =
     (case normalize_item_image_url src of
        Inl e \<Rightarrow> Inl e
      | Inr full_src \<Rightarrow>
          (case urljoin lib BASE_URL full_src of
             Inl e \<Rightarrow> Inl e
           | Inr full_url \<Rightarrow>
               (case basename_no_query full_src of
                  Inl e \<Rightarrow> Inl e
                | Inr fn \<Rightarrow>
                    let filename = unquote lib fn;
                        img_path = Path lib (''export/images/items/'' @ filename);
                        iid = replace_space (Path_stem lib filename)
                    in Inr (st\<lparr>img_jobs := img_jobs st @ [(full_url, img_path)],
                               items := set_image_if_present iid
                                          (''images/items/'' @ filename) (items st)\<rparr>))))"

fun thumb_loop :: "library \<Rightarrow> string list \<Rightarrow> agg \<Rightarrow> error + agg" where
  "thumb_loop lib [] st = Inr st"
| "thumb_loop lib (src # srcs) st =
     (case thumb_step lib src st of
        Inl e \<Rightarrow> Inl e
      | Inr st1 \<Rightarrow> thumb_loop lib srcs st1)"


subsection \<open>One facility, and the loop of lines 193 to 279\<close>

definition facility_step :: "library \<Rightarrow> string \<times> facility_page \<Rightarrow> agg \<Rightarrow> error + agg" where
  "facility_step lib np st =
     (let facility_name = fst np;
          page = snd np;
          fid = replace_space facility_name;
          power = (case map_of (page_info page) ''Power'' of
                     None \<Rightarrow> PowerInt 0 | Some v \<Rightarrow> PowerText v);
          tier = map_of (page_info page) ''Tier'';
          has_img = truthy (facility_img_src page);
          fac = \<lparr>fac_id = fid, fac_name = facility_name, fac_tier = tier,
                 powerConsumption = power, supportedRecipes = [],
                 fac_image = (if has_img then Some (''images/facilities/'' @ fid @ ''.png'')
                                   else None)\<rparr>
      in case (if has_img
               then (case urljoin lib BASE_URL (case facility_img_src page of None \<Rightarrow> [] | Some u \<Rightarrow> u) of
                       Inl e \<Rightarrow> Inl e
                     | Inr full_url \<Rightarrow>
                         Inr (img_jobs st @
                              [(full_url, Path lib (''export/images/facilities/'' @ fid @ ''.png''))]))
               else Inr (img_jobs st)) of
           Inl e \<Rightarrow> Inl e
         | Inr jobs \<Rightarrow>
             (case add_recipe_items (facility_recipes page) (items st) of
                Inl e \<Rightarrow> Inl e
              | Inr its \<Rightarrow>
                  (case recipe_loop fid (facility_recipes page) []
                          (st\<lparr>img_jobs := jobs,
                             facilities := AList.update fid fac (facilities st),
                             items := its\<rparr>) of
                     Inl e \<Rightarrow> Inl e
                   | Inr st1 \<Rightarrow> thumb_loop lib (item_img_srcs page) st1)))"

text \<open>The loop over \<^verbatim>\<open>zip(facility_names, results)\<close>.\<close>

fun facility_loop :: "library \<Rightarrow> (string \<times> facility_page) list \<Rightarrow> agg \<Rightarrow> error + agg" where
  "facility_loop lib [] st = Inr st"
| "facility_loop lib (np # nps) st =
     (case facility_step lib np st of
        Inl e \<Rightarrow> Inl e
      | Inr st1 \<Rightarrow> facility_loop lib nps st1)"

definition aggregate :: "library \<Rightarrow> string list \<Rightarrow> facility_page list \<Rightarrow> error + agg" where
  "aggregate lib facility_names results = facility_loop lib (zip facility_names results) empty_agg"

subsection \<open>Fetching pages\<close>

text \<open>
  The wiki, as seen through \<^verbatim>\<open>client.get\<close>, \<^verbatim>\<open>resp.json()\<close> and \<^verbatim>\<open>etree.HTML\<close>: the
  page parameter of the request is mapped to a parsed tree, or the request or the decoding
  raises. \<^verbatim>\<open>asyncio.gather\<close> returns the results in the order of its arguments and raises if
  one of them raises.
\<close>

fun gather :: "('a \<Rightarrow> error + 'b) \<Rightarrow> 'a list \<Rightarrow> error + 'b list" where
  "gather f [] = Inr []"
| "gather f (x # xs) =
     (case f x of
        Inl e \<Rightarrow> Inl e
      | Inr y \<Rightarrow> (case gather f xs of Inl e \<Rightarrow> Inl e | Inr ys \<Rightarrow> Inr (y # ys)))"

definition get_facility_and_recipes :: "(string \<Rightarrow> error + node) \<Rightarrow> string \<Rightarrow> error + facility_page" where
  "get_facility_and_recipes wiki facility_name =
     (case wiki (replace_space facility_name) of
        Inl e \<Rightarrow> Inl e
      | Inr tree \<Rightarrow>
          (case get_general_info tree of
             Inl e \<Rightarrow> Inl e
           | Inr info \<Rightarrow>
               (case get_recipes tree of
                  Inl e \<Rightarrow> Inl e
                | Inr rs \<Rightarrow>
                    Inr \<lparr>page_tree = tree, facility_img_src = extract_main_image tree,
                         item_img_srcs = extract_item_images tree, page_info = info,
                         facility_recipes = rs\<rparr>)))"

definition get_item_info_page :: "(string \<Rightarrow> error + node) \<Rightarrow> string \<Rightarrow> error + (string option \<times> general_info)" where
  "get_item_info_page wiki item_name =
     (case wiki (replace_space item_name) of
        Inl e \<Rightarrow> Inl e
      | Inr tree \<Rightarrow>
          (case get_general_info tree of
             Inl e \<Rightarrow> Inl e
           | Inr info \<Rightarrow> Inr (extract_main_image tree, info)))"

subsection \<open>Item details, lines 282 to 298\<close>

text \<open>The body of the loop of lines 287 to 298 on one item and its page result.\<close>

definition detail_step :: "library \<Rightarrow> item \<Rightarrow> string option \<times> general_info \<Rightarrow> (string \<times> string) list \<Rightarrow> error + item \<times> (string \<times> string) list" where
  "detail_step lib it res jobs =
     (let image_src = fst res;
          tier = map_of (snd res) ''Tier'';
          it1 = (if truthy tier then it\<lparr>item_tier := tier\<rparr> else it)
      in case image_src of
           None \<Rightarrow> Inr (it1, jobs)
         | Some u \<Rightarrow>
             if u = [] then Inr (it1, jobs)
             else (case urljoin lib BASE_URL u of
                     Inl e \<Rightarrow> Inl e
                   | Inr full_url \<Rightarrow>
                       (case basename_no_query u of
                          Inl e \<Rightarrow> Inl e
                        | Inr fn \<Rightarrow>
                            let filename = unquote lib fn
                            in Inr (it1\<lparr>item_image := Some (''images/items/'' @ filename)\<rparr>,
                                    jobs @ [(full_url,
                                             Path lib (''export/images/items/'' @ filename))]))))"

text \<open>
  The loop over \<^verbatim>\<open>zip(items.values(), results)\<close>: each item dict is changed in place, so
  the keys of \<open>items\<close> and their order stay.
\<close>

fun detail_loop :: "library \<Rightarrow> (string \<times> item) list \<Rightarrow> (string option \<times> general_info) list \<Rightarrow> (string \<times> string) list \<Rightarrow> error + (string \<times> item) list \<times> (string \<times> string) list" where
  "detail_loop lib [] results jobs = Inr ([], jobs)"
| "detail_loop lib (kv # kvs) [] jobs = Inr (kv # kvs, jobs)"
| "detail_loop lib (kv # kvs) (res # results) jobs =
     (case detail_step lib (snd kv) res jobs of
        Inl e \<Rightarrow> Inl e
      | Inr (it, jobs1) \<Rightarrow>
          (case detail_loop lib kvs results jobs1 of
             Inl e \<Rightarrow> Inl e
           | Inr (kvs1, jobs2) \<Rightarrow> Inr ((fst kv, it) # kvs1, jobs2)))"

text \<open>Phase 3: the names are gathered from the items, the pages fetched, the results applied.\<close>

definition item_details :: "library \<Rightarrow> (string \<Rightarrow> error + node) \<Rightarrow> agg \<Rightarrow> error + agg" where
  "item_details lib wiki st =
     (let item_names = map (\<lambda>kv. item_name_en (snd kv)) (items st)
      in case gather (get_item_info_page wiki) item_names of
           Inl e \<Rightarrow> Inl e
         | Inr results \<Rightarrow>
             (case detail_loop lib (items st) results (img_jobs st) of
                Inl e \<Rightarrow> Inl e
              | Inr (its, jobs) \<Rightarrow> Inr (st\<lparr>items := its, img_jobs := jobs\<rparr>)))"

text \<open>Phases 1 to 3 of \<^verbatim>\<open>run\<close>, from the facility names on.\<close>

definition run_aggregation :: "library \<Rightarrow> (string \<Rightarrow> error + node) \<Rightarrow> string list \<Rightarrow> error + agg" where
  "run_aggregation lib wiki facility_names =
     (case gather (get_facility_and_recipes wiki) facility_names of
        Inl e \<Rightarrow> Inl e
      | Inr results \<Rightarrow>
          (case aggregate lib facility_names results of
             Inl e \<Rightarrow> Inl e
           | Inr st \<Rightarrow> item_details lib wiki st))"

section \<open>Image download\<close>

text \<open>
  The world \<^verbatim>\<open>download_image\<close> acts on: the files by path, and the requests sent so far.
  \<open>http\<close> answers a \<^verbatim>\<open>GET\<close> with the body or raises; \<open>writable\<close> tells whether
  \<^verbatim>\<open>write_bytes\<close> succeeds at a path. An exception leaves the world as it was when raised,
  so the result is the world together with the exception, if any.
\<close>

record world =
  files :: "string \<rightharpoonup> string"
  requests :: "string list"

definition download_image :: "(string \<Rightarrow> error + string) \<Rightarrow> (string \<Rightarrow> bool) \<Rightarrow> string \<Rightarrow> string \<Rightarrow> world \<Rightarrow> world \<times> error option" where
  "download_image http writable url save_path w =
     (if files w save_path \<noteq> None then (w, None)
      else
        let w1 = w\<lparr>requests := requests w @ [url]\<rparr>
        in case http url of
             Inl e \<Rightarrow> (w1, Some e)
           | Inr content \<Rightarrow>
               if writable save_path
               then (w1\<lparr>files := (files w1)(save_path \<mapsto> content)\<rparr>, None)
               else (w1, Some OSError))"

text \<open>Two statements in sequence: the second runs only if the first did not raise.\<close>

definition and_then :: "(world \<Rightarrow> world \<times> error option) \<Rightarrow> (world \<Rightarrow> world \<times> error option) \<Rightarrow> world \<Rightarrow> world \<times> error option" where
  "and_then f g w = (case f w of (w1, None) \<Rightarrow> g w1 | (w1, Some e) \<Rightarrow> (w1, Some e))"


section \<open>Recipe identifiers, stated apart from the loop\<close>

text \<open>
  The identifiers the loop of lines 248 to 253 hands out, read off the loop: \<open>outs\<close> are the
  first-output item ids of the facility's recipes in order, \<open>recipe_count\<close> the counter dict.
\<close>

fun assigned_ids :: "string \<Rightarrow> string list \<Rightarrow> (string \<times> nat) list \<Rightarrow> string list" where
  "assigned_ids fid [] recipe_count = []"
| "assigned_ids fid (out # outs) recipe_count =
     make_recipe_id fid out (next_seq recipe_count out) #
     assigned_ids fid outs (AList.update out (next_seq recipe_count out) recipe_count)"

text \<open>
  The same identifiers in the words of the specification: the sequence number of a recipe is
  one more than the number of earlier recipes of the facility with the same first output.
\<close>

definition spec_recipe_ids :: "string \<Rightarrow> string list \<Rightarrow> string list" where
  "spec_recipe_ids fid outs =
     map (\<lambda>i. make_recipe_id fid (outs ! i) (Suc (count_list (take i outs) (outs ! i))))
         [0..<length outs]"

text \<open>The identifiers one facility of the loop over \<^verbatim>\<open>zip(facility_names, results)\<close> generates.\<close>

definition facility_recipe_ids :: "string \<times> facility_page \<Rightarrow> string list" where
  "facility_recipe_ids np =
     (case gather first_out_id (facility_recipes (snd np)) of
        Inl e \<Rightarrow> []
      | Inr outs \<Rightarrow> spec_recipe_ids (replace_space (fst np)) outs)"

section \<open>General information, stated apart from the loop\<close>

text \<open>
  The entry of one row in the words of the specification: the label is the trimmed text of the
  label element, the value the trimmed, space-joined descendant text of the value element, and
  a row that misses one of the two, or where one of them is empty, has no entry.
\<close>

definition spec_row_entry :: "node \<Rightarrow> (string \<times> string) option" where
  "spec_row_entry item =
     (case (label_el item, value_elements item) of
        (l # _, v # _) \<Rightarrow>
          (case el_text l of
             None \<Rightarrow> None
           | Some t \<Rightarrow>
               if py_strip t \<noteq> [] \<and> py_strip (py_join '' '' (text_nodes v)) \<noteq> []
               then Some (py_strip t, py_strip (py_join '' '' (text_nodes v)))
               else None)
      | _ \<Rightarrow> None)"

definition spec_general_info :: "node list \<Rightarrow> (string \<times> string) list" where
  "spec_general_info rows = List.map_filter spec_row_entry rows"

section \<open>Concrete inputs used below\<close>

text \<open>A library instance for running examples: no decoding, and a stem up to the first dot.\<close>

definition example_lib :: library where
  "example_lib = \<lparr>unquote = (\<lambda>s. s), urljoin = (\<lambda>b u. Inr (b @ u)), Path = (\<lambda>s. s),
                   Path_stem = takeWhile (\<lambda>c. c \<noteq> CHR ''.'')\<rparr>"

definition ore_item :: item where
  "ore_item = \<lparr>item_id = ''Iron_Ore'', item_name_en = ''Iron Ore'', item_image = None,
                item_tier = None\<rparr>"

definition ore_agg :: agg where
  "ore_agg = \<lparr>items = [(''Iron_Ore'', ore_item)], facilities = [], recipes = [], img_jobs = []\<rparr>"

text \<open>A facility with two recipes for the same first output, and one thumbnail.\<close>

definition smelter_recipes :: "parsed_recipe list" where
  "smelter_recipes =
     [\<lparr>pr_inputs = [\<lparr>mat_name = Some ''Iron Ore'', mat_quantity = 2\<rparr>],
       pr_outputs = [\<lparr>mat_name = Some ''Iron Ingot'', mat_quantity = 1\<rparr>],
       pr_time = ''5s''\<rparr>,
      \<lparr>pr_inputs = [\<lparr>mat_name = Some ''Scrap'', mat_quantity = 3\<rparr>],
       pr_outputs = [\<lparr>mat_name = Some ''Iron Ingot'', mat_quantity = 1\<rparr>],
       pr_time = ''8s''\<rparr>]"

definition smelter_page :: facility_page where
  "smelter_page =
     \<lparr>page_tree = Element ''html'' [] [], facility_img_src = None,
      item_img_srcs = [''/images/thumb/Iron_Ore.png/64px-Iron_Ore.png''],
      page_info = [(''Tier'', ''2'')], facility_recipes = smelter_recipes\<rparr>"

definition smelter_items :: "(string \<times> item) list" where
  "smelter_items =
     [(''Iron_Ore'', \<lparr>item_id = ''Iron_Ore'', item_name_en = ''Iron Ore'',
                       item_image = None, item_tier = None\<rparr>),
      (''Iron_Ingot'', \<lparr>item_id = ''Iron_Ingot'', item_name_en = ''Iron Ingot'',
                         item_image = None, item_tier = None\<rparr>),
      (''Scrap'', \<lparr>item_id = ''Scrap'', item_name_en = ''Scrap'',
                    item_image = None, item_tier = None\<rparr>)]"

definition smelter_recipe_2 :: recipe where
  "smelter_recipe_2 =
     \<lparr>recipe_id = ''Smelter__Iron_Ingot__2'', facilityId = ''Smelter'',
      inputs = [\<lparr>itemId = ''Scrap'', amount = 3\<rparr>],
      outputs = [\<lparr>itemId = ''Iron_Ingot'', amount = 1\<rparr>], craftingTime = ''8s''\<rparr>"

definition smelter_agg :: agg where
  "smelter_agg =
     \<lparr>items =
        [(''Iron_Ore'', \<lparr>item_id = ''Iron_Ore'', item_name_en = ''Iron Ore'',
                          item_image = Some ''images/items/Iron_Ore.png'', item_tier = None\<rparr>),
         (''Iron_Ingot'', \<lparr>item_id = ''Iron_Ingot'', item_name_en = ''Iron Ingot'',
                            item_image = None, item_tier = None\<rparr>),
         (''Scrap'', \<lparr>item_id = ''Scrap'', item_name_en = ''Scrap'',
                       item_image = None, item_tier = None\<rparr>)],
      facilities =
        [(''Smelter'', \<lparr>fac_id = ''Smelter'', fac_name = ''Smelter'', fac_tier = Some ''2'',
                         powerConsumption = PowerInt 0,
                         supportedRecipes = [''Smelter__Iron_Ingot__1'', ''Smelter__Iron_Ingot__2''],
                         fac_image = None\<rparr>)],
      recipes =
        [(''Smelter__Iron_Ingot__1'',
          \<lparr>recipe_id = ''Smelter__Iron_Ingot__1'', facilityId = ''Smelter'',
           inputs = [\<lparr>itemId = ''Iron_Ore'', amount = 2\<rparr>],
           outputs = [\<lparr>itemId = ''Iron_Ingot'', amount = 1\<rparr>], craftingTime = ''5s''\<rparr>),
         (''Smelter__Iron_Ingot__2'', smelter_recipe_2)],
      img_jobs = [(''https://endfield.wiki.gg/images/Iron_Ore.png'',
                   ''export/images/items/Iron_Ore.png'')]\<rparr>"

text \<open>The state of that facility before and after its recipe loop.\<close>

definition smelter_before_recipes :: agg where
  "smelter_before_recipes =
     \<lparr>items = smelter_items,
      facilities =
        [(''Smelter'', \<lparr>fac_id = ''Smelter'', fac_name = ''Smelter'', fac_tier = Some ''2'',
                         powerConsumption = PowerInt 0, supportedRecipes = [],
                         fac_image = None\<rparr>)],
      recipes = [], img_jobs = []\<rparr>"

definition smelter_after_recipes :: agg where
  "smelter_after_recipes = smelter_agg\<lparr>items := smelter_items, img_jobs := []\<rparr>"

text \<open>
  Two facility names with the same facility id: \<^verbatim>\<open>"Refining Unit"\<close> and \<^verbatim>\<open>"Refining_Unit"\<close>,
  one recipe each.
\<close>

definition unit_page_a :: facility_page where
  "unit_page_a =
     \<lparr>page_tree = Element ''html'' [] [], facility_img_src = None, item_img_srcs = [],
      page_info = [],
      facility_recipes =
        [\<lparr>pr_inputs = [\<lparr>mat_name = Some ''Ore'', mat_quantity = 2\<rparr>],
          pr_outputs = [\<lparr>mat_name = Some ''Ingot'', mat_quantity = 1\<rparr>],
          pr_time = ''5s''\<rparr>]\<rparr>"

definition unit_page_b :: facility_page where
  "unit_page_b =
     \<lparr>page_tree = Element ''html'' [] [], facility_img_src = None, item_img_srcs = [],
      page_info = [],
      facility_recipes =
        [\<lparr>pr_inputs = [\<lparr>mat_name = Some ''Ore'', mat_quantity = 4\<rparr>],
          pr_outputs = [\<lparr>mat_name = Some ''Plate'', mat_quantity = 1\<rparr>],
          pr_time = ''9s''\<rparr>]\<rparr>"

definition unit_fac :: facility where
  "unit_fac = \<lparr>fac_id = ''Refining_Unit'', fac_name = ''Refining_Unit'', fac_tier = None,
               powerConsumption = PowerInt 0, supportedRecipes = [''Refining_Unit__Plate__1''],
               fac_image = None\<rparr>"

definition unit_recipe :: recipe where
  "unit_recipe = \<lparr>recipe_id = ''Refining_Unit__Ingot__1'', facilityId = ''Refining_Unit'',
                  inputs = [\<lparr>itemId = ''Ore'', amount = 2\<rparr>],
                  outputs = [\<lparr>itemId = ''Ingot'', amount = 1\<rparr>], craftingTime = ''5s''\<rparr>"

definition unit_agg :: agg where
  "unit_agg =
     \<lparr>items =
        [(''Ore'', \<lparr>item_id = ''Ore'', item_name_en = ''Ore'', item_image = None,
                     item_tier = None\<rparr>),
         (''Ingot'', \<lparr>item_id = ''Ingot'', item_name_en = ''Ingot'', item_image = None,
                       item_tier = None\<rparr>),
         (''Plate'', \<lparr>item_id = ''Plate'', item_name_en = ''Plate'', item_image = None,
                       item_tier = None\<rparr>)],
      facilities = [(''Refining_Unit'', unit_fac)],
      recipes =
        [(''Refining_Unit__Ingot__1'', unit_recipe),
         (''Refining_Unit__Plate__1'',
          \<lparr>recipe_id = ''Refining_Unit__Plate__1'', facilityId = ''Refining_Unit'',
           inputs = [\<lparr>itemId = ''Ore'', amount = 4\<rparr>],
           outputs = [\<lparr>itemId = ''Plate'', amount = 1\<rparr>], craftingTime = ''9s''\<rparr>)],
      img_jobs = []\<rparr>"

text \<open>
  An item page with a main image and a general information row whose label text is
  \<^verbatim>\<open>" Tier "\<close> and whose value spans have the texts \<^verbatim>\<open>" 2"\<close> and \<^verbatim>\<open>" "\<close>; a wiki that
  serves it as the page of \<^verbatim>\<open>Iron_Ore\<close>.
\<close>

definition tier_row :: node where
  "tier_row =
     Element ''div'' [(''class'', ''pi-item pi-data pi-item-spacing'')]
       [Element ''h3'' [(''class'', ''pi-data-label pi-secondary-font'')] [Text '' Tier ''],
        Element ''div'' [(''class'', ''pi-data-value pi-font'')]
          [Element ''span'' [] [Text '' 2''], Element ''span'' [] [Text '' '']]]"

definition ore_page :: node where
  "ore_page =
     Element ''html'' []
       [Element ''body'' []
          [Element ''figure'' [(''class'', ''pi-item pi-image'')]
             [Element ''a'' [] [Element ''img'' [(''src'', ''/images/Iron_Ore_icon.png?5a1'')] []]],
           Element ''section'' []
             [Element ''h2'' [] [Text ''General Information''], tier_row]]]"

definition example_wiki :: "string \<Rightarrow> error + node" where
  "example_wiki page = (if page = ''Iron_Ore'' then Inr ore_page else Inl TransportError)"

definition ore_thumb_agg :: agg where
  "ore_thumb_agg =
     ore_agg\<lparr>items := [(''Iron_Ore'', ore_item\<lparr>item_image := Some ''images/items/Iron_Ore.png''\<rparr>)]\<rparr>"

definition ore_detail_agg :: agg where
  "ore_detail_agg =
     ore_agg\<lparr>items := [(''Iron_Ore'', ore_item\<lparr>item_image := Some ''images/items/Iron_Ore_icon.png'',
                                                 item_tier := Some ''2''\<rparr>)],
             img_jobs := [(''https://endfield.wiki.gg/images/Iron_Ore_icon.png?5a1'',
                           ''export/images/items/Iron_Ore_icon.png'')]\<rparr>"

text \<open>A page whose label element starts with a child element, so that its \<^verbatim>\<open>.text\<close> is \<^verbatim>\<open>None\<close>.\<close>

definition bold_label_page :: node where
  "bold_label_page =
     Element ''html'' []
       [Element ''body'' []
          [Element ''section'' []
             [Element ''h2'' [] [Text ''General Information''],
              Element ''div'' [(''class'', ''pi-item pi-data'')]
                [Element ''h3'' [(''class'', ''pi-data-label'')] [Element ''b'' [] [Text ''Tier'']],
                 Element ''div'' [(''class'', ''pi-data-value'')] [Text ''2'']]]]]"

text \<open>
  Recipe tables. A cell of item tooltips with their counts, a row of three cells, and a
  facility page with a header row and one data row.
\<close>

definition tooltip :: "string \<Rightarrow> node" where
  "tooltip nm = Element ''div'' [(''class'', ''item-tooltip''), (''data-name'', nm)] []"

definition item_count :: "node list \<Rightarrow> node" where
  "item_count cs = Element ''div'' [(''class'', ''item-count'')] cs"

definition table_page :: "node \<Rightarrow> node" where
  "table_page row =
     Element ''html'' []
       [Element ''body'' []
          [Element ''table'' [(''class'', ''mrfz-wtable'')]
             [Element ''tbody'' []
                [Element ''tr'' [] [Element ''th'' [] [Text ''Input'']], row]]]]"

text \<open>The row of the end-to-end scenario: 2 Ore give 1 Ingot in \<^verbatim>\<open>5s\<close>.\<close>

definition ingot_row :: node where
  "ingot_row =
     Element ''tr'' []
       [Element ''td'' [] [tooltip ''Ore'', item_count [Text ''2'']],
        Element ''td'' [] [tooltip ''Ingot'', item_count [Text ''1'']],
        Element ''td'' [] [Text ''5s'']]"

definition ingot_recipe :: parsed_recipe where
  "ingot_recipe =
     \<lparr>pr_inputs = [\<lparr>mat_name = Some ''Ore'', mat_quantity = 2\<rparr>],
      pr_outputs = [\<lparr>mat_name = Some ''Ingot'', mat_quantity = 1\<rparr>], pr_time = ''5s''\<rparr>"

text \<open>A row with two input tooltips and one count.\<close>

definition short_count_row :: node where
  "short_count_row =
     Element ''tr'' []
       [Element ''td'' [] [tooltip ''Ore'', item_count [Text ''2''], tooltip ''Coal''],
        Element ''td'' [] [tooltip ''Ingot'', item_count [Text ''1'']],
        Element ''td'' [] [Text ''5s'']]"

text \<open>A row whose input count has no text and whose output cell is empty.\<close>

definition no_output_row :: node where
  "no_output_row =
     Element ''tr'' []
       [Element ''td'' [] [tooltip ''Ore'', item_count []],
        Element ''td'' [] [],
        Element ''td'' [] [Text ''5s'']]"

text \<open>A row whose input count has no text, with an output.\<close>

definition no_count_text_row :: node where
  "no_count_text_row =
     Element ''tr'' []
       [Element ''td'' [] [tooltip ''Ore'', item_count []],
        Element ''td'' [] [tooltip ''Ingot'', item_count [Text ''1'']],
        Element ''td'' [] [Text ''5s'']]"

text \<open>The result of a run on one facility whose page is the scenario's.\<close>

definition ingot_run :: agg where
  "ingot_run =
     \<lparr>items =
        [(''Ore'', \<lparr>item_id = ''Ore'', item_name_en = ''Ore'', item_image = None,
                     item_tier = None\<rparr>),
         (''Ingot'', \<lparr>item_id = ''Ingot'', item_name_en = ''Ingot'', item_image = None,
                       item_tier = None\<rparr>)],
      facilities =
        [(''Smelter'', \<lparr>fac_id = ''Smelter'', fac_name = ''Smelter'', fac_tier = None,
                         powerConsumption = PowerInt 0,
                         supportedRecipes = [''Smelter__Ingot__1''], fac_image = None\<rparr>)],
      recipes =
        [(''Smelter__Ingot__1'',
          \<lparr>recipe_id = ''Smelter__Ingot__1'', facilityId = ''Smelter'',
           inputs = [\<lparr>itemId = ''Ore'', amount = 2\<rparr>],
           outputs = [\<lparr>itemId = ''Ingot'', amount = 1\<rparr>], craftingTime = ''5s''\<rparr>)],
      img_jobs = []\<rparr>"

text \<open>A row with two empty cells.\<close>

definition empty_row :: node where
  "empty_row = Element ''tr'' [] [Element ''td'' [] [], Element ''td'' [] []]"

section \<open>Properties of the image helpers\<close>

lemma normalize_without_thumb:
  "\<not> py_in ''/thumb/'' src \<Longrightarrow> normalize_item_image_url src = Inr src"
  by (simp add: normalize_item_image_url_def)

lemma normalize_spec_example:
  "normalize_item_image_url ''https://endfield.wiki.gg/images/thumb/Iron_Ore.png/64px-Iron_Ore.png?foo=bar''
     = Inr ''/images/Iron_Ore.png?foo=bar''"
  by (simp add: normalize_item_image_url_def py_index_def)

subsection \<open>The normalisation never raises\<close>

lemma py_split_nonempty: "py_split sep s \<noteq> []"
  by (induction sep s rule: py_split.induct) (auto split: list.splits)

lemma py_split_occurrence:
  "sep \<noteq> [] \<Longrightarrow> py_in sep s \<Longrightarrow> 2 \<le> length (py_split sep s)"
proof (induction sep s rule: py_split.induct)
  case (1 sep)
  then show ?case by simp
next
  case (2 sep c cs)
  show ?case
  proof (cases "prefix sep (c # cs)")
    case True
    with "2.prems" py_split_nonempty[of sep "drop (length sep) (c # cs)"] show ?thesis
      by (cases "py_split sep (drop (length sep) (c # cs))") simp_all
  next
    case False
    with "2.prems" have "py_in sep cs" by simp
    with "2.IH"(2) False "2.prems"(1) have "2 \<le> length (py_split sep cs)" by simp
    with False show ?thesis
      by (cases "py_split sep cs") simp_all
  qed
qed

lemma py_split_without:
  "\<not> py_in sep s \<Longrightarrow> py_split sep s = [s]"
  by (induction sep s rule: py_split.induct) (auto split: list.splits)

lemma normalize_with_thumb:
  assumes "py_in ''/thumb/'' src"
  shows "normalize_item_image_url src =
           Inr (''/images/'' @ hd (py_split ''/'' (py_split ''/thumb/'' src ! 1)) @
                (if py_in ''?'' src then ''?'' @ py_split ''?'' src ! 1 else []))"
proof -
  from py_split_occurrence[OF _ assms] have a: "1 < length (py_split ''/thumb/'' src)"
    by simp
  have b: "0 < length (py_split ''/'' (py_split ''/thumb/'' src ! 1))"
    using py_split_nonempty by simp
  have c: "1 < length (py_split ''?'' src)" if "py_in ''?'' src"
    using py_split_occurrence[OF _ that] by simp
  from assms a b c show ?thesis
    by (simp add: normalize_item_image_url_def py_index_def hd_conv_nth py_split_nonempty)
qed

lemma normalize_total: "\<exists>r. normalize_item_image_url src = Inr r"
  using normalize_with_thumb[of src] normalize_without_thumb[of src]
  by (cases "py_in ''/thumb/'' src") simp_all

lemma basename_no_query_total: "\<exists>r. basename_no_query s = Inr r"
  by (simp add: basename_no_query_def py_last_def py_index_def py_split_nonempty)


lemma py_split_char:
  "py_split [c] s =
     takeWhile (\<lambda>x. x \<noteq> c) s #
     (if c \<in> set s then py_split [c] (tl (dropWhile (\<lambda>x. x \<noteq> c) s)) else [])"
proof (induction s)
  case Nil
  then show ?case by simp
next
  case (Cons x s)
  show ?case
  proof (cases "x = c")
    case True
    then show ?thesis by simp
  next
    case False
    with Cons show ?thesis
      by (cases "py_split [c] s") auto
  qed
qed

lemma py_in_char: "py_in [c] s \<longleftrightarrow> c \<in> set s"
  by (induction s) auto

text \<open>
  The query part the function keeps: the text between the first and the second question
  mark of the input.
\<close>

lemma normalize_query_part:
  assumes "py_in ''?'' src"
  shows "py_split ''?'' src ! 1 =
           takeWhile (\<lambda>x. x \<noteq> CHR ''?'') (tl (dropWhile (\<lambda>x. x \<noteq> CHR ''?'') src))"
proof -
  from assms have m: "CHR ''?'' \<in> set src"
    by (simp add: py_in_char)
  have "py_split ''?'' src ! 1 =
          hd (py_split ''?'' (tl (dropWhile (\<lambda>x. x \<noteq> CHR ''?'') src)))"
    using m py_split_nonempty[of "''?''" "tl (dropWhile (\<lambda>x. x \<noteq> CHR ''?'') src)"]
    by (subst py_split_char) (simp add: hd_conv_nth)
  also have "\<dots> = takeWhile (\<lambda>x. x \<noteq> CHR ''?'') (tl (dropWhile (\<lambda>x. x \<noteq> CHR ''?'') src))"
    by (subst py_split_char) simp
  finally show ?thesis .
qed

text \<open>The file name part: the text after the first separator up to the next slash.\<close>

lemma normalize_filename_part:
  "hd (py_split ''/'' rest) = takeWhile (\<lambda>x. x \<noteq> CHR ''/'') rest"
  by (subst py_split_char) simp

subsection \<open>The query string\<close>

text \<open>
  C1. The claim is that a URL containing \<^verbatim>\<open>/thumb/\<close> is rebuilt from the file name and the
  original query string. On a URL whose query string itself contains a question mark, the
  function keeps only the part of the query before that second question mark.
\<close>

theorem normalize_truncates_query:
  "normalize_item_image_url ''/images/thumb/Iron_Ore.png/64px-Iron_Ore.png?a=1?b=2''
     = Inr ''/images/Iron_Ore.png?a=1''"
  by (simp add: normalize_item_image_url_def py_index_def)

section \<open>Properties of the download\<close>

text \<open>
  C7. When the destination exists, \<^verbatim>\<open>download_image\<close> sends no request and leaves the world
  as it is. When it does not exist, the first call sends one request, and two calls in sequence
  send exactly that one: after a first call that returned, the second changes nothing.
\<close>

theorem download_image_once:
  "(files w save_path \<noteq> None \<longrightarrow>
      download_image http writable url save_path w = (w, None)) \<and>
   (files w save_path = None \<longrightarrow>
      requests (fst (download_image http writable url save_path w)) = requests w @ [url] \<and>
      requests (fst (and_then (download_image http writable url save_path)
                              (download_image http writable url save_path) w))
        = requests w @ [url] \<and>
      (\<forall>w1. download_image http writable url save_path w = (w1, None) \<longrightarrow>
            download_image http writable url save_path w1 = (w1, None)))"
  by (auto simp: download_image_def and_then_def Let_def
           split: sum.splits prod.splits option.splits if_splits)

theorem download_image_once_witness:
  "files \<lparr>files = Map.empty, requests = []\<rparr> ''a.png'' = None \<and>
   download_image (\<lambda>u. Inr ''png'') (\<lambda>p. True) ''u'' ''a.png'' \<lparr>files = Map.empty, requests = []\<rparr>
     = (\<lparr>files = [''a.png'' \<mapsto> ''png''], requests = [''u'']\<rparr>, None) \<and>
   requests (fst (and_then (download_image (\<lambda>u. Inr ''png'') (\<lambda>p. True) ''u'' ''a.png'')
                           (download_image (\<lambda>u. Inr ''png'') (\<lambda>p. True) ''u'' ''a.png'')
                           \<lparr>files = Map.empty, requests = []\<rparr>)) = [''u''] \<and>
   files \<lparr>files = [''a.png'' \<mapsto> ''png''], requests = [''u'']\<rparr> ''a.png'' \<noteq> None \<and>
   download_image (\<lambda>u. Inr ''png'') (\<lambda>p. True) ''u'' ''a.png''
       \<lparr>files = [''a.png'' \<mapsto> ''png''], requests = [''u'']\<rparr>
     = (\<lparr>files = [''a.png'' \<mapsto> ''png''], requests = [''u'']\<rparr>, None)"
proof -
  let ?w0 = "\<lparr>files = Map.empty, requests = []\<rparr> :: world"
  let ?w1 = "\<lparr>files = [''a.png'' \<mapsto> ''png''], requests = [''u'']\<rparr> :: world"
  have absent: "files ?w0 ''a.png'' = None"
    by simp
  have present: "files ?w1 ''a.png'' \<noteq> None"
    by simp
  have first: "download_image (\<lambda>u. Inr ''png'') (\<lambda>p. True) ''u'' ''a.png'' ?w0 = (?w1, None)"
    by (simp add: download_image_def)
  from download_image_once [of ?w0 "''a.png''" "\<lambda>u. Inr ''png''" "\<lambda>p. True" "''u''"] absent
  have twice: "requests (fst (and_then (download_image (\<lambda>u. Inr ''png'') (\<lambda>p. True) ''u'' ''a.png'')
                           (download_image (\<lambda>u. Inr ''png'') (\<lambda>p. True) ''u'' ''a.png'') ?w0))
               = requests ?w0 @ [''u'']"
    by blast
  from download_image_once [of ?w1 "''a.png''" "\<lambda>u. Inr ''png''" "\<lambda>p. True" "''u''"] present
  have again: "download_image (\<lambda>u. Inr ''png'') (\<lambda>p. True) ''u'' ''a.png'' ?w1 = (?w1, None)"
    by blast
  from absent first twice present again show ?thesis
    by simp
qed

section \<open>Properties of the thumbnail pass\<close>

lemma update_keys_same:
  "map_of al k = Some v \<Longrightarrow> map fst (AList.update k v' al) = map fst al"
  by (induction al) (auto split: if_splits)

lemma keys_lookup:
  "map fst xs = map fst ys \<Longrightarrow> map_of xs k = Some v \<Longrightarrow> \<exists>v'. map_of ys k = Some v'"
  by (metis domIff dom_map_of_conv_image_fst list.set_map option.exhaust_sel option.simps(3))

lemma set_image_keys: "map fst (set_image_if_present k v its) = map fst its"
  by (simp add: set_image_if_present_def update_keys_same split: option.splits)

lemma set_image_fields:
  assumes "map_of its k = Some it" "map_of (set_image_if_present j v its) k = Some it'"
  shows "item_id it' = item_id it \<and> item_name_en it' = item_name_en it \<and>
         item_tier it' = item_tier it"
  using assms
  by (auto simp: set_image_if_present_def update_conv' split: option.splits if_splits)

lemma thumb_step_frame:
  assumes "thumb_step lib src st = Inr st'"
  shows "\<exists>full_src fn. normalize_item_image_url src = Inr full_src \<and>
           basename_no_query full_src = Inr fn \<and>
           items st' = set_image_if_present (replace_space (Path_stem lib (unquote lib fn)))
                         (''images/items/'' @ unquote lib fn) (items st) \<and>
           recipes st' = recipes st \<and> facilities st' = facilities st"
  using assms by (auto simp: thumb_step_def Let_def split: sum.splits)

lemma thumb_step_keys:
  assumes "thumb_step lib src st = Inr st'"
  shows "map fst (items st') = map fst (items st)"
  using thumb_step_frame[OF assms] by (auto simp: set_image_keys)

lemma thumb_step_fields:
  assumes "thumb_step lib src st = Inr st'" "map_of (items st) k = Some it"
    "map_of (items st') k = Some it'"
  shows "item_id it' = item_id it \<and> item_name_en it' = item_name_en it \<and>
         item_tier it' = item_tier it"
  using thumb_step_frame[OF assms(1)] assms(2,3) set_image_fields by metis

lemma thumb_loop_keys:
  "thumb_loop lib srcs st = Inr st' \<Longrightarrow> map fst (items st') = map fst (items st)"
proof (induction srcs arbitrary: st)
  case Nil
  then show ?case by simp
next
  case (Cons s srcs)
  then show ?case by (auto split: sum.splits dest: thumb_step_keys)
qed

lemma thumb_loop_fields:
  "thumb_loop lib srcs st = Inr st' \<Longrightarrow> map_of (items st) k = Some it \<Longrightarrow>
   map_of (items st') k = Some it' \<Longrightarrow>
   item_id it' = item_id it \<and> item_name_en it' = item_name_en it \<and> item_tier it' = item_tier it"
proof (induction srcs arbitrary: st it)
  case Nil
  then show ?case by simp
next
  case (Cons s srcs)
  from Cons.prems(1) obtain st1
    where s1: "thumb_step lib s st = Inr st1" and l1: "thumb_loop lib srcs st1 = Inr st'"
    by (auto split: sum.splits)
  from thumb_step_keys[OF s1] Cons.prems(2) obtain it1
    where i1: "map_of (items st1) k = Some it1"
    using keys_lookup by metis
  from thumb_step_fields[OF s1 Cons.prems(2) i1] Cons.IH[OF l1 i1 Cons.prems(3)]
  show ?case by simp
qed

lemma thumb_loop_others:
  "thumb_loop lib srcs st = Inr st' \<Longrightarrow>
   recipes st' = recipes st \<and> facilities st' = facilities st"
proof (induction srcs arbitrary: st)
  case Nil
  then show ?case by simp
next
  case (Cons s srcs)
  then show ?case using thumb_step_frame by (fastforce split: sum.splits)
qed

text \<open>
  C10. The thumbnail pass never adds a key to the items map. For one thumbnail URL, with the
  item id taken from the stem of the decoded file name (spaces replaced by underscores): if the
  id is not a key, the items map stays as it is; if it is, the entry is replaced by itself with
  only the image field set. Over the whole loop the keys and their order stay, and every item
  keeps its id, name and tier.
\<close>

theorem thumbnail_pass_frame:
  "(thumb_step lib src st = Inr st1 \<longrightarrow>
      (\<exists>full_src fn. normalize_item_image_url src = Inr full_src \<and>
         basename_no_query full_src = Inr fn \<and>
         map fst (items st1) = map fst (items st) \<and>
         (map_of (items st) (replace_space (Path_stem lib (unquote lib fn))) = None \<longrightarrow>
            items st1 = items st) \<and>
         (\<forall>it. map_of (items st) (replace_space (Path_stem lib (unquote lib fn))) = Some it \<longrightarrow>
            items st1 = AList.update (replace_space (Path_stem lib (unquote lib fn)))
                          (it\<lparr>item_image := Some (''images/items/'' @ unquote lib fn)\<rparr>) (items st)))) \<and>
   (thumb_loop lib srcs st = Inr st2 \<longrightarrow>
      map fst (items st2) = map fst (items st) \<and>
      (\<forall>k it it2. map_of (items st) k = Some it \<and> map_of (items st2) k = Some it2 \<longrightarrow>
         it2 = it\<lparr>item_image := item_image it2\<rparr>))"
proof (intro conjI impI)
  assume a: "thumb_step lib src st = Inr st1"
  from thumb_step_frame[OF a] obtain full_src fn where
    n: "normalize_item_image_url src = Inr full_src" and b: "basename_no_query full_src = Inr fn"
    and i: "items st1 = set_image_if_present (replace_space (Path_stem lib (unquote lib fn)))
                         (''images/items/'' @ unquote lib fn) (items st)"
    by blast
  show "\<exists>full_src fn. normalize_item_image_url src = Inr full_src \<and>
         basename_no_query full_src = Inr fn \<and>
         map fst (items st1) = map fst (items st) \<and>
         (map_of (items st) (replace_space (Path_stem lib (unquote lib fn))) = None \<longrightarrow>
            items st1 = items st) \<and>
         (\<forall>it. map_of (items st) (replace_space (Path_stem lib (unquote lib fn))) = Some it \<longrightarrow>
            items st1 = AList.update (replace_space (Path_stem lib (unquote lib fn)))
                          (it\<lparr>item_image := Some (''images/items/'' @ unquote lib fn)\<rparr>) (items st))"
    using n b i thumb_step_keys[OF a]
    by (intro exI[of _ full_src] exI[of _ fn]) (simp add: set_image_if_present_def)
next
  assume a: "thumb_loop lib srcs st = Inr st2"
  show "map fst (items st2) = map fst (items st)" by (rule thumb_loop_keys[OF a])
next
  assume a: "thumb_loop lib srcs st = Inr st2"
  show "\<forall>k it it2. map_of (items st) k = Some it \<and> map_of (items st2) k = Some it2 \<longrightarrow>
         it2 = it\<lparr>item_image := item_image it2\<rparr>"
  proof (intro allI impI)
    fix k it it2
    assume h: "map_of (items st) k = Some it \<and> map_of (items st2) k = Some it2"
    from thumb_loop_fields[OF a, of k it it2] h
    have "item_id it2 = item_id it \<and> item_name_en it2 = item_name_en it \<and>
          item_tier it2 = item_tier it"
      by blast
    then show "it2 = it\<lparr>item_image := item_image it2\<rparr>"
      by (cases it, cases it2) simp
  qed
qed


theorem thumbnail_pass_frame_witness:
  "thumb_step example_lib ''/images/thumb/Iron_Ore.png/64px-Iron_Ore.png?x'' ore_agg
     = Inr (ore_agg\<lparr>items := [(''Iron_Ore'', ore_item\<lparr>item_image := Some ''images/items/Iron_Ore.png''\<rparr>)],
                    img_jobs := [(''https://endfield.wiki.gg/images/Iron_Ore.png?x'',
                                  ''export/images/items/Iron_Ore.png'')]\<rparr>) \<and>
   thumb_step example_lib ''/images/thumb/Coal.png/64px-Coal.png'' ore_agg
     = Inr (ore_agg\<lparr>img_jobs := [(''https://endfield.wiki.gg/images/Coal.png'',
                                  ''export/images/items/Coal.png'')]\<rparr>) \<and>
   map_of (items ore_agg) ''Coal'' = None \<and>
   (\<exists>st2. thumb_loop example_lib [''/images/thumb/Iron_Ore.png/64px-Iron_Ore.png?x'',
                                    ''/images/thumb/Coal.png/64px-Coal.png''] ore_agg = Inr st2 \<and>
          map fst (items st2) = [''Iron_Ore''])"
proof -
  let ?ore = "''/images/thumb/Iron_Ore.png/64px-Iron_Ore.png?x''"
  let ?coal = "''/images/thumb/Coal.png/64px-Coal.png''"
  let ?st1 = "ore_agg\<lparr>items := [(''Iron_Ore'', ore_item\<lparr>item_image := Some ''images/items/Iron_Ore.png''\<rparr>)],
                    img_jobs := [(''https://endfield.wiki.gg/images/Iron_Ore.png?x'',
                                  ''export/images/items/Iron_Ore.png'')]\<rparr>"
  let ?st2 = "?st1\<lparr>img_jobs := [(''https://endfield.wiki.gg/images/Iron_Ore.png?x'',
                                  ''export/images/items/Iron_Ore.png''),
                                 (''https://endfield.wiki.gg/images/Coal.png'',
                                  ''export/images/items/Coal.png'')]\<rparr>"
  have s1: "thumb_step example_lib ?ore ore_agg = Inr ?st1"
    by code_simp
  have s2: "thumb_step example_lib ?coal ore_agg
     = Inr (ore_agg\<lparr>img_jobs := [(''https://endfield.wiki.gg/images/Coal.png'',
                                  ''export/images/items/Coal.png'')]\<rparr>)"
    by code_simp
  have absent: "map_of (items ore_agg) ''Coal'' = None"
    by (simp add: ore_agg_def)
  have l: "thumb_loop example_lib [?ore, ?coal] ore_agg = Inr ?st2"
    by code_simp
  from thumbnail_pass_frame [of example_lib ?ore ore_agg ?st1 "[?ore, ?coal]" ?st2] l
  have keys: "map fst (items ?st2) = map fst (items ore_agg)"
    by blast
  have k: "map fst (items ?st2) = [''Iron_Ore'']"
    using keys by (simp add: ore_agg_def)
  have ex: "\<exists>st2. thumb_loop example_lib [?ore, ?coal] ore_agg = Inr st2 \<and>
                map fst (items st2) = [''Iron_Ore'']"
    by (rule exI[of _ ?st2]) (rule conjI[OF l k])
  show ?thesis
    by (rule conjI[OF s1 conjI[OF s2 conjI[OF absent ex]]])
qed

section \<open>Properties of the aggregation\<close>

subsection \<open>Dictionaries\<close>

lemma setdefault_keys: "fst ` set (setdefault k v d) = insert k (fst ` set d)"
  by (auto simp: setdefault_def map_of_eq_None_iff split: option.splits dest: map_of_SomeD
           intro: rev_image_eqI)

lemma setdefault_distinct:
  "distinct (map fst d) \<Longrightarrow> distinct (map fst (setdefault k v d))"
  by (auto simp: setdefault_def map_of_eq_None_iff split: option.splits)

lemma setdefault_lookup:
  "map_of (setdefault k v d) k' =
     (case map_of d k' of Some x \<Rightarrow> Some x | None \<Rightarrow> if k' = k then Some v else None)"
  by (auto simp: setdefault_def map_add_def split: option.splits)

lemma update_keys: "fst ` set (AList.update k v al) = insert k (fst ` set al)"
  by (simp add: dom_update)

subsection \<open>Items are inserted for every material\<close>

lemma add_materials_mono:
  "add_materials ms its = Inr its' \<Longrightarrow> fst ` set its \<subseteq> fst ` set its'"
proof (induction ms arbitrary: its)
  case Nil
  then show ?case by simp
next
  case (Cons m ms)
  from Cons.prems obtain nm where
    rest: "add_materials ms (setdefault (replace_space nm) (new_item nm) its) = Inr its'"
    by (auto split: option.splits)
  from Cons.IH[OF rest] show ?case
    by (auto simp: setdefault_keys)
qed

lemma add_materials_covers:
  "add_materials ms its = Inr its' \<Longrightarrow> m \<in> set ms \<Longrightarrow> mat_name m = Some nm \<Longrightarrow>
   replace_space nm \<in> fst ` set its'"
proof (induction ms arbitrary: its)
  case Nil
  then show ?case by simp
next
  case (Cons a ms)
  from Cons.prems(1) obtain na where na: "mat_name a = Some na" and
    rest: "add_materials ms (setdefault (replace_space na) (new_item na) its) = Inr its'"
    by (auto split: option.splits)
  show ?case
  proof (cases "m = a")
    case True
    with na Cons.prems(3) have "replace_space nm \<in> fst ` set (setdefault (replace_space na) (new_item na) its)"
      by (simp add: setdefault_keys)
    with add_materials_mono[OF rest] show ?thesis by blast
  next
    case False
    with Cons.prems(2) have "m \<in> set ms" by simp
    from Cons.IH[OF rest this Cons.prems(3)] show ?thesis .
  qed
qed

lemma add_materials_names:
  "add_materials ms its = Inr its' \<Longrightarrow> m \<in> set ms \<Longrightarrow> \<exists>nm. mat_name m = Some nm"
  by (induction ms arbitrary: its) (auto split: option.splits)

lemma add_materials_distinct:
  "add_materials ms its = Inr its' \<Longrightarrow> distinct (map fst its) \<Longrightarrow> distinct (map fst its')"
  by (induction ms arbitrary: its) (auto split: option.splits simp: setdefault_distinct)


lemma add_recipe_items_mono:
  "add_recipe_items rs its = Inr its' \<Longrightarrow> fst ` set its \<subseteq> fst ` set its'"
proof (induction rs arbitrary: its)
  case Nil
  then show ?case by simp
next
  case (Cons r rs)
  from Cons.prems obtain its1 its2 where
    a: "add_materials (pr_inputs r) its = Inr its1" and
    b: "add_materials (pr_outputs r) its1 = Inr its2" and
    c: "add_recipe_items rs its2 = Inr its'"
    by (auto split: sum.splits)
  from add_materials_mono[OF a] add_materials_mono[OF b] Cons.IH[OF c] show ?case
    by blast
qed

lemma add_recipe_items_names:
  "add_recipe_items rs its = Inr its' \<Longrightarrow> r \<in> set rs \<Longrightarrow>
   m \<in> set (pr_inputs r) \<union> set (pr_outputs r) \<Longrightarrow> \<exists>nm. mat_name m = Some nm"
proof (induction rs arbitrary: its)
  case Nil
  then show ?case by simp
next
  case (Cons a rs)
  from Cons.prems(1) obtain its1 its2 where
    a: "add_materials (pr_inputs a) its = Inr its1" and
    b: "add_materials (pr_outputs a) its1 = Inr its2" and
    c: "add_recipe_items rs its2 = Inr its'"
    by (auto split: sum.splits)
  show ?case
  proof (cases "r = a")
    case True
    with Cons.prems(3) add_materials_names[OF a] add_materials_names[OF b] show ?thesis by auto
  next
    case False
    with Cons.prems(2) have "r \<in> set rs" by simp
    from Cons.IH[OF c this Cons.prems(3)] show ?thesis .
  qed
qed

lemma add_recipe_items_distinct:
  "add_recipe_items rs its = Inr its' \<Longrightarrow> distinct (map fst its) \<Longrightarrow> distinct (map fst its')"
  by (induction rs arbitrary: its) (auto split: sum.splits dest: add_materials_distinct)

lemma add_recipe_items_covers:
  "add_recipe_items rs its = Inr its' \<Longrightarrow> r \<in> set rs \<Longrightarrow>
   m \<in> set (pr_inputs r) \<union> set (pr_outputs r) \<Longrightarrow> mat_name m = Some nm \<Longrightarrow>
   replace_space nm \<in> fst ` set its'"
proof (induction rs arbitrary: its)
  case Nil
  then show ?case by simp
next
  case (Cons a rs)
  from Cons.prems(1) obtain its1 its2 where
    a: "add_materials (pr_inputs a) its = Inr its1" and
    b: "add_materials (pr_outputs a) its1 = Inr its2" and
    c: "add_recipe_items rs its2 = Inr its'"
    by (auto split: sum.splits)
  show ?case
  proof (cases "r = a")
    case True
    from Cons.prems(3) True have "m \<in> set (pr_inputs a) \<or> m \<in> set (pr_outputs a)"
      by simp
    then have "replace_space nm \<in> fst ` set its2"
    proof
      assume "m \<in> set (pr_inputs a)"
      from add_materials_covers[OF a this Cons.prems(4)] add_materials_mono[OF b]
      show ?thesis by blast
    next
      assume "m \<in> set (pr_outputs a)"
      from add_materials_covers[OF b this Cons.prems(4)] show ?thesis .
    qed
    with add_recipe_items_mono[OF c] show ?thesis by blast
  next
    case False
    with Cons.prems(2) have "r \<in> set rs" by simp
    from Cons.IH[OF c this Cons.prems(3,4)] show ?thesis .
  qed
qed

subsection \<open>Entries of a recipe record\<close>

lemma amount_entries_ids:
  "amount_entries ms = Inr es \<Longrightarrow> e \<in> set es \<Longrightarrow>
   \<exists>m \<in> set ms. \<exists>nm. mat_name m = Some nm \<and> itemId e = replace_space nm \<and>
                       amount e = mat_quantity m"
proof (induction ms arbitrary: es)
  case Nil
  then show ?case by simp
next
  case (Cons m ms)
  from Cons.prems(1) obtain nm es1 where nm: "mat_name m = Some nm"
    and r: "amount_entries ms = Inr es1"
    and es: "es = \<lparr>itemId = replace_space nm, amount = mat_quantity m\<rparr> # es1"
    by (auto split: option.splits sum.splits)
  show ?case
  proof (cases "e \<in> set es1")
    case True
    from Cons.IH[OF r True] show ?thesis by auto
  next
    case False
    with Cons.prems(2) es have "e = \<lparr>itemId = replace_space nm, amount = mat_quantity m\<rparr>"
      by simp
    with nm show ?thesis by auto
  qed
qed

subsection \<open>Decimal numerals and recipe identifiers\<close>

lemma digit_char_is_digit: "d < 10 \<Longrightarrow> is_digit (digit_char d)"
proof -
  assume "d < 10"
  then have "d \<in> {0,1,2,3,4,5,6,7,8,9}" by auto
  then show ?thesis
    by (auto simp: digit_char_def is_digit_def)
qed

lemma digit_char_inj: "a < 10 \<Longrightarrow> b < 10 \<Longrightarrow> digit_char a = digit_char b \<Longrightarrow> a = b"
proof -
  assume "a < 10" "b < 10" and e: "digit_char a = digit_char b"
  then have "a \<in> {0,1,2,3,4,5,6,7,8,9}" "b \<in> {0,1,2,3,4,5,6,7,8,9}" by auto
  with e show ?thesis
    by (auto simp: digit_char_def)
qed

lemma str_nat_digits: "c \<in> set (str_nat n) \<Longrightarrow> is_digit c"
proof (induction n rule: str_nat.induct)
  case (1 n)
  show ?case
  proof (cases "n < 10")
    case True
    with "1.prems" show ?thesis
      by (simp add: str_nat.simps[of n] digit_char_is_digit)
  next
    case False
    with "1.prems" "1.IH" show ?thesis
      by (auto simp: str_nat.simps[of n] digit_char_is_digit)
  qed
qed

lemma str_nat_nonempty: "str_nat n \<noteq> []"
  by (subst str_nat.simps) simp

lemma str_nat_length: "\<not> n < 10 \<Longrightarrow> 2 \<le> length (str_nat n)"
  using str_nat_nonempty[of "n div 10"]
  by (subst str_nat.simps) (cases "str_nat (n div 10)"; simp)

lemma str_nat_inj: "str_nat n = str_nat m \<Longrightarrow> n = m"
proof (induction n arbitrary: m rule: str_nat.induct)
  case (1 n)
  show ?case
  proof (cases "n < 10")
    case n: True
    show ?thesis
    proof (cases "m < 10")
      case True
      with n "1.prems" show ?thesis
        by (simp add: str_nat.simps[of n] str_nat.simps[of m] digit_char_inj)
    next
      case False
      from str_nat_length[OF False] n "1.prems" have "2 \<le> length [digit_char n]"
        by (simp add: str_nat.simps[of n])
      then show ?thesis by simp
    qed
  next
    case n: False
    show ?thesis
    proof (cases "m < 10")
      case True
      from str_nat_length[OF n] True "1.prems" have "2 \<le> length [digit_char m]"
        by (simp add: str_nat.simps[of m])
      then show ?thesis by simp
    next
      case False
      with n "1.prems" have e: "str_nat (n div 10) = str_nat (m div 10)"
        and d: "digit_char (n mod 10) = digit_char (m mod 10)"
        by (simp_all add: str_nat.simps[of n] str_nat.simps[of m])
      from "1.IH"[OF n e] have "n div 10 = m div 10" .
      moreover from d have "n mod 10 = m mod 10"
        by (intro digit_char_inj) simp_all
      ultimately show ?thesis
        by (metis div_mult_mod_eq)
    qed
  qed
qed

lemma underscore_not_digit: "\<not> is_digit CHR ''_''"
  by (simp add: is_digit_def)

lemma digit_suffix_unique:
  assumes "a @ ''__'' @ d1 = b @ ''__'' @ d2"
    "\<forall>c \<in> set d1. is_digit c" "\<forall>c \<in> set d2. is_digit c"
  shows "a = b \<and> d1 = d2"
proof -
  have t: "takeWhile is_digit (rev (x @ ''__'' @ d)) = rev d" if "\<forall>c \<in> set d. is_digit c" for x d
  proof -
    have "takeWhile is_digit (rev d @ CHR ''_'' # CHR ''_'' # rev x)
            = rev d @ takeWhile is_digit (CHR ''_'' # CHR ''_'' # rev x)"
      using that by (intro takeWhile_append2) simp
    then show ?thesis by (simp add: underscore_not_digit)
  qed
  from t[OF assms(2), of a] t[OF assms(3), of b] assms(1) have "d1 = d2"
    by (metis rev_rev_ident)
  with assms(1) show ?thesis by simp
qed

lemma make_recipe_id_inj:
  "make_recipe_id fid o1 n1 = make_recipe_id fid o2 n2 \<Longrightarrow> o1 = o2 \<and> n1 = n2"
proof -
  assume "make_recipe_id fid o1 n1 = make_recipe_id fid o2 n2"
  then have "o1 @ ''__'' @ str_nat n1 = o2 @ ''__'' @ str_nat n2"
    by (simp add: make_recipe_id_def)
  from digit_suffix_unique[OF this] str_nat_digits show ?thesis
    by (auto dest: str_nat_inj)
qed

lemma next_seq_empty: "next_seq [] out = 1"
  by (simp add: next_seq_def)

lemma next_seq_update:
  "next_seq (AList.update out (next_seq rc out) rc) x =
     (if x = out then next_seq rc out + 1 else next_seq rc x)"
  by (simp add: next_seq_def update_conv')

lemma next_seq_positive: "1 \<le> next_seq rc out"
  by (simp add: next_seq_def)

lemma assigned_ids_length: "length (assigned_ids fid outs rc) = length outs"
  by (induction outs arbitrary: rc) simp_all

lemma assigned_ids_nth:
  "i < length outs \<Longrightarrow>
   assigned_ids fid outs rc ! i =
     make_recipe_id fid (outs ! i) (next_seq rc (outs ! i) + count_list (take i outs) (outs ! i))"
proof (induction outs arbitrary: rc i)
  case Nil
  then show ?case by simp
next
  case (Cons out outs)
  show ?case
  proof (cases i)
    case 0
    then show ?thesis by simp
  next
    case (Suc j)
    with Cons.prems have j: "j < length outs" by simp
    from Cons.IH[OF j, of "AList.update out (next_seq rc out) rc"] Suc show ?thesis
      by (simp add: next_seq_update)
  qed
qed

lemma assigned_ids_spec: "assigned_ids fid outs [] = spec_recipe_ids fid outs"
  by (rule nth_equalityI)
     (simp_all add: assigned_ids_length spec_recipe_ids_def assigned_ids_nth next_seq_empty)

lemma count_list_take_less:
  assumes "i < j" "j \<le> length outs"
  shows "count_list (take i outs) (outs ! i) < count_list (take j outs) (outs ! i)"
proof -
  have i: "i < length (take j outs)" using assms by simp
  have "take j outs = take i (take j outs) @ drop i (take j outs)"
    by (rule append_take_drop_id[symmetric])
  also have "take i (take j outs) = take i outs"
    using assms by (simp add: min_def)
  also have "drop i (take j outs) = outs ! i # drop (Suc i) (take j outs)"
    using Cons_nth_drop_Suc[OF i] assms by simp
  finally have "take j outs = take i outs @ outs ! i # drop (Suc i) (take j outs)" .
  then have "count_list (take j outs) (outs ! i) =
             count_list (take i outs @ outs ! i # drop (Suc i) (take j outs)) (outs ! i)"
    by simp
  then show ?thesis by simp
qed

lemma spec_recipe_ids_distinct: "distinct (spec_recipe_ids fid outs)"
proof -
  have neq: "spec_recipe_ids fid outs ! i \<noteq> spec_recipe_ids fid outs ! j"
    if "i < j" "j < length outs" for i j
  proof
    assume e: "spec_recipe_ids fid outs ! i = spec_recipe_ids fid outs ! j"
    from that have "i < length outs" by simp
    with that e have
      "make_recipe_id fid (outs ! i) (Suc (count_list (take i outs) (outs ! i))) =
       make_recipe_id fid (outs ! j) (Suc (count_list (take j outs) (outs ! j)))"
      by (simp add: spec_recipe_ids_def)
    from make_recipe_id_inj[OF this] have oc: "outs ! i = outs ! j \<and>
        Suc (count_list (take i outs) (outs ! i)) = Suc (count_list (take j outs) (outs ! j))" .
    from oc have "outs ! i = outs ! j" by (rule conjunct1)
    then have o: "outs ! j = outs ! i" by (rule sym)
    from oc have c: "count_list (take i outs) (outs ! i) = count_list (take j outs) (outs ! j)"
      by blast
    from c have "count_list (take i outs) (outs ! i) = count_list (take j outs) (outs ! i)"
      unfolding o .
    with count_list_take_less[OF that(1), of outs] that(2) show False by simp
  qed
  show ?thesis
    unfolding distinct_conv_nth
  proof (intro allI impI)
    fix i j
    assume "i < length (spec_recipe_ids fid outs)" "j < length (spec_recipe_ids fid outs)" "i \<noteq> j"
    then have "i < length outs" "j < length outs" "i < j \<or> j < i"
      by (auto simp: spec_recipe_ids_def)
    with neq[of i j] neq[of j i] show "spec_recipe_ids fid outs ! i \<noteq> spec_recipe_ids fid outs ! j"
      by auto
  qed
qed

lemma assigned_ids_distinct: "distinct (assigned_ids fid outs [])"
  by (simp add: assigned_ids_spec spec_recipe_ids_distinct)

subsection \<open>The recipe loop\<close>

lemma append_supported_Inr:
  "append_supported fid rid fs = Inr fs' \<Longrightarrow>
   \<exists>f. map_of fs fid = Some f \<and>
       fs' = AList.update fid (f\<lparr>supportedRecipes := supportedRecipes f @ [rid]\<rparr>) fs"
  by (auto simp: append_supported_def split: option.splits)

lemma recipe_loop_Cons:
  assumes "recipe_loop fid (r # rs) rc st = Inr st'"
  shows "\<exists>out ins outs f.
           first_out_id r = Inr out \<and>
           amount_entries (pr_inputs r) = Inr ins \<and>
           amount_entries (pr_outputs r) = Inr outs \<and>
           map_of (facilities st) fid = Some f \<and>
           recipe_loop fid rs (AList.update out (next_seq rc out) rc)
             (st\<lparr>recipes := AList.update (make_recipe_id fid out (next_seq rc out))
                    \<lparr>recipe_id = make_recipe_id fid out (next_seq rc out), facilityId = fid,
                     inputs = ins, outputs = outs, craftingTime = pr_time r\<rparr> (recipes st),
                  facilities := AList.update fid
                    (f\<lparr>supportedRecipes := supportedRecipes f @
                          [make_recipe_id fid out (next_seq rc out)]\<rparr>) (facilities st)\<rparr>)
             = Inr st'"
  using assms
  by (auto simp: Let_def split: sum.splits dest!: append_supported_Inr)

lemma recipe_loop_outs:
  "recipe_loop fid rs rc st = Inr st' \<Longrightarrow> \<exists>outs. gather first_out_id rs = Inr outs"
proof (induction rs arbitrary: rc st)
  case Nil
  then show ?case by simp
next
  case (Cons r rs)
  from recipe_loop_Cons[OF Cons.prems] obtain out st1 rc1 where
    o: "first_out_id r = Inr out" and l: "recipe_loop fid rs rc1 st1 = Inr st'"
    by blast
  from Cons.IH[OF l] o show ?case by auto
qed

lemma recipe_loop_items:
  "recipe_loop fid rs rc st = Inr st' \<Longrightarrow> items st' = items st \<and> img_jobs st' = img_jobs st"
proof (induction rs arbitrary: rc st)
  case Nil
  then show ?case by simp
next
  case (Cons r rs)
  from recipe_loop_Cons[OF Cons.prems] obtain rc1 re fs where
    l: "recipe_loop fid rs rc1 (st\<lparr>recipes := re, facilities := fs\<rparr>) = Inr st'"
    by blast
  from Cons.IH[OF l] show ?case by simp
qed


lemma gather_Cons_Inr:
  "gather f (x # xs) = Inr ys \<Longrightarrow> \<exists>y ys'. f x = Inr y \<and> gather f xs = Inr ys' \<and> ys = y # ys'"
  by (auto split: sum.splits)

lemma recipe_loop_facilities:
  "recipe_loop fid rs rc st = Inr st' \<Longrightarrow> gather first_out_id rs = Inr outs \<Longrightarrow>
   map_of (facilities st) fid = Some f \<Longrightarrow>
   map_of (facilities st') =
     (map_of (facilities st))(fid \<mapsto> f\<lparr>supportedRecipes := supportedRecipes f @ assigned_ids fid outs rc\<rparr>) \<and>
   map fst (facilities st') = map fst (facilities st)"
proof (induction rs arbitrary: rc st outs f)
  case Nil
  then show ?case by (auto simp: fun_upd_idem)
next
  case (Cons r rs)
  from gather_Cons_Inr[OF Cons.prems(2)] obtain out outs' where
    o: "first_out_id r = Inr out" and g: "gather first_out_id rs = Inr outs'"
    and outs: "outs = out # outs'"
    by blast
  let ?rid = "make_recipe_id fid out (next_seq rc out)"
  let ?f1 = "f\<lparr>supportedRecipes := supportedRecipes f @ [?rid]\<rparr>"
  from recipe_loop_Cons[OF Cons.prems(1)] o Cons.prems(3) obtain re where
    l: "recipe_loop fid rs (AList.update out (next_seq rc out) rc)
          (st\<lparr>recipes := re, facilities := AList.update fid ?f1 (facilities st)\<rparr>) = Inr st'"
    by auto
  have m: "map_of (facilities (st\<lparr>recipes := re, facilities := AList.update fid ?f1 (facilities st)\<rparr>)) fid
             = Some ?f1"
    by (simp add: update_conv')
  from Cons.IH[OF l g m] outs Cons.prems(3) show ?case
    by (auto simp: update_conv' update_keys_same fun_eq_iff)
qed

lemma recipe_loop_recipe_keys:
  "recipe_loop fid rs rc st = Inr st' \<Longrightarrow> gather first_out_id rs = Inr outs \<Longrightarrow>
   fst ` set (recipes st') = fst ` set (recipes st) \<union> set (assigned_ids fid outs rc) \<and>
   (distinct (map fst (recipes st)) \<longrightarrow> distinct (map fst (recipes st')))"
proof (induction rs arbitrary: rc st outs)
  case Nil
  then show ?case by auto
next
  case (Cons r rs)
  from gather_Cons_Inr[OF Cons.prems(2)] obtain out outs' where
    o: "first_out_id r = Inr out" and g: "gather first_out_id rs = Inr outs'"
    and outs: "outs = out # outs'"
    by blast
  let ?rid = "make_recipe_id fid out (next_seq rc out)"
  from recipe_loop_Cons[OF Cons.prems(1)] o obtain rec fs where
    l: "recipe_loop fid rs (AList.update out (next_seq rc out) rc)
          (st\<lparr>recipes := AList.update ?rid rec (recipes st), facilities := fs\<rparr>) = Inr st'"
    by auto
  from Cons.IH[OF l g] outs show ?case
    by (auto simp: dom_update distinct_update)
qed

lemma recipe_loop_old:
  "recipe_loop fid rs rc st = Inr st' \<Longrightarrow> gather first_out_id rs = Inr outs \<Longrightarrow>
   rid \<notin> set (assigned_ids fid outs rc) \<Longrightarrow> map_of (recipes st') rid = map_of (recipes st) rid"
proof (induction rs arbitrary: rc st outs)
  case Nil
  then show ?case by auto
next
  case (Cons r rs)
  from gather_Cons_Inr[OF Cons.prems(2)] obtain out outs' where
    o: "first_out_id r = Inr out" and g: "gather first_out_id rs = Inr outs'"
    and outs: "outs = out # outs'"
    by blast
  let ?rid = "make_recipe_id fid out (next_seq rc out)"
  from recipe_loop_Cons[OF Cons.prems(1)] o obtain rec fs where
    l: "recipe_loop fid rs (AList.update out (next_seq rc out) rc)
          (st\<lparr>recipes := AList.update ?rid rec (recipes st), facilities := fs\<rparr>) = Inr st'"
    by auto
  from Cons.prems(3) outs have n: "rid \<noteq> ?rid"
    and n': "rid \<notin> set (assigned_ids fid outs' (AList.update out (next_seq rc out) rc))"
    by auto
  from Cons.IH[OF l g n'] n show ?case
    by (simp add: update_conv')
qed

lemma recipe_loop_new:
  "recipe_loop fid rs rc st = Inr st' \<Longrightarrow> map_of (recipes st') rid = Some r \<Longrightarrow>
   map_of (recipes st) rid = Some r \<or>
   (recipe_id r = rid \<and> facilityId r = fid \<and>
    (\<exists>pr \<in> set rs. \<exists>out n. first_out_id pr = Inr out \<and> 1 \<le> n \<and>
        rid = make_recipe_id fid out n \<and>
        amount_entries (pr_inputs pr) = Inr (inputs r) \<and>
        amount_entries (pr_outputs pr) = Inr (outputs r) \<and>
        craftingTime r = pr_time pr))"
proof (induction rs arbitrary: rc st)
  case Nil
  then show ?case by simp
next
  case (Cons a rs)
  from recipe_loop_Cons[OF Cons.prems(1)] obtain out ins outs fs where
    o: "first_out_id a = Inr out" and
    i: "amount_entries (pr_inputs a) = Inr ins" and
    u: "amount_entries (pr_outputs a) = Inr outs" and
    l: "recipe_loop fid rs (AList.update out (next_seq rc out) rc)
          (st\<lparr>recipes := AList.update (make_recipe_id fid out (next_seq rc out))
                 \<lparr>recipe_id = make_recipe_id fid out (next_seq rc out), facilityId = fid,
                  inputs = ins, outputs = outs, craftingTime = pr_time a\<rparr> (recipes st),
               facilities := fs\<rparr>) = Inr st'"
    by blast
  let ?rid = "make_recipe_id fid out (next_seq rc out)"
  let ?rec = "\<lparr>recipe_id = ?rid, facilityId = fid, inputs = ins, outputs = outs,
               craftingTime = pr_time a\<rparr>"
  from Cons.IH[OF l Cons.prems(2)]
  consider (old) "map_of (AList.update ?rid ?rec (recipes st)) rid = Some r"
    | (new) "recipe_id r = rid \<and> facilityId r = fid \<and>
       (\<exists>pr \<in> set rs. \<exists>out n. first_out_id pr = Inr out \<and> 1 \<le> n \<and>
        rid = make_recipe_id fid out n \<and>
        amount_entries (pr_inputs pr) = Inr (inputs r) \<and>
        amount_entries (pr_outputs pr) = Inr (outputs r) \<and>
        craftingTime r = pr_time pr)"
    by auto
  then show ?case
  proof cases
    case old
    show ?thesis
    proof (cases "rid = ?rid")
      case True
      with old have r: "r = ?rec" by (simp add: update_conv')
      have "\<exists>out n. first_out_id a = Inr out \<and> 1 \<le> n \<and>
        rid = make_recipe_id fid out n \<and>
        amount_entries (pr_inputs a) = Inr (inputs r) \<and>
        amount_entries (pr_outputs a) = Inr (outputs r) \<and>
        craftingTime r = pr_time a"
        using o i u True r next_seq_positive[of rc out]
        by (intro exI[of _ out] exI[of _ "next_seq rc out"]) simp
      with r True show ?thesis by auto
    next
      case False
      with old show ?thesis by (simp add: update_conv')
    qed
  next
    case new
    then show ?thesis by auto
  qed
qed

lemma recipe_loop_assigned:
  "recipe_loop fid rs rc st = Inr st' \<Longrightarrow> gather first_out_id rs = Inr outs \<Longrightarrow>
   rid \<in> set (assigned_ids fid outs rc) \<Longrightarrow>
   \<exists>r. map_of (recipes st') rid = Some r \<and> recipe_id r = rid \<and> facilityId r = fid"
proof (induction rs arbitrary: rc st outs)
  case Nil
  then show ?case by auto
next
  case (Cons a rs)
  from gather_Cons_Inr[OF Cons.prems(2)] obtain out outs' where
    o: "first_out_id a = Inr out" and g: "gather first_out_id rs = Inr outs'"
    and outs: "outs = out # outs'"
    by blast
  let ?rid = "make_recipe_id fid out (next_seq rc out)"
  let ?rc = "AList.update out (next_seq rc out) rc"
  from recipe_loop_Cons[OF Cons.prems(1)] o obtain ins es fs where
    l: "recipe_loop fid rs ?rc
          (st\<lparr>recipes := AList.update ?rid
                 \<lparr>recipe_id = ?rid, facilityId = fid, inputs = ins, outputs = es,
                  craftingTime = pr_time a\<rparr> (recipes st),
               facilities := fs\<rparr>) = Inr st'"
    by auto
  show ?case
  proof (cases "rid \<in> set (assigned_ids fid outs' ?rc)")
    case True
    from Cons.IH[OF l g True] show ?thesis .
  next
    case False
    with Cons.prems(3) outs have e: "rid = ?rid" by simp
    from recipe_loop_old[OF l g False] e show ?thesis
      by (simp add: update_conv')
  qed
qed

subsection \<open>New item entries\<close>

lemma add_materials_entry:
  "add_materials ms its = Inr its' \<Longrightarrow> map_of its' k = Some it \<Longrightarrow>
   map_of its k = Some it \<or>
   (map_of its k = None \<and> (\<exists>nm. replace_space nm = k \<and> it = new_item nm))"
proof (induction ms arbitrary: its)
  case Nil
  then show ?case by simp
next
  case (Cons m ms)
  from Cons.prems(1) obtain nm where
    rest: "add_materials ms (setdefault (replace_space nm) (new_item nm) its) = Inr its'"
    by (auto split: option.splits)
  from Cons.IH[OF rest Cons.prems(2)] show ?case
    by (auto simp: setdefault_lookup split: option.splits if_splits)
qed

lemma add_recipe_items_entry:
  "add_recipe_items rs its = Inr its' \<Longrightarrow> map_of its' k = Some it \<Longrightarrow>
   map_of its k = Some it \<or>
   (map_of its k = None \<and> (\<exists>nm. replace_space nm = k \<and> it = new_item nm))"
proof (induction rs arbitrary: its)
  case Nil
  then show ?case by simp
next
  case (Cons r rs)
  from Cons.prems(1) obtain its1 its2 where
    a: "add_materials (pr_inputs r) its = Inr its1" and
    b: "add_materials (pr_outputs r) its1 = Inr its2" and
    c: "add_recipe_items rs its2 = Inr its'"
    by (auto split: sum.splits)
  have n1: "map_of its k = None" if "map_of its1 k = None"
    using add_materials_mono[OF a] that by (metis domIff dom_map_of_conv_image_fst subsetD)
  have n2: "map_of its1 k = None" if "map_of its2 k = None"
    using add_materials_mono[OF b] that by (metis domIff dom_map_of_conv_image_fst subsetD)
  let ?new = "\<exists>nm. replace_space nm = k \<and> it = new_item nm"
  from Cons.IH[OF c Cons.prems(2)]
  have "map_of its2 k = Some it \<or> (map_of its2 k = None \<and> ?new)" .
  then show ?case
  proof
    assume "map_of its2 k = Some it"
    from add_materials_entry[OF b this]
    have "map_of its1 k = Some it \<or> (map_of its1 k = None \<and> ?new)" .
    then show ?thesis
    proof
      assume "map_of its1 k = Some it"
      from add_materials_entry[OF a this] show ?thesis .
    next
      assume "map_of its1 k = None \<and> ?new"
      then have "map_of its1 k = None" and new: ?new by simp_all
      from n1[OF this(1)] new show ?thesis by simp
    qed
  next
    assume "map_of its2 k = None \<and> ?new"
    then have "map_of its2 k = None" and new: ?new by simp_all
    from n1[OF n2[OF this(1)]] new show ?thesis by simp
  qed
qed

lemma key_lookup: "k \<in> fst ` set al \<Longrightarrow> \<exists>v. map_of al k = Some v"
  by (metis domIff dom_map_of_conv_image_fst option.exhaust)

lemma lookup_key: "map_of al k = Some v \<Longrightarrow> k \<in> fst ` set al"
  by (metis domI dom_map_of_conv_image_fst)

subsection \<open>One facility\<close>

lemma facility_step_Inr:
  assumes "facility_step lib np st = Inr st'"
  shows "\<exists>jobs fac its st1.
           fac_id fac = replace_space (fst np) \<and> fac_name fac = fst np \<and>
           supportedRecipes fac = [] \<and>
           add_recipe_items (facility_recipes (snd np)) (items st) = Inr its \<and>
           recipe_loop (replace_space (fst np)) (facility_recipes (snd np)) []
             (st\<lparr>img_jobs := jobs,
                facilities := AList.update (replace_space (fst np)) fac (facilities st),
                items := its\<rparr>) = Inr st1 \<and>
           thumb_loop lib (item_img_srcs (snd np)) st1 = Inr st'"
proof -
  let ?fid = "replace_space (fst np)"
  let ?fac = "\<lparr>fac_id = ?fid, fac_name = fst np, fac_tier = map_of (page_info (snd np)) ''Tier'',
       powerConsumption = (case map_of (page_info (snd np)) ''Power'' of
                             None \<Rightarrow> PowerInt 0 | Some v \<Rightarrow> PowerText v),
       supportedRecipes = [],
       fac_image = (if truthy (facility_img_src (snd np))
                    then Some (''images/facilities/'' @ ?fid @ ''.png'') else None)\<rparr>"
  from assms obtain jobs its st1 where
    a: "add_recipe_items (facility_recipes (snd np)) (items st) = Inr its" and
    l: "recipe_loop ?fid (facility_recipes (snd np)) []
             (st\<lparr>img_jobs := jobs, facilities := AList.update ?fid ?fac (facilities st),
                items := its\<rparr>) = Inr st1" and
    t: "thumb_loop lib (item_img_srcs (snd np)) st1 = Inr st'"
    unfolding facility_step_def Let_def
    by (auto split: sum.splits)
  show ?thesis
    using a l t
    by (intro exI[of _ jobs] exI[of _ ?fac] exI[of _ its] exI[of _ st1]) simp
qed

subsection \<open>Every referenced item is in the items map\<close>

lemma facility_step_refs:
  assumes step: "facility_step lib np st = Inr st'"
    and inv: "\<And>rid r e. map_of (recipes st) rid = Some r \<Longrightarrow>
              e \<in> set (inputs r) \<union> set (outputs r) \<Longrightarrow> itemId e \<in> fst ` set (items st)"
    and r: "map_of (recipes st') rid = Some r"
    and e: "e \<in> set (inputs r) \<union> set (outputs r)"
  shows "itemId e \<in> fst ` set (items st')"
proof -
  let ?fid = "replace_space (fst np)"
  let ?rs = "facility_recipes (snd np)"
  from facility_step_Inr[OF step] obtain jobs fac its st1 where
    a: "add_recipe_items ?rs (items st) = Inr its" and
    l: "recipe_loop ?fid ?rs []
          (st\<lparr>img_jobs := jobs, facilities := AList.update ?fid fac (facilities st),
             items := its\<rparr>) = Inr st1" and
    t: "thumb_loop lib (item_img_srcs (snd np)) st1 = Inr st'"
    by blast
  from recipe_loop_items[OF l] have i1: "items st1 = its" by simp
  from thumb_loop_keys[OF t] i1 have keys: "fst ` set (items st') = fst ` set its"
    by (metis list.set_map)
  from thumb_loop_others[OF t] r have r1: "map_of (recipes st1) rid = Some r" by simp
  from recipe_loop_new[OF l r1]
  consider (old) "map_of (recipes st) rid = Some r"
    | (new) pr where "pr \<in> set ?rs" "amount_entries (pr_inputs pr) = Inr (inputs r)"
        "amount_entries (pr_outputs pr) = Inr (outputs r)"
    by auto
  then have "itemId e \<in> fst ` set its"
  proof cases
    case old
    from inv[OF old e] add_recipe_items_mono[OF a] show ?thesis by blast
  next
    case new
    from e have "e \<in> set (inputs r) \<or> e \<in> set (outputs r)" by simp
    then obtain m nm where m: "m \<in> set (pr_inputs pr) \<union> set (pr_outputs pr)"
      and nm: "mat_name m = Some nm" and ie: "itemId e = replace_space nm"
    proof
      assume "e \<in> set (inputs r)"
      from amount_entries_ids[OF new(2) this] that show ?thesis by blast
    next
      assume "e \<in> set (outputs r)"
      from amount_entries_ids[OF new(3) this] that show ?thesis by blast
    qed
    from add_recipe_items_covers[OF a new(1) m nm] ie show ?thesis by simp
  qed
  with keys show ?thesis by simp
qed

lemma facility_loop_refs:
  "facility_loop lib nps st = Inr st' \<Longrightarrow>
   (\<forall>rid r e. map_of (recipes st) rid = Some r \<longrightarrow>
       e \<in> set (inputs r) \<union> set (outputs r) \<longrightarrow> itemId e \<in> fst ` set (items st)) \<Longrightarrow>
   (\<forall>rid r e. map_of (recipes st') rid = Some r \<longrightarrow>
       e \<in> set (inputs r) \<union> set (outputs r) \<longrightarrow> itemId e \<in> fst ` set (items st'))"
proof (induction nps arbitrary: st)
  case Nil
  then show ?case by simp
next
  case (Cons np nps)
  from Cons.prems(1) obtain st1 where s: "facility_step lib np st = Inr st1"
    and l: "facility_loop lib nps st1 = Inr st'"
    by (auto split: sum.splits)
  have "\<forall>rid r e. map_of (recipes st1) rid = Some r \<longrightarrow>
       e \<in> set (inputs r) \<union> set (outputs r) \<longrightarrow> itemId e \<in> fst ` set (items st1)"
    using facility_step_refs[OF s] Cons.prems(2) by blast
  from Cons.IH[OF l this] show ?case .
qed

text \<open>
  C3. After the aggregation loop, the item id of every input and output entry of every recipe
  is a key of the items map. The entries are there before the recipe records are built: a
  facility is processed by first running the \<^verbatim>\<open>setdefault\<close> loops, which give every material
  of its recipes an entry (a new one has the id, the name, no image and no tier), and then
  running the recipe loop on the items so extended, which leaves the items as they are.
\<close>

theorem recipe_items_exist:
  "(aggregate lib facility_names results = Inr st \<longrightarrow>
      (\<forall>rid r e. map_of (recipes st) rid = Some r \<and> (e \<in> set (inputs r) \<or> e \<in> set (outputs r))
          \<longrightarrow> itemId e \<in> fst ` set (items st))) \<and>
   (add_recipe_items rs its = Inr its' \<longrightarrow>
      (\<forall>r \<in> set rs. \<forall>m \<in> set (pr_inputs r) \<union> set (pr_outputs r).
         \<exists>nm it. mat_name m = Some nm \<and> map_of its' (replace_space nm) = Some it \<and>
           (map_of its (replace_space nm) = Some it \<or>
            (\<exists>nm'. replace_space nm' = replace_space nm \<and> it = new_item nm')))) \<and>
   (facility_step lib np st0 = Inr st1 \<longrightarrow>
      (\<exists>its0 st2. add_recipe_items (facility_recipes (snd np)) (items st0) = Inr its0 \<and>
         items st2 = its0 \<and>
         (\<exists>st3. recipe_loop (replace_space (fst np)) (facility_recipes (snd np)) [] st2 = Inr st3 \<and>
                items st3 = its0 \<and>
                thumb_loop lib (item_img_srcs (snd np)) st3 = Inr st1)))"
proof (intro conjI impI)
  assume a: "aggregate lib facility_names results = Inr st"
  have "\<forall>rid r e. map_of (recipes st) rid = Some r \<longrightarrow>
       e \<in> set (inputs r) \<union> set (outputs r) \<longrightarrow> itemId e \<in> fst ` set (items st)"
    using a unfolding aggregate_def
    by (rule facility_loop_refs) (simp add: empty_agg_def)
  then show "\<forall>rid r e. map_of (recipes st) rid = Some r \<and> (e \<in> set (inputs r) \<or> e \<in> set (outputs r))
          \<longrightarrow> itemId e \<in> fst ` set (items st)"
    by auto
next
  assume a: "add_recipe_items rs its = Inr its'"
  show "\<forall>r \<in> set rs. \<forall>m \<in> set (pr_inputs r) \<union> set (pr_outputs r).
         \<exists>nm it. mat_name m = Some nm \<and> map_of its' (replace_space nm) = Some it \<and>
           (map_of its (replace_space nm) = Some it \<or>
            (\<exists>nm'. replace_space nm' = replace_space nm \<and> it = new_item nm'))"
  proof (intro ballI)
    fix r m
    assume r: "r \<in> set rs" and m: "m \<in> set (pr_inputs r) \<union> set (pr_outputs r)"
    from add_recipe_items_names[OF a r m] obtain nm where nm: "mat_name m = Some nm" ..
    from add_recipe_items_covers[OF a r m nm] key_lookup obtain it where
      it: "map_of its' (replace_space nm) = Some it"
      by metis
    from add_recipe_items_entry[OF a it]
    have "map_of its (replace_space nm) = Some it \<or>
            (\<exists>nm'. replace_space nm' = replace_space nm \<and> it = new_item nm')"
      by blast
    with nm it show "\<exists>nm it. mat_name m = Some nm \<and> map_of its' (replace_space nm) = Some it \<and>
           (map_of its (replace_space nm) = Some it \<or>
            (\<exists>nm'. replace_space nm' = replace_space nm \<and> it = new_item nm'))"
      by blast
  qed
next
  assume s: "facility_step lib np st0 = Inr st1"
  from facility_step_Inr[OF s] obtain jobs fac its0 st3 where
    a: "add_recipe_items (facility_recipes (snd np)) (items st0) = Inr its0" and
    l: "recipe_loop (replace_space (fst np)) (facility_recipes (snd np)) []
          (st0\<lparr>img_jobs := jobs,
              facilities := AList.update (replace_space (fst np)) fac (facilities st0),
              items := its0\<rparr>) = Inr st3" and
    t: "thumb_loop lib (item_img_srcs (snd np)) st3 = Inr st1"
    by blast
  from recipe_loop_items[OF l] have "items st3 = its0" by simp
  with a l t show "\<exists>its0 st2. add_recipe_items (facility_recipes (snd np)) (items st0) = Inr its0 \<and>
         items st2 = its0 \<and>
         (\<exists>st3. recipe_loop (replace_space (fst np)) (facility_recipes (snd np)) [] st2 = Inr st3 \<and>
                items st3 = its0 \<and>
                thumb_loop lib (item_img_srcs (snd np)) st3 = Inr st1)"
    by (intro exI[of _ its0] exI[of _ "st0\<lparr>img_jobs := jobs,
              facilities := AList.update (replace_space (fst np)) fac (facilities st0),
              items := its0\<rparr>"] conjI exI[of _ st3]) simp_all
qed

subsection \<open>The example facility\<close>

lemma smelter_aggregate: "aggregate example_lib [''Smelter''] [smelter_page] = Inr smelter_agg"
  by code_simp

lemma smelter_step: "facility_step example_lib (''Smelter'', smelter_page) empty_agg = Inr smelter_agg"
  by code_simp

lemma smelter_add_items: "add_recipe_items smelter_recipes [] = Inr smelter_items"
  by code_simp

text \<open>The example facility, run through the theorem.\<close>

theorem recipe_items_exist_witness:
  "aggregate example_lib [''Smelter''] [smelter_page] = Inr smelter_agg \<and>
   map_of (recipes smelter_agg) ''Smelter__Iron_Ingot__2'' = Some smelter_recipe_2 \<and>
   \<lparr>itemId = ''Scrap'', amount = 3\<rparr> \<in> set (inputs smelter_recipe_2) \<and>
   ''Scrap'' \<in> fst ` set (items smelter_agg) \<and>
   add_recipe_items smelter_recipes [] = Inr smelter_items \<and>
   facility_step example_lib (''Smelter'', smelter_page) empty_agg = Inr smelter_agg"
proof -
  have r: "map_of (recipes smelter_agg) ''Smelter__Iron_Ingot__2'' = Some smelter_recipe_2"
    by (simp add: smelter_agg_def)
  have e: "\<lparr>itemId = ''Scrap'', amount = 3\<rparr> \<in> set (inputs smelter_recipe_2)"
    by (simp add: smelter_recipe_2_def)
  from recipe_items_exist [where lib = example_lib and facility_names = "[''Smelter'']"
      and results = "[smelter_page]" and st = smelter_agg and rs = smelter_recipes
      and its = "[]" and its' = smelter_items and np = "(''Smelter'', smelter_page)"
      and ?st0.0 = empty_agg and ?st1.0 = smelter_agg]
    smelter_aggregate r e
  have "itemId \<lparr>itemId = ''Scrap'', amount = 3\<rparr> \<in> fst ` set (items smelter_agg)"
    by blast
  then have k: "''Scrap'' \<in> fst ` set (items smelter_agg)"
    by simp
  show ?thesis
    by (rule conjI[OF smelter_aggregate conjI[OF r conjI[OF e conjI[OF k
          conjI[OF smelter_add_items smelter_step]]]]])
qed

subsection \<open>Recipe identifiers\<close>

lemma first_out_entry:
  "first_out_id pr = Inr out \<Longrightarrow> amount_entries (pr_outputs pr) = Inr es \<Longrightarrow>
   \<exists>e es'. es = e # es' \<and> itemId e = out"
  by (cases "pr_outputs pr")
     (auto simp: first_out_id_def py_index_def split: option.splits sum.splits)

lemma facility_step_recipes:
  assumes step: "facility_step lib np st = Inr st'"
  shows "(distinct (map fst (recipes st)) \<longrightarrow> distinct (map fst (recipes st'))) \<and>
         (\<forall>rid r. map_of (recipes st') rid = Some r \<longrightarrow>
            map_of (recipes st) rid = Some r \<or>
            (recipe_id r = rid \<and>
             (\<exists>out n e es. 1 \<le> n \<and> rid = facilityId r @ ''__'' @ out @ ''__'' @ str_nat n \<and>
                 outputs r = e # es \<and> itemId e = out)))"
proof -
  let ?fid = "replace_space (fst np)"
  let ?rs = "facility_recipes (snd np)"
  from facility_step_Inr[OF step] obtain jobs fac its st1 where
    l: "recipe_loop ?fid ?rs []
          (st\<lparr>img_jobs := jobs, facilities := AList.update ?fid fac (facilities st),
             items := its\<rparr>) = Inr st1" and
    t: "thumb_loop lib (item_img_srcs (snd np)) st1 = Inr st'"
    by blast
  from thumb_loop_others[OF t] have r1: "recipes st' = recipes st1" by simp
  from recipe_loop_outs[OF l] obtain outs where g: "gather first_out_id ?rs = Inr outs" ..
  from recipe_loop_recipe_keys[OF l g] r1
  have d: "distinct (map fst (recipes st)) \<longrightarrow> distinct (map fst (recipes st'))"
    by simp
  have "map_of (recipes st) rid = Some r \<or>
            (recipe_id r = rid \<and>
             (\<exists>out n e es. 1 \<le> n \<and> rid = facilityId r @ ''__'' @ out @ ''__'' @ str_nat n \<and>
                 outputs r = e # es \<and> itemId e = out))"
    if "map_of (recipes st') rid = Some r" for rid r
  proof -
    from that r1 have "map_of (recipes st1) rid = Some r" by simp
    from recipe_loop_new[OF l this]
    consider (old) "map_of (recipes st) rid = Some r"
      | (new) pr out n where "recipe_id r = rid" "facilityId r = ?fid" "first_out_id pr = Inr out"
          "1 \<le> n" "rid = make_recipe_id ?fid out n"
          "amount_entries (pr_outputs pr) = Inr (outputs r)"
      by auto
    then show ?thesis
    proof cases
      case old
      then show ?thesis by simp
    next
      case new
      from first_out_entry[OF new(3,6)] obtain e es where
        "outputs r = e # es" "itemId e = out" by blast
      with new show ?thesis
        by (auto simp: make_recipe_id_def)
    qed
  qed
  with d show ?thesis by blast
qed

lemma facility_loop_recipes:
  "facility_loop lib nps st = Inr st' \<Longrightarrow>
   distinct (map fst (recipes st)) \<Longrightarrow>
   (\<forall>rid r. map_of (recipes st) rid = Some r \<longrightarrow>
      recipe_id r = rid \<and>
      (\<exists>out n e es. 1 \<le> n \<and> rid = facilityId r @ ''__'' @ out @ ''__'' @ str_nat n \<and>
          outputs r = e # es \<and> itemId e = out)) \<Longrightarrow>
   distinct (map fst (recipes st')) \<and>
   (\<forall>rid r. map_of (recipes st') rid = Some r \<longrightarrow>
      recipe_id r = rid \<and>
      (\<exists>out n e es. 1 \<le> n \<and> rid = facilityId r @ ''__'' @ out @ ''__'' @ str_nat n \<and>
          outputs r = e # es \<and> itemId e = out))"
proof (induction nps arbitrary: st)
  case Nil
  then show ?case by simp
next
  case (Cons np nps)
  from Cons.prems(1) obtain st1 where s: "facility_step lib np st = Inr st1"
    and l: "facility_loop lib nps st1 = Inr st'"
    by (auto split: sum.splits)
  from facility_step_recipes[OF s] Cons.prems(2) have d: "distinct (map fst (recipes st1))"
    by blast
  have "\<forall>rid r. map_of (recipes st1) rid = Some r \<longrightarrow>
      recipe_id r = rid \<and>
      (\<exists>out n e es. 1 \<le> n \<and> rid = facilityId r @ ''__'' @ out @ ''__'' @ str_nat n \<and>
          outputs r = e # es \<and> itemId e = out)"
    using facility_step_recipes[OF s] Cons.prems(3) by blast
  from Cons.IH[OF l d this] show ?case .
qed

lemma ids_are_keys:
  assumes "distinct (map fst al)" "\<forall>k r. map_of al k = Some r \<longrightarrow> recipe_id r = k"
  shows "map (\<lambda>kv. recipe_id (snd kv)) al = map fst al"
proof (rule map_cong[OF refl])
  fix kv assume "kv \<in> set al"
  then have "(fst kv, snd kv) \<in> set al" by simp
  from map_of_is_SomeI[OF assms(1) this] assms(2) show "recipe_id (snd kv) = fst kv"
    by blast
qed

text \<open>
  C2. In the recipes map built by the aggregation loop no two entries have the same id: the
  keys are distinct and every record carries its key as id. Every id is the facility id, two
  underscores, the item id of the record's first output, two underscores and a decimal number
  from 1 on. Within one facility the recipe loop hands out the ids of \<open>spec_recipe_ids\<close>: the
  number of a recipe is one more than the number of earlier recipes of the facility with the
  same first output; these ids are pairwise distinct, each ends up as the id of a record, and
  they are appended in order to the facility's \<^verbatim>\<open>supportedRecipes\<close>. Two recipes with the same
  first output get the numbers 1 and 2.
\<close>

theorem recipe_ids_unique:
  "(aggregate lib facility_names results = Inr st \<longrightarrow>
      distinct (map (\<lambda>kv. recipe_id (snd kv)) (recipes st)) \<and>
      (\<forall>rid r. map_of (recipes st) rid = Some r \<longrightarrow>
         recipe_id r = rid \<and>
         (\<exists>out n e es. 1 \<le> n \<and> rid = facilityId r @ ''__'' @ out @ ''__'' @ str_nat n \<and>
             outputs r = e # es \<and> itemId e = out))) \<and>
   (recipe_loop fid rs [] st0 = Inr st1 \<and> map_of (facilities st0) fid = Some f \<longrightarrow>
      (\<exists>outs f1. gather first_out_id rs = Inr outs \<and>
         map_of (facilities st1) fid = Some f1 \<and>
         supportedRecipes f1 = supportedRecipes f @ spec_recipe_ids fid outs \<and>
         distinct (spec_recipe_ids fid outs) \<and>
         (\<forall>rid \<in> set (spec_recipe_ids fid outs).
            \<exists>r. map_of (recipes st1) rid = Some r \<and> recipe_id r = rid \<and> facilityId r = fid))) \<and>
   spec_recipe_ids fid [out, out] = [fid @ ''__'' @ out @ ''__1'', fid @ ''__'' @ out @ ''__2'']"
proof (intro conjI impI)
  assume a: "aggregate lib facility_names results = Inr st"
  have inv: "distinct (map fst (recipes st)) \<and>
   (\<forall>rid r. map_of (recipes st) rid = Some r \<longrightarrow>
      recipe_id r = rid \<and>
      (\<exists>out n e es. 1 \<le> n \<and> rid = facilityId r @ ''__'' @ out @ ''__'' @ str_nat n \<and>
          outputs r = e # es \<and> itemId e = out))"
    using a unfolding aggregate_def
    by (rule facility_loop_recipes) (simp_all add: empty_agg_def)
  then show "\<forall>rid r. map_of (recipes st) rid = Some r \<longrightarrow>
         recipe_id r = rid \<and>
         (\<exists>out n e es. 1 \<le> n \<and> rid = facilityId r @ ''__'' @ out @ ''__'' @ str_nat n \<and>
             outputs r = e # es \<and> itemId e = out)"
    by (rule conjunct2)
  from inv have d: "distinct (map fst (recipes st))"
    by (rule conjunct1)
  from inv have k: "\<forall>k r. map_of (recipes st) k = Some r \<longrightarrow> recipe_id r = k"
    by blast
  show "distinct (map (\<lambda>kv. recipe_id (snd kv)) (recipes st))"
    unfolding ids_are_keys[OF d k] by (rule d)
next
  assume h: "recipe_loop fid rs [] st0 = Inr st1 \<and> map_of (facilities st0) fid = Some f"
  then have l: "recipe_loop fid rs [] st0 = Inr st1" and f: "map_of (facilities st0) fid = Some f"
    by simp_all
  from recipe_loop_outs[OF l] obtain outs where g: "gather first_out_id rs = Inr outs" ..
  let ?f1 = "f\<lparr>supportedRecipes := supportedRecipes f @ spec_recipe_ids fid outs\<rparr>"
  from recipe_loop_facilities[OF l g f] have m: "map_of (facilities st1) fid = Some ?f1"
    by (simp add: assigned_ids_spec)
  have n: "\<forall>rid \<in> set (spec_recipe_ids fid outs).
            \<exists>r. map_of (recipes st1) rid = Some r \<and> recipe_id r = rid \<and> facilityId r = fid"
    using recipe_loop_assigned[OF l g] by (simp add: assigned_ids_spec)
  show "\<exists>outs f1. gather first_out_id rs = Inr outs \<and>
         map_of (facilities st1) fid = Some f1 \<and>
         supportedRecipes f1 = supportedRecipes f @ spec_recipe_ids fid outs \<and>
         distinct (spec_recipe_ids fid outs) \<and>
         (\<forall>rid \<in> set (spec_recipe_ids fid outs).
            \<exists>r. map_of (recipes st1) rid = Some r \<and> recipe_id r = rid \<and> facilityId r = fid)"
    using g m n spec_recipe_ids_distinct[of fid outs]
    by (intro exI[of _ outs] exI[of _ ?f1]) simp
next
  have "str_nat 1 = ''1''" "str_nat 2 = ''2''"
    by (simp_all add: str_nat.simps digit_char_def)
  then show "spec_recipe_ids fid [out, out] =
      [fid @ ''__'' @ out @ ''__1'', fid @ ''__'' @ out @ ''__2'']"
    by (simp add: spec_recipe_ids_def make_recipe_id_def upt_rec numeral_2_eq_2)
qed

lemma smelter_recipe_loop:
  "recipe_loop ''Smelter'' smelter_recipes [] smelter_before_recipes = Inr smelter_after_recipes"
  by code_simp

lemma smelter_outs: "gather first_out_id smelter_recipes = Inr [''Iron_Ingot'', ''Iron_Ingot'']"
  by code_simp

theorem recipe_ids_unique_witness:
  "aggregate example_lib [''Smelter''] [smelter_page] = Inr smelter_agg \<and>
   distinct (map (\<lambda>kv. recipe_id (snd kv)) (recipes smelter_agg)) \<and>
   recipe_loop ''Smelter'' smelter_recipes [] smelter_before_recipes = Inr smelter_after_recipes \<and>
   gather first_out_id smelter_recipes = Inr [''Iron_Ingot'', ''Iron_Ingot''] \<and>
   spec_recipe_ids ''Smelter'' [''Iron_Ingot'', ''Iron_Ingot'']
     = [''Smelter__Iron_Ingot__1'', ''Smelter__Iron_Ingot__2''] \<and>
   (\<exists>f1. map_of (facilities smelter_after_recipes) ''Smelter'' = Some f1 \<and>
         supportedRecipes f1 = [''Smelter__Iron_Ingot__1'', ''Smelter__Iron_Ingot__2''])"
proof -
  let ?f = "\<lparr>fac_id = ''Smelter'', fac_name = ''Smelter'', fac_tier = Some ''2'',
             powerConsumption = PowerInt 0, supportedRecipes = [], fac_image = None\<rparr>"
  have f: "map_of (facilities smelter_before_recipes) ''Smelter'' = Some ?f"
    by (simp add: smelter_before_recipes_def)
  note inst = recipe_ids_unique [where lib = example_lib and facility_names = "[''Smelter'']"
      and results = "[smelter_page]" and st = smelter_agg and fid = "''Smelter''"
      and rs = smelter_recipes and ?st0.0 = smelter_before_recipes
      and ?st1.0 = smelter_after_recipes and f = ?f and out = "''Iron_Ingot''"]
  from inst smelter_aggregate
  have d: "distinct (map (\<lambda>kv. recipe_id (snd kv)) (recipes smelter_agg))"
    by blast
  from inst have "spec_recipe_ids ''Smelter'' [''Iron_Ingot'', ''Iron_Ingot'']
     = [''Smelter'' @ ''__'' @ ''Iron_Ingot'' @ ''__1'', ''Smelter'' @ ''__'' @ ''Iron_Ingot'' @ ''__2'']"
    by blast
  then have s: "spec_recipe_ids ''Smelter'' [''Iron_Ingot'', ''Iron_Ingot'']
     = [''Smelter__Iron_Ingot__1'', ''Smelter__Iron_Ingot__2'']"
    by simp
  from inst smelter_recipe_loop f
  obtain outs f1 where "gather first_out_id smelter_recipes = Inr outs"
    and m: "map_of (facilities smelter_after_recipes) ''Smelter'' = Some f1"
    and su: "supportedRecipes f1 = supportedRecipes ?f @ spec_recipe_ids ''Smelter'' outs"
    by blast
  with smelter_outs s have "supportedRecipes f1 = [''Smelter__Iron_Ingot__1'', ''Smelter__Iron_Ingot__2'']"
    by simp
  with m have ex: "\<exists>f1. map_of (facilities smelter_after_recipes) ''Smelter'' = Some f1 \<and>
         supportedRecipes f1 = [''Smelter__Iron_Ingot__1'', ''Smelter__Iron_Ingot__2'']"
    by blast
  show ?thesis
    by (rule conjI[OF smelter_aggregate conjI[OF d conjI[OF smelter_recipe_loop
          conjI[OF smelter_outs conjI[OF s ex]]]]])
qed

subsection \<open>Supported recipes of a facility\<close>

text \<open>
  C4, as stated, fails: two facility names with the same facility id share one facility
  record, which the second overwrites, while the recipes of the first stay in the map.
\<close>

theorem supported_recipes_counterexample:
  "aggregate example_lib [''Refining Unit'', ''Refining_Unit''] [unit_page_a, unit_page_b]
     = Inr unit_agg \<and>
   map_of (facilities unit_agg) ''Refining_Unit'' = Some unit_fac \<and>
   map_of (recipes unit_agg) ''Refining_Unit__Ingot__1'' = Some unit_recipe \<and>
   facilityId unit_recipe = ''Refining_Unit'' \<and>
   ''Refining_Unit__Ingot__1'' \<notin> set (supportedRecipes unit_fac)"
proof -
  have a: "aggregate example_lib [''Refining Unit'', ''Refining_Unit''] [unit_page_a, unit_page_b]
     = Inr unit_agg"
    by code_simp
  show ?thesis
    using a by (simp add: unit_agg_def unit_fac_def unit_recipe_def)
qed

lemma facility_step_supported:
  assumes step: "facility_step lib np st = Inr st'"
    and fresh: "replace_space (fst np) \<notin> fst ` set (facilities st)"
    and disj: "set (facility_recipe_ids np) \<inter> fst ` set (recipes st) = {}"
    and inv_a0: "\<forall>fid f. map_of (facilities st) fid = Some f \<longrightarrow>
        distinct (supportedRecipes f) \<and>
        set (supportedRecipes f) = {rid. \<exists>r. map_of (recipes st) rid = Some r \<and> facilityId r = fid}"
    and inv_b0: "\<forall>rid r. map_of (recipes st) rid = Some r \<longrightarrow>
        facilityId r \<in> fst ` set (facilities st)"
  shows "fst ` set (facilities st') = insert (replace_space (fst np)) (fst ` set (facilities st))"
    and "fst ` set (recipes st') = fst ` set (recipes st) \<union> set (facility_recipe_ids np)"
    and "\<forall>fid f. map_of (facilities st') fid = Some f \<longrightarrow>
        distinct (supportedRecipes f) \<and>
        set (supportedRecipes f) = {rid. \<exists>r. map_of (recipes st') rid = Some r \<and> facilityId r = fid}"
    and "\<forall>rid r. map_of (recipes st') rid = Some r \<longrightarrow>
        facilityId r \<in> fst ` set (facilities st')"
proof -
  have inv_a: "distinct (supportedRecipes f) \<and>
        set (supportedRecipes f) = {rid. \<exists>r. map_of (recipes st) rid = Some r \<and> facilityId r = fid}"
    if "map_of (facilities st) fid = Some f" for fid f
    using inv_a0 that by blast
  have inv_b: "facilityId r \<in> fst ` set (facilities st)"
    if "map_of (recipes st) rid = Some r" for rid r
    using inv_b0 that by blast
  let ?fid = "replace_space (fst np)"
  let ?rs = "facility_recipes (snd np)"
  from facility_step_Inr[OF step] obtain jobs fac its st1 where
    sup0: "supportedRecipes fac = []" and
    l: "recipe_loop ?fid ?rs []
          (st\<lparr>img_jobs := jobs, facilities := AList.update ?fid fac (facilities st),
             items := its\<rparr>) = Inr st1" and
    t: "thumb_loop lib (item_img_srcs (snd np)) st1 = Inr st'"
    by blast
  let ?st0 = "st\<lparr>img_jobs := jobs, facilities := AList.update ?fid fac (facilities st),
             items := its\<rparr>"
  from thumb_loop_others[OF t] have same: "recipes st' = recipes st1" "facilities st' = facilities st1"
    by simp_all
  from recipe_loop_outs[OF l] obtain outs where g: "gather first_out_id ?rs = Inr outs" ..
  let ?ids = "spec_recipe_ids ?fid outs"
  from g have ids: "facility_recipe_ids np = ?ids"
    by (simp add: facility_recipe_ids_def)
  have f0: "map_of (facilities ?st0) ?fid = Some fac"
    by (simp add: update_conv')
  from recipe_loop_facilities[OF l g f0] sup0
  have fm: "map_of (facilities st1) = (map_of (facilities st))(?fid \<mapsto> fac\<lparr>supportedRecipes := ?ids\<rparr>)"
    and fk: "map fst (facilities st1) = map fst (AList.update ?fid fac (facilities st))"
    by (simp_all add: update_conv' assigned_ids_spec)
  from fk have "set (map fst (facilities st1)) = set (map fst (AList.update ?fid fac (facilities st)))"
    by simp
  then have fkeys: "fst ` set (facilities st1) = insert ?fid (fst ` set (facilities st))"
    by (simp add: dom_update)
  from recipe_loop_recipe_keys[OF l g]
  have rkeys: "fst ` set (recipes st1) = fst ` set (recipes st) \<union> set ?ids"
    by (simp add: assigned_ids_spec)
  have old: "map_of (recipes st1) rid = map_of (recipes st) rid" if "rid \<notin> set ?ids" for rid
    using recipe_loop_old[OF l g, of rid] that by (simp add: assigned_ids_spec)
  have new: "\<exists>r. map_of (recipes st1) rid = Some r \<and> facilityId r = ?fid" if "rid \<in> set ?ids" for rid
    using recipe_loop_assigned[OF l g, of rid] that by (auto simp: assigned_ids_spec)
  have notold: "map_of (recipes st) rid = None" if "rid \<in> set ?ids" for rid
  proof -
    from that disj ids have "rid \<notin> fst ` set (recipes st)" by auto
    then show ?thesis by (simp add: map_of_eq_None_iff)
  qed
  show "fst ` set (facilities st') = insert ?fid (fst ` set (facilities st))"
    using fkeys same by simp
  show "fst ` set (recipes st') = fst ` set (recipes st) \<union> set (facility_recipe_ids np)"
    using rkeys same ids by simp
  have b': "facilityId r \<in> fst ` set (facilities st')" if "map_of (recipes st') rid = Some r" for rid r
  proof (cases "rid \<in> set ?ids")
    case True
    from new[OF True] that same have "facilityId r = ?fid" by simp
    with fkeys same show ?thesis by simp
  next
    case False
    from old[OF False] that same have "map_of (recipes st) rid = Some r" by simp
    from inv_b[OF this] fkeys same show ?thesis by simp
  qed
  then show "\<forall>rid r. map_of (recipes st') rid = Some r \<longrightarrow>
        facilityId r \<in> fst ` set (facilities st')"
    by blast
  have a': "distinct (supportedRecipes f) \<and>
        set (supportedRecipes f) = {rid. \<exists>r. map_of (recipes st') rid = Some r \<and> facilityId r = fid}"
    if m: "map_of (facilities st') fid = Some f" for fid f
  proof (cases "fid = ?fid")
    case True
    with m same fm have f: "f = fac\<lparr>supportedRecipes := ?ids\<rparr>" by simp
    have "set ?ids = {rid. \<exists>r. map_of (recipes st1) rid = Some r \<and> facilityId r = ?fid}"
    proof (intro set_eqI iffI)
      fix rid assume "rid \<in> set ?ids"
      from new[OF this] show "rid \<in> {rid. \<exists>r. map_of (recipes st1) rid = Some r \<and> facilityId r = ?fid}"
        by simp
    next
      fix rid assume "rid \<in> {rid. \<exists>r. map_of (recipes st1) rid = Some r \<and> facilityId r = ?fid}"
      then obtain r where r: "map_of (recipes st1) rid = Some r" and fr: "facilityId r = ?fid"
        by blast
      show "rid \<in> set ?ids"
      proof (rule ccontr)
        assume n: "rid \<notin> set ?ids"
        from old[OF n] r have "map_of (recipes st) rid = Some r" by simp
        from inv_b[OF this] fr fresh show False by simp
      qed
    qed
    with f True same spec_recipe_ids_distinct[of ?fid outs] show ?thesis by simp
  next
    case False
    with m same fm have mo: "map_of (facilities st) fid = Some f" by simp
    have "{rid. \<exists>r. map_of (recipes st) rid = Some r \<and> facilityId r = fid} =
          {rid. \<exists>r. map_of (recipes st1) rid = Some r \<and> facilityId r = fid}"
    proof (intro set_eqI iffI)
      fix rid assume "rid \<in> {rid. \<exists>r. map_of (recipes st) rid = Some r \<and> facilityId r = fid}"
      then obtain r where r: "map_of (recipes st) rid = Some r" and fr: "facilityId r = fid"
        by blast
      from r notold[of rid] have "rid \<notin> set ?ids" by auto
      from old[OF this] r have "map_of (recipes st1) rid = Some r" by simp
      with fr show "rid \<in> {rid. \<exists>r. map_of (recipes st1) rid = Some r \<and> facilityId r = fid}"
        by blast
    next
      fix rid assume "rid \<in> {rid. \<exists>r. map_of (recipes st1) rid = Some r \<and> facilityId r = fid}"
      then obtain r where r: "map_of (recipes st1) rid = Some r" and fr: "facilityId r = fid"
        by blast
      have "rid \<notin> set ?ids"
      proof
        assume "rid \<in> set ?ids"
        from new[OF this] r fr False show False by simp
      qed
      from old[OF this] r have "map_of (recipes st) rid = Some r" by simp
      with fr show "rid \<in> {rid. \<exists>r. map_of (recipes st) rid = Some r \<and> facilityId r = fid}"
        by blast
    qed
    with inv_a[OF mo] same show ?thesis by simp
  qed
  then show "\<forall>fid f. map_of (facilities st') fid = Some f \<longrightarrow>
        distinct (supportedRecipes f) \<and>
        set (supportedRecipes f) = {rid. \<exists>r. map_of (recipes st') rid = Some r \<and> facilityId r = fid}"
    by blast
qed

lemma facility_loop_supported:
  "facility_loop lib nps st = Inr st' \<Longrightarrow>
   distinct (map (\<lambda>np. replace_space (fst np)) nps) \<Longrightarrow>
   (\<forall>np \<in> set nps. replace_space (fst np) \<notin> fst ` set (facilities st)) \<Longrightarrow>
   distinct (concat (map facility_recipe_ids nps)) \<Longrightarrow>
   (\<forall>np \<in> set nps. set (facility_recipe_ids np) \<inter> fst ` set (recipes st) = {}) \<Longrightarrow>
   (\<forall>fid f. map_of (facilities st) fid = Some f \<longrightarrow>
        distinct (supportedRecipes f) \<and>
        set (supportedRecipes f) = {rid. \<exists>r. map_of (recipes st) rid = Some r \<and> facilityId r = fid}) \<Longrightarrow>
   (\<forall>rid r. map_of (recipes st) rid = Some r \<longrightarrow> facilityId r \<in> fst ` set (facilities st)) \<Longrightarrow>
   (\<forall>fid f. map_of (facilities st') fid = Some f \<longrightarrow>
        distinct (supportedRecipes f) \<and>
        set (supportedRecipes f) = {rid. \<exists>r. map_of (recipes st') rid = Some r \<and> facilityId r = fid})"
proof (induction nps arbitrary: st)
  case Nil
  then show ?case by simp
next
  case (Cons np nps)
  from Cons.prems(1) obtain st1 where s: "facility_step lib np st = Inr st1"
    and l: "facility_loop lib nps st1 = Inr st'"
    by (auto split: sum.splits)
  have fresh: "replace_space (fst np) \<notin> fst ` set (facilities st)"
    using Cons.prems(3) by simp
  have disj: "set (facility_recipe_ids np) \<inter> fst ` set (recipes st) = {}"
    using Cons.prems(5) by simp
  note step = facility_step_supported[OF s fresh disj Cons.prems(6) Cons.prems(7)]
  have p2: "distinct (map (\<lambda>np. replace_space (fst np)) nps)"
    using Cons.prems(2) by simp
  have p3: "\<forall>q \<in> set nps. replace_space (fst q) \<notin> fst ` set (facilities st1)"
  proof
    fix q assume q: "q \<in> set nps"
    from Cons.prems(2) have "replace_space (fst np) \<notin> (\<lambda>np. replace_space (fst np)) ` set nps"
      by simp
    with q have "replace_space (fst q) \<noteq> replace_space (fst np)"
      by (metis image_eqI)
    moreover from q Cons.prems(3) have "replace_space (fst q) \<notin> fst ` set (facilities st)"
      by simp
    ultimately show "replace_space (fst q) \<notin> fst ` set (facilities st1)"
      using step(1) by simp
  qed
  have p4: "distinct (concat (map facility_recipe_ids nps))"
    using Cons.prems(4) by simp
  have p5: "\<forall>q \<in> set nps. set (facility_recipe_ids q) \<inter> fst ` set (recipes st1) = {}"
  proof
    fix q assume q: "q \<in> set nps"
    with Cons.prems(4) have "set (facility_recipe_ids q) \<inter> set (facility_recipe_ids np) = {}"
      by auto
    moreover from q Cons.prems(5) have "set (facility_recipe_ids q) \<inter> fst ` set (recipes st) = {}"
      by simp
    ultimately have "set (facility_recipe_ids q) \<inter>
        (fst ` set (recipes st) \<union> set (facility_recipe_ids np)) = {}"
      by (simp add: Int_Un_distrib)
    then show "set (facility_recipe_ids q) \<inter> fst ` set (recipes st1) = {}"
      by (simp only: step(2))
  qed
  note p6 = step(3)
  note p7 = step(4)
  from Cons.IH[OF l p2 p3 p4 p5 p6 p7] show ?case .
qed

text \<open>
  C4, amended. If the facility names give pairwise distinct facility ids, and no recipe id is
  generated twice in the run, then after the aggregation loop the \<^verbatim>\<open>supportedRecipes\<close> of
  every facility record has no duplicates and holds exactly the ids of the recipes in the
  recipes map whose \<^verbatim>\<open>facilityId\<close> is the facility's id.
\<close>

theorem supported_recipes_exact:
  assumes "aggregate lib facility_names results = Inr st"
    and "distinct (map (\<lambda>np. replace_space (fst np)) (zip facility_names results))"
    and "distinct (concat (map facility_recipe_ids (zip facility_names results)))"
    and "map_of (facilities st) fid = Some f"
  shows "distinct (supportedRecipes f) \<and>
         set (supportedRecipes f) = {rid. \<exists>r. map_of (recipes st) rid = Some r \<and> facilityId r = fid}"
proof -
  have "\<forall>fid f. map_of (facilities st) fid = Some f \<longrightarrow>
        distinct (supportedRecipes f) \<and>
        set (supportedRecipes f) = {rid. \<exists>r. map_of (recipes st) rid = Some r \<and> facilityId r = fid}"
    using assms(1) unfolding aggregate_def
    by (rule facility_loop_supported) (simp_all add: assms(2,3) empty_agg_def)
  with assms(4) show ?thesis by blast
qed

theorem supported_recipes_exact_witness:
  "aggregate example_lib [''Smelter''] [smelter_page] = Inr smelter_agg \<and>
   distinct (map (\<lambda>np. replace_space (fst np)) (zip [''Smelter''] [smelter_page])) \<and>
   distinct (concat (map facility_recipe_ids (zip [''Smelter''] [smelter_page]))) \<and>
   (\<exists>f. map_of (facilities smelter_agg) ''Smelter'' = Some f \<and>
        supportedRecipes f = [''Smelter__Iron_Ingot__1'', ''Smelter__Iron_Ingot__2''] \<and>
        set (supportedRecipes f) =
          {rid. \<exists>r. map_of (recipes smelter_agg) rid = Some r \<and> facilityId r = ''Smelter''})"
proof -
  let ?f = "\<lparr>fac_id = ''Smelter'', fac_name = ''Smelter'', fac_tier = Some ''2'',
             powerConsumption = PowerInt 0,
             supportedRecipes = [''Smelter__Iron_Ingot__1'', ''Smelter__Iron_Ingot__2''],
             fac_image = None\<rparr>"
  have d1: "distinct (map (\<lambda>np. replace_space (fst np)) (zip [''Smelter''] [smelter_page]))"
    by simp
  have ids: "facility_recipe_ids (''Smelter'', smelter_page)
               = [''Smelter__Iron_Ingot__1'', ''Smelter__Iron_Ingot__2'']"
    by code_simp
  have d2: "distinct (concat (map facility_recipe_ids (zip [''Smelter''] [smelter_page])))"
    by (simp add: ids)
  have m: "map_of (facilities smelter_agg) ''Smelter'' = Some ?f"
    by (simp add: smelter_agg_def)
  from supported_recipes_exact[OF smelter_aggregate d1 d2 m]
  have "set (supportedRecipes ?f) =
          {rid. \<exists>r. map_of (recipes smelter_agg) rid = Some r \<and> facilityId r = ''Smelter''}"
    by (rule conjunct2)
  with m have "\<exists>f. map_of (facilities smelter_agg) ''Smelter'' = Some f \<and>
        supportedRecipes f = [''Smelter__Iron_Ingot__1'', ''Smelter__Iron_Ingot__2''] \<and>
        set (supportedRecipes f) =
          {rid. \<exists>r. map_of (recipes smelter_agg) rid = Some r \<and> facilityId r = ''Smelter''}"
    by (intro exI[of _ ?f]) simp
  then have ex: "\<exists>f. map_of (facilities smelter_agg) ''Smelter'' = Some f \<and>
        supportedRecipes f = [''Smelter__Iron_Ingot__1'', ''Smelter__Iron_Ingot__2''] \<and>
        set (supportedRecipes f) =
          {rid. \<exists>r. map_of (recipes smelter_agg) rid = Some r \<and> facilityId r = ''Smelter''}" .
  show ?thesis
    by (rule conjI[OF smelter_aggregate conjI[OF d1 conjI[OF d2 ex]]])
qed

section \<open>Properties of the item details pass\<close>

lemma gather_nth:
  "gather f xs = Inr ys \<Longrightarrow> length ys = length xs \<and> (\<forall>i < length xs. f (xs ! i) = Inr (ys ! i))"
proof (induction xs arbitrary: ys)
  case Nil
  then show ?case by simp
next
  case (Cons x xs)
  from gather_Cons_Inr[OF Cons.prems] obtain y ys' where
    y: "f x = Inr y" and g: "gather f xs = Inr ys'" and ys: "ys = y # ys'"
    by blast
  from Cons.IH[OF g] y ys show ?case
    by (auto simp: nth_Cons split: nat.splits)
qed

lemma detail_step_fields:
  assumes "detail_step lib it res jobs = Inr (it', jobs')"
  shows "item_id it' = item_id it \<and> item_name_en it' = item_name_en it \<and>
         item_tier it' = (if truthy (map_of (snd res) ''Tier'') then map_of (snd res) ''Tier''
                          else item_tier it) \<and>
         (truthy (fst res) \<longrightarrow>
            (\<exists>u fn. fst res = Some u \<and> basename_no_query u = Inr fn \<and>
               item_image it' = Some (''images/items/'' @ unquote lib fn))) \<and>
         (\<not> truthy (fst res) \<longrightarrow> item_image it' = item_image it)"
  using assms
  by (cases "fst res") (auto simp: detail_step_def Let_def split: sum.splits if_splits)

lemma detail_loop_nth:
  "detail_loop lib kvs results jobs = Inr (kvs', jobs') \<Longrightarrow> length results = length kvs \<Longrightarrow>
   map fst kvs' = map fst kvs \<and>
   (\<forall>i < length kvs. \<exists>j1 j2.
       detail_step lib (snd (kvs ! i)) (results ! i) j1 = Inr (snd (kvs' ! i), j2))"
proof (induction lib kvs results jobs arbitrary: kvs' jobs' rule: detail_loop.induct)
  case (1 lib results jobs)
  then show ?case by simp
next
  case (2 lib kv kvs jobs)
  then show ?case by simp
next
  case (3 lib kv kvs res results jobs)
  from "3.prems"(1) obtain it jobs1 kvs1 where
    s: "detail_step lib (snd kv) res jobs = Inr (it, jobs1)" and
    l: "detail_loop lib kvs results jobs1 = Inr (kvs1, jobs')" and
    k: "kvs' = (fst kv, it) # kvs1"
    by (auto split: sum.splits prod.splits)
  from "3.prems"(2) have len: "length results = length kvs" by simp
  from "3.IH"[OF s refl l len] have
    ih1: "map fst kvs1 = map fst kvs" and
    ih2: "\<forall>i < length kvs. \<exists>j1 j2.
       detail_step lib (snd (kvs ! i)) (results ! i) j1 = Inr (snd (kvs1 ! i), j2)"
    by simp_all
  have "\<exists>j1 j2. detail_step lib (snd ((kv # kvs) ! i)) ((res # results) ! i) j1
                  = Inr (snd (kvs' ! i), j2)"
    if "i < length (kv # kvs)" for i
  proof (cases i)
    case 0
    with s k show ?thesis by auto
  next
    case (Suc j)
    with that ih2 k show ?thesis by simp
  qed
  with ih1 k show ?case by simp
qed

lemma store_row_values:
  "(\<forall>k v. map_of info k = Some v \<longrightarrow> k \<noteq> [] \<and> v \<noteq> []) \<Longrightarrow>
   map_of (store_row label val info) k = Some v \<Longrightarrow> k \<noteq> [] \<and> v \<noteq> []"
  by (cases label; cases val) (auto simp: update_conv' split: if_splits)

lemma general_info_loop_values:
  "general_info_loop info rows = Inr info' \<Longrightarrow>
   (\<forall>k v. map_of info k = Some v \<longrightarrow> k \<noteq> [] \<and> v \<noteq> []) \<Longrightarrow>
   (\<forall>k v. map_of info' k = Some v \<longrightarrow> k \<noteq> [] \<and> v \<noteq> [])"
proof (induction rows arbitrary: info)
  case Nil
  then show ?case by simp
next
  case (Cons row rows)
  from Cons.prems(1) obtain label where
    l: "general_info_loop (store_row label (row_value row) info) rows = Inr info'"
    by (auto split: sum.splits)
  have "\<forall>k v. map_of (store_row label (row_value row) info) k = Some v \<longrightarrow> k \<noteq> [] \<and> v \<noteq> []"
    using store_row_values[OF Cons.prems(2)] by blast
  from Cons.IH[OF l this] show ?case .
qed

lemma get_general_info_values:
  "get_general_info tree = Inr info \<Longrightarrow> map_of info k = Some v \<Longrightarrow> k \<noteq> [] \<and> v \<noteq> []"
  unfolding get_general_info_def
  using general_info_loop_values[of "[]" "data_items tree" info] by simp

lemma item_page_tier:
  "get_item_info_page wiki name = Inr (image_src, info) \<Longrightarrow>
   truthy (map_of info ''Tier'') = (map_of info ''Tier'' \<noteq> None)"
proof -
  assume "get_item_info_page wiki name = Inr (image_src, info)"
  then obtain tree where "get_general_info tree = Inr info"
    by (auto simp: get_item_info_page_def split: sum.splits)
  from get_general_info_values[OF this, of "''Tier''"] show ?thesis
    by (cases "map_of info ''Tier''") simp_all
qed

text \<open>
  C9. The item details pass keeps the keys of the items map and their order, and the item at
  each position is updated with the result of fetching the page of that very item's name: id
  and name stay, the tier becomes the page's \<^verbatim>\<open>Tier\<close> when the general information has one, and
  the image becomes the path made from the page's main image when there is one (a non-empty
  \<^verbatim>\<open>src\<close>), whatever the image was before; otherwise tier and image stay.
\<close>

theorem item_details_paired:
  assumes "item_details lib wiki st = Inr st'"
  shows "map fst (items st') = map fst (items st) \<and>
    (\<forall>i < length (items st). \<exists>image_src info.
       get_item_info_page wiki (item_name_en (snd (items st ! i))) = Inr (image_src, info) \<and>
       item_id (snd (items st' ! i)) = item_id (snd (items st ! i)) \<and>
       item_name_en (snd (items st' ! i)) = item_name_en (snd (items st ! i)) \<and>
       item_tier (snd (items st' ! i)) =
         (case map_of info ''Tier'' of None \<Rightarrow> item_tier (snd (items st ! i))
          | Some t \<Rightarrow> Some t) \<and>
       (truthy image_src \<longrightarrow>
          (\<exists>u fn. image_src = Some u \<and> basename_no_query u = Inr fn \<and>
             item_image (snd (items st' ! i)) = Some (''images/items/'' @ unquote lib fn))) \<and>
       (\<not> truthy image_src \<longrightarrow>
          item_image (snd (items st' ! i)) = item_image (snd (items st ! i))))"
proof -
  let ?names = "map (\<lambda>kv. item_name_en (snd kv)) (items st)"
  from assms obtain results its jobs where
    g: "gather (get_item_info_page wiki) ?names = Inr results" and
    l: "detail_loop lib (items st) results (img_jobs st) = Inr (its, jobs)" and
    st': "st' = st\<lparr>items := its, img_jobs := jobs\<rparr>"
    by (auto simp: item_details_def Let_def split: sum.splits prod.splits)
  from gather_nth[OF g] have len: "length results = length (items st)"
    and res: "\<forall>i < length (items st).
       get_item_info_page wiki (item_name_en (snd (items st ! i))) = Inr (results ! i)"
    by simp_all
  from detail_loop_nth[OF l len] have keys: "map fst its = map fst (items st)"
    and steps: "\<forall>i < length (items st). \<exists>j1 j2.
       detail_step lib (snd (items st ! i)) (results ! i) j1 = Inr (snd (its ! i), j2)"
    by simp_all
  have "\<exists>image_src info.
       get_item_info_page wiki (item_name_en (snd (items st ! i))) = Inr (image_src, info) \<and>
       item_id (snd (its ! i)) = item_id (snd (items st ! i)) \<and>
       item_name_en (snd (its ! i)) = item_name_en (snd (items st ! i)) \<and>
       item_tier (snd (its ! i)) =
         (case map_of info ''Tier'' of None \<Rightarrow> item_tier (snd (items st ! i))
          | Some t \<Rightarrow> Some t) \<and>
       (truthy image_src \<longrightarrow>
          (\<exists>u fn. image_src = Some u \<and> basename_no_query u = Inr fn \<and>
             item_image (snd (its ! i)) = Some (''images/items/'' @ unquote lib fn))) \<and>
       (\<not> truthy image_src \<longrightarrow>
          item_image (snd (its ! i)) = item_image (snd (items st ! i)))"
    if i: "i < length (items st)" for i
  proof -
    from steps i obtain j1 j2 where
      s: "detail_step lib (snd (items st ! i)) (results ! i) j1 = Inr (snd (its ! i), j2)"
      by blast
    from res i have r: "get_item_info_page wiki (item_name_en (snd (items st ! i)))
                          = Inr (fst (results ! i), snd (results ! i))"
      by simp
    from item_page_tier[OF r]
    have t: "truthy (map_of (snd (results ! i)) ''Tier'') = (map_of (snd (results ! i)) ''Tier'' \<noteq> None)" .
    from detail_step_fields[OF s] r t show ?thesis
      by (intro exI[of _ "fst (results ! i)"] exI[of _ "snd (results ! i)"])
         (auto split: option.splits)
  qed
  with keys st' show ?thesis by simp
qed

lemma ore_item_page:
  "get_item_info_page example_wiki ''Iron Ore''
     = Inr (Some ''/images/Iron_Ore_icon.png?5a1'', [(''Tier'', ''2'')])"
  by code_simp

lemma ore_details: "item_details example_lib example_wiki ore_thumb_agg = Inr ore_detail_agg"
  by code_simp

theorem item_details_paired_witness:
  "item_details example_lib example_wiki ore_thumb_agg = Inr ore_detail_agg \<and>
   map fst (items ore_detail_agg) = map fst (items ore_thumb_agg) \<and>
   get_item_info_page example_wiki (item_name_en (snd (items ore_thumb_agg ! 0)))
     = Inr (Some ''/images/Iron_Ore_icon.png?5a1'', [(''Tier'', ''2'')]) \<and>
   item_image (snd (items ore_thumb_agg ! 0)) = Some ''images/items/Iron_Ore.png'' \<and>
   item_image (snd (items ore_detail_agg ! 0)) = Some ''images/items/Iron_Ore_icon.png'' \<and>
   item_tier (snd (items ore_detail_agg ! 0)) = Some ''2''"
proof -
  from item_details_paired[OF ore_details]
  have k: "map fst (items ore_detail_agg) = map fst (items ore_thumb_agg)"
    by (rule conjunct1)
  have p: "get_item_info_page example_wiki (item_name_en (snd (items ore_thumb_agg ! 0)))
     = Inr (Some ''/images/Iron_Ore_icon.png?5a1'', [(''Tier'', ''2'')])"
    using ore_item_page by (simp add: ore_thumb_agg_def ore_agg_def ore_item_def)
  have a: "item_image (snd (items ore_thumb_agg ! 0)) = Some ''images/items/Iron_Ore.png''"
    by (simp add: ore_thumb_agg_def)
  have b: "item_image (snd (items ore_detail_agg ! 0)) = Some ''images/items/Iron_Ore_icon.png''"
    by (simp add: ore_detail_agg_def)
  have c: "item_tier (snd (items ore_detail_agg ! 0)) = Some ''2''"
    by (simp add: ore_detail_agg_def)
  show ?thesis
    by (rule conjI[OF ore_details conjI[OF k conjI[OF p conjI[OF a conjI[OF b c]]]]])
qed

section \<open>Properties of the general information\<close>

text \<open>
  C6, as stated, fails: a page whose label element has no text in front of its first child
  makes \<^verbatim>\<open>get_general_info\<close> raise instead of returning a mapping.
\<close>

theorem general_info_counterexample:
  "get_general_info bold_label_page = Inl AttributeError"
  by code_simp

lemma store_row_spec:
  "row_label item = Inr label \<Longrightarrow>
   map_of (store_row label (row_value item) info) =
     map_of info ++ map_of (case spec_row_entry item of None \<Rightarrow> [] | Some e \<Rightarrow> [e])"
  by (cases "label_el item"; cases "value_elements item")
     (auto simp: row_label_def row_value_def spec_row_entry_def update_conv' fun_eq_iff map_add_def
           split: option.splits)

lemma row_label_raises:
  "row_label item = Inl e \<longleftrightarrow>
     e = AttributeError \<and> (\<exists>l ls. label_el item = l # ls \<and> el_text l = None)"
  by (cases "label_el item") (auto simp: row_label_def split: option.splits)

lemma general_info_loop_spec:
  "general_info_loop info rows = Inr info' \<Longrightarrow>
   map_of info' = map_of info ++ map_of (rev (spec_general_info rows))"
proof (induction rows arbitrary: info)
  case Nil
  then show ?case by (simp add: spec_general_info_def)
next
  case (Cons row rows)
  from Cons.prems obtain label where lab: "row_label row = Inr label" and
    l: "general_info_loop (store_row label (row_value row) info) rows = Inr info'"
    by (auto split: sum.splits)
  from Cons.IH[OF l] store_row_spec[OF lab, of info]
  have "map_of info' = (map_of info ++
          map_of (case spec_row_entry row of None \<Rightarrow> [] | Some e \<Rightarrow> [e])) ++
          map_of (rev (spec_general_info rows))"
    by simp
  then show ?case
    by (cases "spec_row_entry row") (simp_all add: spec_general_info_def)
qed

lemma row_label_cases: "row_label item = Inl AttributeError \<or> (\<exists>label. row_label item = Inr label)"
  by (cases "label_el item") (auto simp: row_label_def split: option.splits)

lemma general_info_loop_raises:
  "(\<exists>e. general_info_loop info rows = Inl e) \<longleftrightarrow>
   (\<exists>item \<in> set rows. row_label item = Inl AttributeError)"
proof (induction rows arbitrary: info)
  case Nil
  then show ?case by simp
next
  case (Cons row rows)
  from row_label_cases[of row] show ?case
  proof
    assume "row_label row = Inl AttributeError"
    then show ?thesis by simp
  next
    assume "\<exists>label. row_label row = Inr label"
    then obtain label where lab: "row_label row = Inr label" ..
    then have "(\<exists>e. general_info_loop info (row # rows) = Inl e) \<longleftrightarrow>
        (\<exists>e. general_info_loop (store_row label (row_value row) info) rows = Inl e)"
      by simp
    also have "\<dots> \<longleftrightarrow> (\<exists>item \<in> set rows. row_label item = Inl AttributeError)"
      by (rule Cons.IH)
    also have "\<dots> \<longleftrightarrow> (\<exists>item \<in> set (row # rows). row_label item = Inl AttributeError)"
      using lab by simp
    finally show ?thesis .
  qed
qed

lemma general_info_loop_error:
  "general_info_loop info rows = Inl e \<Longrightarrow> e = AttributeError"
proof (induction rows arbitrary: info)
  case Nil
  then show ?case by simp
next
  case (Cons row rows)
  then show ?case
    using row_label_raises[of row e] by (auto split: sum.splits)
qed

lemma space_is_space: "is_space CHR '' ''"
  by (simp add: is_space_def)

lemma join_spaces_filter:
  "filter (\<lambda>c. \<not> is_space c) (py_join '' '' xs) = filter (\<lambda>c. \<not> is_space c) (concat xs)"
  by (induction "'' ''" xs rule: py_join.induct) (simp_all add: space_is_space)

lemma strip_single:
  assumes "filter (\<lambda>c. \<not> is_space c) s = [c]"
  shows "py_strip s = [c]"
proof -
  from assms obtain us vs where s: "s = us @ c # vs" and us: "\<forall>u \<in> set us. is_space u"
    and c: "\<not> is_space c" and vs: "filter (\<lambda>c. \<not> is_space c) vs = []"
    by (auto simp: filter_eq_Cons_iff)
  from vs have vs': "\<forall>v \<in> set vs. is_space v"
    by (simp add: filter_empty_conv)
  from us c have d1: "dropWhile is_space s = c # vs"
    unfolding s by simp
  from vs' have "dropWhile is_space (rev vs @ [c]) = dropWhile is_space [c]"
    by (intro dropWhile_append2) simp
  with c have "dropWhile is_space (rev (c # vs)) = [c]"
    by simp
  with d1 show ?thesis
    by (simp add: py_strip_def)
qed

lemma tier_value_example: "concat xs = '' 2 '' \<Longrightarrow> py_strip (py_join '' '' xs) = ''2''"
proof -
  assume "concat xs = '' 2 ''"
  moreover have "filter (\<lambda>c. \<not> is_space c) '' 2 '' = ''2''"
    by (simp add: is_space_def)
  ultimately have "filter (\<lambda>c. \<not> is_space c) (py_join '' '' xs) = ''2''"
    by (simp only: join_spaces_filter)
  then show ?thesis by (rule strip_single)
qed

lemma tier_label_example: "py_strip '' Tier '' = ''Tier''"
  by (simp add: py_strip_def is_space_def)

lemma spec_entry_in_rows:
  "map_of (rev (spec_general_info rows)) k = Some v \<Longrightarrow>
   \<exists>item \<in> set rows. spec_row_entry item = Some (k, v)"
proof -
  assume "map_of (rev (spec_general_info rows)) k = Some v"
  then have "(k, v) \<in> set (spec_general_info rows)"
    by (auto dest: map_of_SomeD)
  then show ?thesis
    by (auto simp: spec_general_info_def map_filter_def)
qed

lemma spec_row_entry_Some:
  "spec_row_entry item = Some (k, v) \<Longrightarrow>
   \<exists>l ls ve ves t. label_el item = l # ls \<and> el_text l = Some t \<and> k = py_strip t \<and>
      value_elements item = ve # ves \<and> v = py_strip (py_join '' '' (text_nodes ve))"
  by (cases "label_el item"; cases "value_elements item")
     (auto simp: spec_row_entry_def split: option.splits if_splits)

text \<open>
  C6, amended. \<^verbatim>\<open>get_general_info\<close> raises, and then an \<^verbatim>\<open>AttributeError\<close>, exactly when
  some data row has a label element whose \<^verbatim>\<open>.text\<close> is \<^verbatim>\<open>None\<close>. Otherwise it returns the
  mapping of \<open>spec_general_info\<close>, a later row replacing an earlier one with the same label:
  every entry has as key the trimmed \<^verbatim>\<open>.text\<close> of the first label element of a row and as
  value the trimmed, space-joined descendant text of the row's first value element, and a row
  without label element or without value element has no entry. A row whose label text is
  \<^verbatim>\<open>" Tier "\<close> and whose value texts concatenate to \<^verbatim>\<open>" 2 "\<close> has the entry
  \<^verbatim>\<open>("Tier", "2")\<close>.
\<close>

theorem general_info_amended:
  "((\<exists>e. get_general_info tree = Inl e) \<longleftrightarrow>
      (\<exists>item \<in> set (data_items tree). \<exists>l ls. label_el item = l # ls \<and> el_text l = None)) \<and>
   (\<forall>e. get_general_info tree = Inl e \<longrightarrow> e = AttributeError) \<and>
   (get_general_info tree = Inr info \<longrightarrow>
      map_of info = map_of (rev (spec_general_info (data_items tree))) \<and>
      (\<forall>k v. map_of info k = Some v \<longrightarrow>
         (\<exists>item \<in> set (data_items tree). \<exists>l ls ve ves t.
             label_el item = l # ls \<and> el_text l = Some t \<and> k = py_strip t \<and>
             value_elements item = ve # ves \<and> v = py_strip (py_join '' '' (text_nodes ve))))) \<and>
   (label_el row = [] \<or> value_elements row = [] \<longrightarrow> spec_row_entry row = None) \<and>
   (label_el row = l0 # ls0 \<and> el_text l0 = Some '' Tier '' \<and> value_elements row = v0 # vs0 \<and>
    concat (text_nodes v0) = '' 2 '' \<longrightarrow> spec_row_entry row = Some (''Tier'', ''2''))"
proof (intro conjI)
  have "(\<exists>e. get_general_info tree = Inl e) \<longleftrightarrow>
        (\<exists>item \<in> set (data_items tree). row_label item = Inl AttributeError)"
    unfolding get_general_info_def by (rule general_info_loop_raises)
  also have "\<dots> \<longleftrightarrow>
      (\<exists>item \<in> set (data_items tree). \<exists>l ls. label_el item = l # ls \<and> el_text l = None)"
    by (simp add: row_label_raises)
  finally show "(\<exists>e. get_general_info tree = Inl e) \<longleftrightarrow>
      (\<exists>item \<in> set (data_items tree). \<exists>l ls. label_el item = l # ls \<and> el_text l = None)" .
next
  show "\<forall>e. get_general_info tree = Inl e \<longrightarrow> e = AttributeError"
    unfolding get_general_info_def using general_info_loop_error by blast
next
  show "get_general_info tree = Inr info \<longrightarrow>
      map_of info = map_of (rev (spec_general_info (data_items tree))) \<and>
      (\<forall>k v. map_of info k = Some v \<longrightarrow>
         (\<exists>item \<in> set (data_items tree). \<exists>l ls ve ves t.
             label_el item = l # ls \<and> el_text l = Some t \<and> k = py_strip t \<and>
             value_elements item = ve # ves \<and> v = py_strip (py_join '' '' (text_nodes ve))))"
  proof
    assume "get_general_info tree = Inr info"
    then have "general_info_loop [] (data_items tree) = Inr info"
      by (simp add: get_general_info_def)
    from general_info_loop_spec[OF this]
    have m: "map_of info = map_of (rev (spec_general_info (data_items tree)))"
      by simp
    have "\<exists>item \<in> set (data_items tree). \<exists>l ls ve ves t.
             label_el item = l # ls \<and> el_text l = Some t \<and> k = py_strip t \<and>
             value_elements item = ve # ves \<and> v = py_strip (py_join '' '' (text_nodes ve))"
      if "map_of info k = Some v" for k v
    proof -
      from that m have "map_of (rev (spec_general_info (data_items tree))) k = Some v"
        by simp
      from spec_entry_in_rows[OF this] obtain item where
        i: "item \<in> set (data_items tree)" and e: "spec_row_entry item = Some (k, v)"
        by blast
      from spec_row_entry_Some[OF e] i show ?thesis by blast
    qed
    with m show "map_of info = map_of (rev (spec_general_info (data_items tree))) \<and>
      (\<forall>k v. map_of info k = Some v \<longrightarrow>
         (\<exists>item \<in> set (data_items tree). \<exists>l ls ve ves t.
             label_el item = l # ls \<and> el_text l = Some t \<and> k = py_strip t \<and>
             value_elements item = ve # ves \<and> v = py_strip (py_join '' '' (text_nodes ve))))"
      by blast
  qed
next
  show "label_el row = [] \<or> value_elements row = [] \<longrightarrow> spec_row_entry row = None"
    by (cases "label_el row") (auto simp: spec_row_entry_def)
next
  show "label_el row = l0 # ls0 \<and> el_text l0 = Some '' Tier '' \<and> value_elements row = v0 # vs0 \<and>
    concat (text_nodes v0) = '' 2 '' \<longrightarrow> spec_row_entry row = Some (''Tier'', ''2'')"
  proof
    assume h: "label_el row = l0 # ls0 \<and> el_text l0 = Some '' Tier '' \<and>
               value_elements row = v0 # vs0 \<and> concat (text_nodes v0) = '' 2 ''"
    then have "py_strip (py_join '' '' (text_nodes v0)) = ''2''"
      by (intro tier_value_example) simp
    with h tier_label_example show "spec_row_entry row = Some (''Tier'', ''2'')"
      by (simp add: spec_row_entry_def)
  qed
qed

lemma ore_page_info: "get_general_info ore_page = Inr [(''Tier'', ''2'')]"
  by code_simp

lemma tier_row_parts:
  "label_el tier_row = [Element ''h3'' [(''class'', ''pi-data-label pi-secondary-font'')] [Text '' Tier '']]"
  "value_elements tier_row = [Element ''div'' [(''class'', ''pi-data-value pi-font'')]
          [Element ''span'' [] [Text '' 2''], Element ''span'' [] [Text '' '']]]"
  by code_simp+

lemma bold_label_info: "get_general_info bold_label_page = Inl AttributeError"
  by code_simp

theorem general_info_amended_witness:
  "get_general_info ore_page = Inr [(''Tier'', ''2'')] \<and>
   map_of [(''Tier'', ''2'')] = map_of (rev (spec_general_info (data_items ore_page))) \<and>
   spec_row_entry tier_row = Some (''Tier'', ''2'') \<and>
   label_el (Text ''x'') = [] \<and> spec_row_entry (Text ''x'') = None \<and>
   (\<exists>item \<in> set (data_items bold_label_page). \<exists>l ls. label_el item = l # ls \<and> el_text l = None)"
proof -
  let ?l = "Element ''h3'' [(''class'', ''pi-data-label pi-secondary-font'')] [Text '' Tier '']"
  let ?v = "Element ''div'' [(''class'', ''pi-data-value pi-font'')]
          [Element ''span'' [] [Text '' 2''], Element ''span'' [] [Text '' '']]"
  note inst = general_info_amended[where tree = ore_page and info = "[(''Tier'', ''2'')]"
      and row = tier_row and ?l0.0 = ?l and ?ls0.0 = "[]" and ?v0.0 = ?v and ?vs0.0 = "[]"]
  from inst ore_page_info
  have m: "map_of [(''Tier'', ''2'')] = map_of (rev (spec_general_info (data_items ore_page)))"
    by blast
  have t: "el_text ?l = Some '' Tier ''" "concat (text_nodes ?v) = '' 2 ''"
    by (simp_all add: el_text_def text_nodes_def)
  from inst tier_row_parts t have e: "spec_row_entry tier_row = Some (''Tier'', ''2'')"
    by blast
  have n: "label_el (Text ''x'') = []"
    by (simp add: label_el_def)
  from general_info_amended[where row = "Text ''x''"] n
  have sn: "spec_row_entry (Text ''x'') = None"
    by blast
  from general_info_amended[where tree = bold_label_page] bold_label_info
  have b: "\<exists>item \<in> set (data_items bold_label_page). \<exists>l ls. label_el item = l # ls \<and> el_text l = None"
    by blast
  show ?thesis
    by (rule conjI[OF ore_page_info conjI[OF m conjI[OF e conjI[OF n conjI[OF sn b]]]]])
qed

section \<open>Properties of the recipe table\<close>

lemma input_materials_length:
  "input_materials ps = Inr ms \<Longrightarrow> length ms = length ps"
  by (induction ps arbitrary: ms) (auto split: sum.splits)

lemma input_materials_raises:
  "i < length ps \<Longrightarrow> count_of (snd (ps ! i)) = Inl e \<Longrightarrow> \<exists>e'. input_materials ps = Inl e'"
proof (induction ps arbitrary: i)
  case Nil
  then show ?case by simp
next
  case (Cons p ps)
  obtain name_el count_el where p: "p = (name_el, count_el)" by (cases p)
  show ?case
  proof (cases i)
    case 0
    with Cons.prems p show ?thesis by simp
  next
    case (Suc j)
    with Cons.prems have "j < length ps" "count_of (snd (ps ! j)) = Inl e" by simp_all
    from Cons.IH[OF this] obtain e' where "input_materials ps = Inl e'" ..
    with p show ?thesis by (simp split: sum.splits)
  qed
qed

lemma count_of_no_text: "el_text c = None \<Longrightarrow> count_of c = Inl AttributeError"
  by (simp add: count_of_def text_strip_def)

lemma parse_row_Some_inputs:
  "parse_row row = Inr (Some r) \<Longrightarrow>
   length (pr_inputs r) = min (length (input_name_elements row)) (length (input_count_elements row))"
  by (auto simp: parse_row_def split: if_splits sum.splits list.splits dest!: input_materials_length)

lemma recipes_loop_raises:
  "row \<in> set rows \<Longrightarrow> parse_row row = Inl e \<Longrightarrow> \<exists>e'. recipes_loop rows = Inl e'"
proof (induction rows)
  case Nil
  then show ?case by simp
next
  case (Cons a rows)
  show ?case
  proof (cases "row = a")
    case True
    with Cons.prems show ?thesis by simp
  next
    case False
    with Cons.prems Cons.IH obtain e' where "recipes_loop rows = Inl e'" by auto
    then show ?thesis by (simp split: sum.splits)
  qed
qed

lemma gather_raises:
  "x \<in> set xs \<Longrightarrow> f x = Inl e \<Longrightarrow> \<exists>e'. gather f xs = Inl e'"
proof (induction xs)
  case Nil
  then show ?case by simp
next
  case (Cons a xs)
  show ?case
  proof (cases "x = a")
    case True
    with Cons.prems show ?thesis by simp
  next
    case False
    with Cons.prems Cons.IH obtain e' where "gather f xs = Inl e'" by auto
    then show ?thesis by (simp split: sum.splits)
  qed
qed

lemma facility_fetch_raises:
  "wiki (replace_space facility_name) = Inr tree \<Longrightarrow> get_recipes tree = Inl e \<Longrightarrow>
   \<exists>e'. get_facility_and_recipes wiki facility_name = Inl e'"
  by (simp add: get_facility_and_recipes_def split: sum.splits)

lemma run_aggregation_raises:
  "facility_name \<in> set facility_names \<Longrightarrow> get_facility_and_recipes wiki facility_name = Inl e \<Longrightarrow>
   \<exists>e'. run_aggregation lib wiki facility_names = Inl e'"
proof -
  assume a: "facility_name \<in> set facility_names" "get_facility_and_recipes wiki facility_name = Inl e"
  from gather_raises[where f = "get_facility_and_recipes wiki", OF a] obtain e' where
    "gather (get_facility_and_recipes wiki) facility_names = Inl e'" ..
  then show ?thesis by (simp add: run_aggregation_def)
qed

text \<open>
  C8, as stated, fails for an input tooltip without a count at its position: the row parses,
  and the recipe has one input where the row has two tooltips.
\<close>

theorem missing_count_counterexample:
  "length (input_name_elements short_count_row) = 2 \<and>
   length (input_count_elements short_count_row) = 1 \<and>
   get_recipes (table_page short_count_row) = Inr [ingot_recipe]"
  by code_simp

text \<open>
  C8, amended. In a row with an input tooltip, a count element that is paired with an input
  tooltip and has no text makes \<^verbatim>\<open>get_recipes\<close> raise on every page whose recipe rows
  contain the row, and the run that fetches such a page aborts. An input tooltip with no
  count element at its position does not raise: a recipe parsed from the row has as many
  inputs as the shorter of the two element lists.
\<close>

theorem missing_count_text_raises:
  "(input_name_elements row \<noteq> [] \<and> i < length (input_name_elements row) \<and>
    i < length (input_count_elements row) \<and> el_text (input_count_elements row ! i) = None \<longrightarrow>
      (\<exists>e. parse_row row = Inl e) \<and>
      (row \<in> set (recipe_rows tree) \<longrightarrow>
         (\<exists>e. get_recipes tree = Inl e) \<and>
         (wiki (replace_space facility_name) = Inr tree \<and> facility_name \<in> set facility_names \<longrightarrow>
            (\<exists>e. run_aggregation lib wiki facility_names = Inl e)))) \<and>
   (parse_row row = Inr (Some r) \<longrightarrow>
      length (pr_inputs r) =
        min (length (input_name_elements row)) (length (input_count_elements row)))"
proof (intro conjI impI)
  assume h: "input_name_elements row \<noteq> [] \<and> i < length (input_name_elements row) \<and>
    i < length (input_count_elements row) \<and> el_text (input_count_elements row ! i) = None"
  let ?ps = "zip (input_name_elements row) (input_count_elements row)"
  from h have i: "i < length ?ps" by simp
  from h have "count_of (snd (?ps ! i)) = Inl AttributeError"
    by (simp add: count_of_no_text)
  from input_materials_raises[OF i this] obtain e' where "input_materials ?ps = Inl e'" ..
  with h show p: "\<exists>e. parse_row row = Inl e"
    by (simp add: parse_row_def)
  {
    assume r: "row \<in> set (recipe_rows tree)"
    from p obtain e where "parse_row row = Inl e" ..
    from recipes_loop_raises[OF r this] show g: "\<exists>e. get_recipes tree = Inl e"
      by (simp add: get_recipes_def)
    assume w: "wiki (replace_space facility_name) = Inr tree \<and> facility_name \<in> set facility_names"
    from g obtain e1 where "get_recipes tree = Inl e1" ..
    with w facility_fetch_raises obtain e2 where
      "get_facility_and_recipes wiki facility_name = Inl e2" by blast
    with w run_aggregation_raises show "\<exists>e. run_aggregation lib wiki facility_names = Inl e"
      by blast
  }
next
  assume "parse_row row = Inr (Some r)"
  then show "length (pr_inputs r) =
        min (length (input_name_elements row)) (length (input_count_elements row))"
    by (rule parse_row_Some_inputs)
qed

lemma no_count_text_row_parts:
  "input_name_elements no_count_text_row = [tooltip ''Ore'']"
  "input_count_elements no_count_text_row = [item_count []]"
  "recipe_rows (table_page no_count_text_row) = [no_count_text_row]"
  by code_simp+

lemma short_count_row_parse: "parse_row short_count_row = Inr (Some ingot_recipe)"
  by code_simp

lemma no_count_text_run:
  "run_aggregation example_lib (\<lambda>p. Inr (table_page no_count_text_row)) [''Smelter'']
     = Inl AttributeError"
  by code_simp

theorem missing_count_text_raises_witness:
  "input_name_elements no_count_text_row \<noteq> [] \<and>
   el_text (input_count_elements no_count_text_row ! 0) = None \<and>
   no_count_text_row \<in> set (recipe_rows (table_page no_count_text_row)) \<and>
   (\<exists>e. parse_row no_count_text_row = Inl e) \<and>
   (\<exists>e. get_recipes (table_page no_count_text_row) = Inl e) \<and>
   run_aggregation example_lib (\<lambda>p. Inr (table_page no_count_text_row)) [''Smelter'']
     = Inl AttributeError \<and>
   parse_row short_count_row = Inr (Some ingot_recipe) \<and>
   length (pr_inputs ingot_recipe) =
     min (length (input_name_elements short_count_row)) (length (input_count_elements short_count_row))"
proof -
  let ?tree = "table_page no_count_text_row"
  let ?wiki = "\<lambda>p::string. Inr ?tree :: error + node"
  have a: "input_name_elements no_count_text_row \<noteq> []"
    by (simp add: no_count_text_row_parts)
  have b: "el_text (input_count_elements no_count_text_row ! 0) = None"
    by (simp add: no_count_text_row_parts item_count_def el_text_def)
  have c: "no_count_text_row \<in> set (recipe_rows ?tree)"
    by (simp add: no_count_text_row_parts)
  have i: "0 < length (input_name_elements no_count_text_row)"
    "0 < length (input_count_elements no_count_text_row)"
    by (simp_all add: no_count_text_row_parts)
  note inst = missing_count_text_raises[where row = no_count_text_row and i = 0
      and tree = ?tree and wiki = ?wiki and facility_name = "''Smelter''"
      and facility_names = "[''Smelter'']" and lib = example_lib]
  from inst a b c i have d: "\<exists>e. parse_row no_count_text_row = Inl e"
    by blast
  from inst a b c i have e: "\<exists>e. get_recipes ?tree = Inl e"
    by blast
  from missing_count_text_raises[where row = short_count_row and r = ingot_recipe]
    short_count_row_parse
  have f: "length (pr_inputs ingot_recipe) =
     min (length (input_name_elements short_count_row)) (length (input_count_elements short_count_row))"
    by blast
  show ?thesis
    by (rule conjI[OF a conjI[OF b conjI[OF c conjI[OF d conjI[OF e
          conjI[OF no_count_text_run conjI[OF short_count_row_parse f]]]]]]])
qed

subsection \<open>One recipe row through the pipeline\<close>

lemma item_details_frame:
  assumes "item_details lib wiki st = Inr st'"
  shows "map fst (items st') = map fst (items st) \<and> recipes st' = recipes st \<and>
         facilities st' = facilities st"
proof -
  let ?names = "map (\<lambda>kv. item_name_en (snd kv)) (items st)"
  from assms obtain results its jobs where
    g: "gather (get_item_info_page wiki) ?names = Inr results" and
    l: "detail_loop lib (items st) results (img_jobs st) = Inr (its, jobs)" and
    st': "st' = st\<lparr>items := its, img_jobs := jobs\<rparr>"
    by (auto simp: item_details_def Let_def split: sum.splits prod.splits)
  from gather_nth[OF g] have len: "length results = length (items st)" by simp
  from detail_loop_nth[OF l len] st' show ?thesis by simp
qed

lemma str_nat_Suc_0: "str_nat (Suc 0) = ''1''"
  by (simp add: str_nat.simps digit_char_def)

lemma ingot_step:
  assumes "facility_step lib (facility_name, page) empty_agg = Inr st"
    and "facility_recipes page = [ingot_recipe]"
  shows "recipes st =
           [(replace_space facility_name @ ''__Ingot__1'',
             \<lparr>recipe_id = replace_space facility_name @ ''__Ingot__1'',
              facilityId = replace_space facility_name,
              inputs = [\<lparr>itemId = ''Ore'', amount = 2\<rparr>],
              outputs = [\<lparr>itemId = ''Ingot'', amount = 1\<rparr>], craftingTime = ''5s''\<rparr>)] \<and>
         map fst (items st) = [''Ore'', ''Ingot'']"
proof -
  let ?fid = "replace_space facility_name"
  from facility_step_Inr[OF assms(1)] assms(2) obtain jobs fac its st1 where
    a: "add_recipe_items [ingot_recipe] (items empty_agg) = Inr its" and
    l: "recipe_loop ?fid [ingot_recipe] []
          (empty_agg\<lparr>img_jobs := jobs, facilities := AList.update ?fid fac (facilities empty_agg),
             items := its\<rparr>) = Inr st1" and
    t: "thumb_loop lib (item_img_srcs page) st1 = Inr st"
    by auto
  have rs: "replace_space ''Ore'' = ''Ore''" "replace_space ''Ingot'' = ''Ingot''"
    by (simp_all add: replace_space_def)
  from a have its: "map fst its = [''Ore'', ''Ingot'']"
    by (auto simp: ingot_recipe_def empty_agg_def setdefault_def rs)
  from recipe_loop_items[OF l] have i1: "items st1 = its" by simp
  from l have "Inr st1 = recipe_loop ?fid [ingot_recipe] []
          (empty_agg\<lparr>img_jobs := jobs, facilities := AList.update ?fid fac (facilities empty_agg),
             items := its\<rparr>)"
    by simp
  also have "\<dots> = Inr (empty_agg\<lparr>img_jobs := jobs, items := its,
       recipes := [(?fid @ ''__Ingot__1'',
             \<lparr>recipe_id = ?fid @ ''__Ingot__1'', facilityId = ?fid,
              inputs = [\<lparr>itemId = ''Ore'', amount = 2\<rparr>],
              outputs = [\<lparr>itemId = ''Ingot'', amount = 1\<rparr>], craftingTime = ''5s''\<rparr>)],
       facilities := [(?fid, fac\<lparr>supportedRecipes := supportedRecipes fac @ [?fid @ ''__Ingot__1'']\<rparr>)]\<rparr>)"
    by (simp add: ingot_recipe_def empty_agg_def first_out_id_def py_index_def Let_def
          next_seq_def make_recipe_id_def str_nat_Suc_0 append_supported_def rs)
  finally have r1: "recipes st1 =
           [(?fid @ ''__Ingot__1'',
             \<lparr>recipe_id = ?fid @ ''__Ingot__1'', facilityId = ?fid,
              inputs = [\<lparr>itemId = ''Ore'', amount = 2\<rparr>],
              outputs = [\<lparr>itemId = ''Ingot'', amount = 1\<rparr>], craftingTime = ''5s''\<rparr>)]"
    by simp
  from thumb_loop_others[OF t] thumb_loop_keys[OF t] r1 i1 its show ?thesis
    by simp
qed

lemma py_int_2: "py_int ''2'' = Inr 2"
  by code_simp

lemma py_int_1: "py_int ''1'' = Inr 1"
  by code_simp

lemma strip_examples: "py_strip ''2'' = ''2''" "py_strip ''1'' = ''1''" "py_strip ''5s'' = ''5s''"
  by code_simp+

lemma scenario_row:
  assumes "input_name_elements row = [n_in]" "get_attr n_in ''data-name'' = Some ''Ore''"
    "input_count_elements row = [c_in]" "el_text c_in = Some ''2''"
    "output_name_elements row = n_out # ns" "get_attr n_out ''data-name'' = Some ''Ingot''"
    "output_count_elements row = c_out # cs" "el_text c_out = Some ''1''"
    "td 3 row = [t]" "el_text t = Some ''5s''"
  shows "parse_row row = Inr (Some ingot_recipe)"
  using assms
  by (simp add: parse_row_def count_of_def text_strip_def strip_examples py_int_2 py_int_1
        py_index_def ingot_recipe_def)

lemma recipes_loop_skip:
  "parse_row row = Inr None \<Longrightarrow> recipes_loop (rows1 @ row # rows2) = recipes_loop (rows1 @ rows2)"
  by (induction rows1) (simp_all split: sum.splits)

lemma no_output_row_parts:
  "output_name_elements no_output_row = []"
  "recipe_rows (table_page no_output_row) = [no_output_row]"
  by code_simp+

lemma no_output_raises: "get_recipes (table_page no_output_row) = Inl AttributeError"
  by code_simp

text \<open>
  C5, as stated, fails in its last part: a row without output tooltips is not skipped when
  the count of one of its inputs has no text; \<^verbatim>\<open>get_recipes\<close> raises on the page.
\<close>

theorem row_skip_counterexample:
  "output_name_elements no_output_row = [] \<and>
   recipe_rows (table_page no_output_row) = [no_output_row] \<and>
   get_recipes (table_page no_output_row) = Inl AttributeError"
  by (rule conjI[OF no_output_row_parts(1) conjI[OF no_output_row_parts(2) no_output_raises]])

text \<open>
  C5, amended. A page whose recipe table has exactly one data row, with one input tooltip
  \<^verbatim>\<open>Ore\<close> and count text \<^verbatim>\<open>2\<close>, a first output tooltip \<^verbatim>\<open>Ingot\<close> with count text \<^verbatim>\<open>1\<close>
  and time cell text \<^verbatim>\<open>5s\<close>, parses to the one recipe of the scenario; a run on that facility
  alone that returns has exactly one recipe record, with these inputs, outputs and crafting
  time, and the item keys \<^verbatim>\<open>Ore\<close> and \<^verbatim>\<open>Ingot\<close>. A row without input tooltips is skipped, and
  so is a row without output tooltips whose paired input counts all parse; a skipped row
  leaves the result of the other rows as it is.
\<close>

theorem one_row_scenario:
  "(recipe_rows tree = [row] \<and>
    input_name_elements row = [n_in] \<and> get_attr n_in ''data-name'' = Some ''Ore'' \<and>
    input_count_elements row = [c_in] \<and> el_text c_in = Some ''2'' \<and>
    output_name_elements row = n_out # ns \<and> get_attr n_out ''data-name'' = Some ''Ingot'' \<and>
    output_count_elements row = c_out # cs \<and> el_text c_out = Some ''1'' \<and>
    td 3 row = [t] \<and> el_text t = Some ''5s'' \<longrightarrow>
      get_recipes tree = Inr [ingot_recipe] \<and>
      (wiki (replace_space facility_name) = Inr tree \<and>
       run_aggregation lib wiki [facility_name] = Inr st \<longrightarrow>
         recipes st =
           [(replace_space facility_name @ ''__Ingot__1'',
             \<lparr>recipe_id = replace_space facility_name @ ''__Ingot__1'',
              facilityId = replace_space facility_name,
              inputs = [\<lparr>itemId = ''Ore'', amount = 2\<rparr>],
              outputs = [\<lparr>itemId = ''Ingot'', amount = 1\<rparr>], craftingTime = ''5s''\<rparr>)] \<and>
         map fst (items st) = [''Ore'', ''Ingot''])) \<and>
   (input_name_elements row = [] \<longrightarrow> parse_row row = Inr None) \<and>
   (input_materials (zip (input_name_elements row) (input_count_elements row)) = Inr ins \<and>
    output_name_elements row = [] \<longrightarrow> parse_row row = Inr None) \<and>
   (parse_row row = Inr None \<longrightarrow>
      recipes_loop (rows1 @ row # rows2) = recipes_loop (rows1 @ rows2))"
proof (intro conjI impI)
  assume h: "recipe_rows tree = [row] \<and>
    input_name_elements row = [n_in] \<and> get_attr n_in ''data-name'' = Some ''Ore'' \<and>
    input_count_elements row = [c_in] \<and> el_text c_in = Some ''2'' \<and>
    output_name_elements row = n_out # ns \<and> get_attr n_out ''data-name'' = Some ''Ingot'' \<and>
    output_count_elements row = c_out # cs \<and> el_text c_out = Some ''1'' \<and>
    td 3 row = [t] \<and> el_text t = Some ''5s''"
  then have "parse_row row = Inr (Some ingot_recipe)"
    by (intro scenario_row[where n_in = n_in and c_in = c_in and n_out = n_out and ns = ns
          and c_out = c_out and cs = cs and t = t]) simp_all
  with h show g: "get_recipes tree = Inr [ingot_recipe]"
    by (simp add: get_recipes_def)
  assume w: "wiki (replace_space facility_name) = Inr tree \<and>
       run_aggregation lib wiki [facility_name] = Inr st"
  then obtain page st2 where
    p: "get_facility_and_recipes wiki facility_name = Inr page" and
    a: "aggregate lib [facility_name] [page] = Inr st2" and
    d: "item_details lib wiki st2 = Inr st"
    by (auto simp: run_aggregation_def split: sum.splits)
  from p w g have fr: "facility_recipes page = [ingot_recipe]"
    by (auto simp: get_facility_and_recipes_def split: sum.splits)
  from a have "facility_step lib (facility_name, page) empty_agg = Inr st2"
    by (simp add: aggregate_def split: sum.splits)
  from ingot_step[OF this fr] item_details_frame[OF d]
  show "recipes st =
           [(replace_space facility_name @ ''__Ingot__1'',
             \<lparr>recipe_id = replace_space facility_name @ ''__Ingot__1'',
              facilityId = replace_space facility_name,
              inputs = [\<lparr>itemId = ''Ore'', amount = 2\<rparr>],
              outputs = [\<lparr>itemId = ''Ingot'', amount = 1\<rparr>], craftingTime = ''5s''\<rparr>)]"
    and "map fst (items st) = [''Ore'', ''Ingot'']"
    by simp_all
next
  assume "input_name_elements row = []"
  then show "parse_row row = Inr None"
    by (simp add: parse_row_def)
next
  assume "input_materials (zip (input_name_elements row) (input_count_elements row)) = Inr ins \<and>
    output_name_elements row = []"
  then show "parse_row row = Inr None"
    by (simp add: parse_row_def)
next
  assume "parse_row row = Inr None"
  then show "recipes_loop (rows1 @ row # rows2) = recipes_loop (rows1 @ rows2)"
    by (rule recipes_loop_skip)
qed

lemma ingot_row_parts:
  "recipe_rows (table_page ingot_row) = [ingot_row]"
  "input_name_elements ingot_row = [tooltip ''Ore'']"
  "input_count_elements ingot_row = [item_count [Text ''2'']]"
  "output_name_elements ingot_row = [tooltip ''Ingot'']"
  "output_count_elements ingot_row = [item_count [Text ''1'']]"
  "td 3 ingot_row = [Element ''td'' [] [Text ''5s'']]"
  by code_simp+

lemma ingot_run_result:
  "run_aggregation example_lib (\<lambda>p. Inr (table_page ingot_row)) [''Smelter''] = Inr ingot_run"
  by code_simp

lemma empty_row_inputs: "input_name_elements empty_row = []"
  by code_simp

theorem one_row_scenario_witness:
  "recipe_rows (table_page ingot_row) = [ingot_row] \<and>
   get_recipes (table_page ingot_row) = Inr [ingot_recipe] \<and>
   run_aggregation example_lib (\<lambda>p. Inr (table_page ingot_row)) [''Smelter''] = Inr ingot_run \<and>
   map fst (items ingot_run) = [''Ore'', ''Ingot''] \<and>
   map fst (recipes ingot_run) = [''Smelter__Ingot__1''] \<and>
   input_name_elements empty_row = [] \<and>
   parse_row empty_row = Inr None \<and>
   recipes_loop ([ingot_row] @ empty_row # []) = recipes_loop ([ingot_row] @ [])"
proof -
  let ?tree = "table_page ingot_row"
  let ?wiki = "\<lambda>p::string. Inr ?tree :: error + node"
  have t: "get_attr (tooltip ''Ore'') ''data-name'' = Some ''Ore''"
    "get_attr (tooltip ''Ingot'') ''data-name'' = Some ''Ingot''"
    "el_text (item_count [Text ''2'']) = Some ''2''"
    "el_text (item_count [Text ''1'']) = Some ''1''"
    "el_text (Element ''td'' [] [Text ''5s'']) = Some ''5s''"
    by (simp_all add: tooltip_def item_count_def el_text_def)
  have rs: "replace_space ''Smelter'' = ''Smelter''"
    by (simp add: replace_space_def)
  note inst = one_row_scenario[where tree = ?tree and row = ingot_row
      and n_in = "tooltip ''Ore''" and c_in = "item_count [Text ''2'']"
      and n_out = "tooltip ''Ingot''" and ns = "[]" and c_out = "item_count [Text ''1'']"
      and cs = "[]" and t = "Element ''td'' [] [Text ''5s'']" and wiki = ?wiki
      and facility_name = "''Smelter''" and lib = example_lib and st = ingot_run]
  from inst ingot_row_parts t have g: "get_recipes ?tree = Inr [ingot_recipe]"
    by blast
  from inst ingot_row_parts t ingot_run_result
  have "recipes ingot_run =
           [(replace_space ''Smelter'' @ ''__Ingot__1'',
             \<lparr>recipe_id = replace_space ''Smelter'' @ ''__Ingot__1'',
              facilityId = replace_space ''Smelter'',
              inputs = [\<lparr>itemId = ''Ore'', amount = 2\<rparr>],
              outputs = [\<lparr>itemId = ''Ingot'', amount = 1\<rparr>], craftingTime = ''5s''\<rparr>)] \<and>
         map fst (items ingot_run) = [''Ore'', ''Ingot'']"
    by blast
  then have i: "map fst (items ingot_run) = [''Ore'', ''Ingot'']"
    and r: "map fst (recipes ingot_run) = [''Smelter__Ingot__1'']"
    by (simp_all add: rs)
  from one_row_scenario[where row = empty_row] empty_row_inputs
  have p: "parse_row empty_row = Inr None"
    by blast
  from one_row_scenario[where row = empty_row and ?rows1.0 = "[ingot_row]" and ?rows2.0 = "[]"] p
  have s: "recipes_loop ([ingot_row] @ empty_row # []) = recipes_loop ([ingot_row] @ [])"
    by blast
  show ?thesis
    by (rule conjI[OF ingot_row_parts(1) conjI[OF g conjI[OF ingot_run_result conjI[OF i
          conjI[OF r conjI[OF empty_row_inputs conjI[OF p s]]]]]]])
qed

end
